theory Spec2Isabelle
  imports Main "HOL-Library.Sublist"
begin

section \<open>Python primitives used by the orchestrator\<close>

text \<open>
  Strings are lists of characters; a character stands for the Unicode code point of the
  same number (code points below 256). The substring test \<open>sub in s\<close> of Python is
  \<^const>\<open>sublist\<close>, \<open>s.startswith(p)\<close> is \<^const>\<open>prefix\<close>.
\<close>

datatype exn =
    ValueError string
  | OverflowError string
  | APIRateLimitError string
  | APIError string
  | RuntimeError string
  | ModelException string

text \<open>\<open>str(e)\<close> of an exception.\<close>

fun exn_str :: "exn \<Rightarrow> string" where
  "exn_str (ValueError msg) = msg"
| "exn_str (OverflowError msg) = msg"
| "exn_str (APIRateLimitError msg) = msg"
| "exn_str (APIError msg) = msg"
| "exn_str (RuntimeError msg) = msg"
| "exn_str (ModelException msg) = msg"

text \<open>\<open>range(i, stop, step)\<close> for a positive step, by iteration.\<close>

function range_from :: "nat \<Rightarrow> nat \<Rightarrow> nat \<Rightarrow> nat list" where
  "range_from i stop step =
     (if step = 0 \<or> stop \<le> i then [] else i # range_from (i + step) stop step)"
  by pat_completeness auto
termination
  by (relation "measure (\<lambda>(i, stop, step). stop - i)") auto

text \<open>\<open>range(0, stop, step)\<close>: a zero step raises, a negative one gives no index.\<close>

definition py_range :: "nat \<Rightarrow> int \<Rightarrow> exn + nat list" where
  "py_range stop step =
     (if step = 0 then Inl (ValueError ''range() arg 3 must not be zero'')
      else if step < 0 then Inr []
      else Inr (range_from 0 stop (nat step)))"

text \<open>The slice \<open>xs[a:b]\<close> for indices that are not negative (empty when \<open>b \<le> a\<close>).\<close>

definition py_slice :: "'a list \<Rightarrow> nat \<Rightarrow> nat \<Rightarrow> 'a list" where
  "py_slice xs a b = take (b - a) (drop a xs)"

text \<open>\<open>xs[i]\<close>, with \<open>None\<close> for IndexError.\<close>

definition py_index :: "'a list \<Rightarrow> nat \<Rightarrow> 'a option" where
  "py_index xs i = (if i < length xs then Some (xs ! i) else None)"

definition py_isspace :: "char \<Rightarrow> bool" where
  "py_isspace c = ((of_char c :: nat) \<in> set [9, 10, 11, 12, 13, 28, 29, 30, 31, 32, 133, 160])"

definition py_strip :: "string \<Rightarrow> string" where
  "py_strip s = rev (dropWhile py_isspace (rev (dropWhile py_isspace s)))"

definition lower_char :: "char \<Rightarrow> char" where
  "lower_char c =
     (let n = (of_char c :: nat)
      in if (65 \<le> n \<and> n \<le> 90) \<or> (192 \<le> n \<and> n \<le> 222 \<and> n \<noteq> 215)
         then char_of (n + 32) else c)"

definition py_lower :: "string \<Rightarrow> string" where
  "py_lower s = map lower_char s"

text \<open>
  \<open>str.isdigit\<close> holds of the ten decimal digits and of the superscripts two, three and
  one; \<open>int\<close> rejects the superscripts and the empty string (ValueError, here \<open>None\<close>).
\<close>

definition ascii_digit :: "char \<Rightarrow> bool" where
  "ascii_digit c = (48 \<le> (of_char c :: nat) \<and> (of_char c :: nat) \<le> 57)"

definition py_isdigit :: "char \<Rightarrow> bool" where
  "py_isdigit c = (ascii_digit c \<or> (of_char c :: nat) \<in> set [178, 179, 185])"

definition digits_value :: "string \<Rightarrow> int" where
  "digits_value ds = foldl (\<lambda>acc c. 10 * acc + (int (of_char c) - 48)) 0 ds"

text \<open>
  \<open>int(s)\<close> for a string of characters that satisfy \<open>str.isdigit\<close>. The conversion of a
  numeral of more than 4300 digits raises ValueError as well (the default of
  \<open>sys.int_max_str_digits\<close>).
\<close>

definition py_int :: "string \<Rightarrow> int option" where
  "py_int s =
     (if s \<noteq> [] \<and> list_all ascii_digit s \<and> length s \<le> 4300 then Some (digits_value s)
      else None)"

text \<open>\<open>s.find(sub)\<close>: the least index where \<open>sub\<close> starts, \<open>None\<close> for \<open>-1\<close>.\<close>

fun py_find :: "string \<Rightarrow> string \<Rightarrow> nat option" where
  "py_find sub [] = (if sub = [] then Some 0 else None)"
| "py_find sub (c # cs) =
     (if prefix sub (c # cs) then Some 0 else map_option Suc (py_find sub cs))"

text \<open>\<open>s.replace(old, new, 1)\<close>.\<close>

definition py_replace_first :: "string \<Rightarrow> string \<Rightarrow> string \<Rightarrow> string" where
  "py_replace_first s old new =
     (case py_find old s of
        None \<Rightarrow> s
      | Some i \<Rightarrow> take i s @ new @ drop (i + length old) s)"

text \<open>\<open>s.replace(a, b)\<close> for single characters \<open>a\<close>, \<open>b\<close>.\<close>

definition py_replace_char :: "string \<Rightarrow> char \<Rightarrow> char \<Rightarrow> string" where
  "py_replace_char s a b = map (\<lambda>c. if c = a then b else c) s"

lemma py_find_bound: "py_find sub s = Some i \<Longrightarrow> i + length sub \<le> length s"
proof (induction s arbitrary: i)
  case Nil
  then show ?case by (simp split: if_splits)
next
  case (Cons c cs)
  show ?case
  proof (cases "prefix sub (c # cs)")
    case True
    with Cons.prems show ?thesis by (auto dest: prefix_length_le)
  next
    case False
    with Cons.prems obtain j where "py_find sub cs = Some j" "i = Suc j" by auto
    with Cons.IH show ?thesis by simp
  qed
qed

text \<open>
  \<open>s.split(sep)\<close> for a separator that is not empty (every separator of the source is a
  literal): the pieces between the occurrences of \<open>sep\<close>, found from the left.
\<close>

function py_split :: "string \<Rightarrow> string \<Rightarrow> string list" where
  "py_split sep s =
     (case py_find sep s of
        None \<Rightarrow> [s]
      | Some i \<Rightarrow> if sep = [] then [s] else take i s # py_split sep (drop (i + length sep) s))"
  by pat_completeness auto
termination
proof (relation "measure (\<lambda>(sep, s). length s)")
  show "wf (measure (\<lambda>(sep, s). length s))" by simp
next
  fix sep s :: string and i :: nat
  assume "py_find sep s = Some i" and "sep \<noteq> []"
  then have "i + length sep \<le> length s" and "0 < length sep"
    by (simp_all add: py_find_bound)
  then have "length s - (i + length sep) < length s"
    by arith
  then show "((sep, drop (i + length sep) s), (sep, s)) \<in> measure (\<lambda>(sep, s). length s)"
    by simp
qed

section \<open>Document Batcher\<close>

text \<open>
  \<open>process_documents_in_batches\<close> (inference/service.py and controller/gemini_case_handler.py,
  the same code), from the list \<open>all_content\<close> of extracted document contents on:
  \<^verbatim>\<open>
  if not all_content: return []
  batches = [all_content[i:i + max_batch_size]
             for i in range(0, len(all_content), max_batch_size)]
  return batches
  \<close>
\<close>

definition process_documents_in_batches :: "'a list \<Rightarrow> int \<Rightarrow> exn + 'a list list" where
  "process_documents_in_batches all_content max_batch_size =
     (if all_content = [] then Inr []
      else case py_range (length all_content) max_batch_size of
             Inl e \<Rightarrow> Inl e
           | Inr idx \<Rightarrow> Inr (map (\<lambda>i. py_slice all_content i (i + nat max_batch_size)) idx))"

section \<open>Retry delay\<close>

text \<open>
  \<open>extract_retry_delay\<close> (the same function in inference/models/gemini_model.py and in
  controller/gemini_case_handler.py). Every exception of the body (an index out of range
  after a split, \<open>int\<close> of a string that is no numeral) returns the default delay.
\<close>

definition extract_retry_delay :: "string \<Rightarrow> int \<Rightarrow> int" where
  "extract_retry_delay error_message default_delay =
     (if \<not> sublist ''429'' error_message then default_delay
      else if sublist ''retry_delay'' error_message then
        (case py_index (py_split ''retry_delay {'' error_message) 1 of
           None \<Rightarrow> default_delay
         | Some tail \<Rightarrow>
            (case py_index (py_split ''}'' tail) 0 of
               None \<Rightarrow> default_delay
             | Some retry_delay_section \<Rightarrow>
                (case py_index (py_split ''seconds:'' retry_delay_section) 1 of
                   None \<Rightarrow> default_delay
                 | Some seconds_str \<Rightarrow>
                    (case py_int (filter py_isdigit (py_strip seconds_str)) of
                       None \<Rightarrow> default_delay
                     | Some seconds \<Rightarrow> seconds + 2))))
      else default_delay)"

section \<open>The text-generation capability\<close>

text \<open>
  What one \<open>generate_content\<close> call gives: an exception with text \<open>str(e)\<close>, or a response
  with its block reason (empty when the prompt feedback has none), its text (empty when
  there is none) and the finish reason of its first candidate (\<open>UNKNOWN\<close> without one).
  The model is external: its outcome is a function of the number of calls made before
  and of the request, so that every behaviour of a real or mock model is one \<open>model\<close>.
\<close>

record response =
  block_reason :: string
  resp_text :: string
  finish_reason :: string

datatype outcome = Raises string | Returns response

type_synonym model = "nat \<Rightarrow> string list \<Rightarrow> outcome"

text \<open>The effects of a run: the model calls made and the delays slept, in order.\<close>

record run_state =
  calls :: nat
  sleeps :: "int list"

text \<open>
  \<open>time.sleep(secs)\<close> for an integer: the conversion of the delay to nanoseconds in a
  64-bit integer raises OverflowError beyond 9223372036 seconds either way, and a
  negative delay raises ValueError; otherwise the delay is slept.
\<close>

definition sleep_error :: "int \<Rightarrow> exn option" where
  "sleep_error secs =
     (if secs < - 9223372036 \<or> 9223372036 < secs
      then Some (OverflowError ''timestamp too large to convert to C _PyTime_t'')
      else if secs < 0 then Some (ValueError ''sleep length must be non-negative'')
      else None)"

definition time_sleep :: "int \<Rightarrow> run_state \<Rightarrow> exn + run_state" where
  "time_sleep secs st =
     (case sleep_error secs of
        Some e \<Rightarrow> Inl e
      | None \<Rightarrow> Inr (st\<lparr>sleeps := sleeps st @ [secs]\<rparr>))"

text \<open>
  The test \<^verbatim>\<open>"429" in error_str or "rate limit" in error_str.lower() or "quota" in error_str.lower()\<close>
  of \<open>GeminiModel.predict\<close> and of both \<open>query_with_batch\<close>.
\<close>

definition is_rate_limit :: "string \<Rightarrow> bool" where
  "is_rate_limit error_str =
     (sublist ''429'' error_str \<or> sublist ''rate limit'' (py_lower error_str)
      \<or> sublist ''quota'' (py_lower error_str))"

definition format_error_marker :: string where
  "format_error_marker = ''Unable to determine the intended type of the `dict`''"

subsection \<open>\<open>GeminiModel.predict\<close> (inference/models/gemini_model.py)\<close>

text \<open>
  The body of the \<open>try\<close>: the text, or the \<open>str(e)\<close> of the exception that the \<open>except\<close>
  clause catches (the two \<open>APIError\<close>s raised inside the \<open>try\<close> are caught there as well).
\<close>

definition predict_attempt :: "outcome \<Rightarrow> string + string" where
  "predict_attempt out =
     (case out of
        Raises error_str \<Rightarrow> Inl error_str
      | Returns r \<Rightarrow>
          if block_reason r \<noteq> [] then Inl (''Content generation blocked ('' @ block_reason r @ '')'')
          else if resp_text r = [] then Inl (''No text returned (Reason: '' @ finish_reason r @ '').'')
          else Inr (resp_text r))"

text \<open>
  The loop. The sleep is inside the \<open>except\<close> clause: an exception of \<open>time.sleep\<close> is
  not caught there and ends \<open>predict\<close>.
\<close>

function predict_loop ::
  "model \<Rightarrow> string list \<Rightarrow> int \<Rightarrow> int \<Rightarrow> nat \<Rightarrow> run_state \<Rightarrow> (exn + string) \<times> run_state" where
  "predict_loop m inputs max_retries base_retry_delay retry_count st =
     (if int retry_count \<le> max_retries then
        (case predict_attempt (m (calls st) inputs) of
           Inr txt \<Rightarrow> (Inr txt, st\<lparr>calls := Suc (calls st)\<rparr>)
         | Inl error_str \<Rightarrow>
             if is_rate_limit error_str then
               (case time_sleep (extract_retry_delay error_str (base_retry_delay * 2 ^ retry_count))
                       (st\<lparr>calls := Suc (calls st)\<rparr>) of
                  Inl e \<Rightarrow> (Inl e, st\<lparr>calls := Suc (calls st)\<rparr>)
                | Inr st1 \<Rightarrow>
                    predict_loop m inputs max_retries base_retry_delay (Suc retry_count) st1)
             else (Inl (APIError (''Gemini API error: '' @ error_str)), st\<lparr>calls := Suc (calls st)\<rparr>))
      else (Inl (APIRateLimitError ''Rate limit exceeded after maximum retries.''), st))"
  by pat_completeness auto
termination
  by (relation "measure (\<lambda>(m, inputs, max_retries, base_retry_delay, retry_count, st).
        nat (max_retries + 1 - int retry_count))") auto

definition predict ::
  "model \<Rightarrow> string list \<Rightarrow> int \<Rightarrow> int \<Rightarrow> run_state \<Rightarrow> (exn + string) \<times> run_state" where
  "predict m inputs max_retries base_retry_delay st =
     predict_loop m inputs max_retries base_retry_delay 0 st"

section \<open>Prompt Resolver\<close>

text \<open>
  The prompt table is a dictionary from keys to prompt texts: an association list with
  distinct keys, in insertion order (the order in which the keys are searched).
  \<open>d.get(k)\<close> is \<^const>\<open>map_of\<close>; a value is used only if it is truthy (neither \<open>None\<close>
  nor the empty string). The case type is \<open>None\<close> or a string.
\<close>

type_synonym prompt_table = "(string \<times> string) list"

definition truthy :: "string option \<Rightarrow> bool" where
  "truthy v = (case v of None \<Rightarrow> False | Some s \<Rightarrow> s \<noteq> [])"

text \<open>The string of a truthy value (used under \<^const>\<open>truthy\<close> only).\<close>

definition str_of :: "string option \<Rightarrow> string" where
  "str_of v = (case v of None \<Rightarrow> [] | Some s \<Rightarrow> s)"

definition default_prompt :: "string \<Rightarrow> string" where
  "default_prompt section =
     ''Analyze the provided documents and extract information for the '' @ [CHR 0x27]
       @ section @ [CHR 0x27] @ '' section of the report.''"

subsection \<open>In \<open>GeminiHandler.query_with_batch\<close> (controller/gemini_case_handler.py)\<close>

text \<open>
  The loop over the available keys: a similar key gives its value, and the loop stops
  only on a truthy one.
\<close>

fun handler_similar_key ::
  "prompt_table \<Rightarrow> string \<Rightarrow> string list \<Rightarrow> string option \<Rightarrow> string option" where
  "handler_similar_key system_prompts section [] system_prompt_text = system_prompt_text"
| "handler_similar_key system_prompts section (key # keys) system_prompt_text =
     (if sublist (py_lower section) (py_lower key) \<or> sublist (py_lower key) (py_lower section)
      then (if truthy (map_of system_prompts key) then map_of system_prompts key
            else handler_similar_key system_prompts section keys (map_of system_prompts key))
      else handler_similar_key system_prompts section keys system_prompt_text)"

definition handler_resolve_prompt :: "prompt_table \<Rightarrow> string option \<Rightarrow> string \<Rightarrow> string" where
  "handler_resolve_prompt system_prompts case_type section =
     (let t1 = (if truthy case_type
                then map_of system_prompts (section @ ''_'' @ str_of case_type) else None);
          t2 = (if \<not> truthy t1 then map_of system_prompts section else t1)
      in if truthy t2 then str_of t2
         else
          (let t3 = handler_similar_key system_prompts section (map fst system_prompts) t2;
               section_with_underscores = py_replace_char section CHR '' '' CHR ''_'';
               t4 = (if \<not> truthy t3 \<and> section_with_underscores \<in> set (map fst system_prompts)
                     then map_of system_prompts section_with_underscores else t3);
               section_with_spaces = py_replace_char section CHR ''_'' CHR '' '';
               t5 = (if \<not> truthy t4 \<and> section_with_spaces \<in> set (map fst system_prompts)
                     then map_of system_prompts section_with_spaces else t4)
           in if \<not> truthy t5 then default_prompt section else str_of t5))"

subsection \<open>In \<open>InferenceService.query_with_batch\<close> (inference/service.py)\<close>

text \<open>The flexible matching: the first matching key gives its value and ends the loop.\<close>

fun service_flexible_key ::
  "prompt_table \<Rightarrow> string \<Rightarrow> string \<Rightarrow> string list \<Rightarrow> string option \<Rightarrow> string option" where
  "service_flexible_key system_prompts section section_normalized [] system_prompt_text =
     system_prompt_text"
| "service_flexible_key system_prompts section section_normalized (key # keys) system_prompt_text =
     (if sublist (py_lower section) (py_lower key) \<or> sublist (py_lower key) (py_lower section)
         \<or> sublist (py_lower section_normalized) (py_lower key)
         \<or> sublist (py_lower key) (py_lower section_normalized)
      then map_of system_prompts key
      else service_flexible_key system_prompts section section_normalized keys system_prompt_text)"

text \<open>The prompt, or the error string that \<open>query_with_batch\<close> returns without a call.\<close>

definition service_resolve_prompt :: "prompt_table \<Rightarrow> string option \<Rightarrow> string \<Rightarrow> string + string" where
  "service_resolve_prompt system_prompts case_type section =
     (let section_normalized = py_replace_char section CHR '' '' CHR ''_'';
          section_with_spaces = py_replace_char section_normalized CHR ''_'' CHR '' '';
          t1 = (if truthy case_type then
                  (if truthy (map_of system_prompts (section_normalized @ ''_'' @ str_of case_type))
                   then map_of system_prompts (section_normalized @ ''_'' @ str_of case_type)
                   else map_of system_prompts (section_with_spaces @ ''_'' @ str_of case_type))
                else None);
          t2 = (if \<not> truthy t1 then
                  (if truthy (map_of system_prompts section_normalized)
                   then map_of system_prompts section_normalized
                   else map_of system_prompts section_with_spaces)
                else t1)
      in if truthy t2 then Inr (str_of t2)
         else if system_prompts = [] then
           Inl ''Error: Not enough information is provided. No system prompts found in MongoDB.''
         else
          (let t3 = service_flexible_key system_prompts section section_normalized
                      (map fst system_prompts) t2
           in if \<not> truthy t3 then
                Inl (''Error: Not enough information is provided. No system prompt found for section ''
                      @ [CHR 0x27] @ section @ [CHR 0x27] @ ''.'')
              else Inr (str_of t3)))"

section \<open>Batch Query Engine\<close>

text \<open>
  A batch is the list of its document texts; the request is the batch followed by the
  system prompt (\<open>contents = batch + [system_prompt]\<close>). Every item is a well-formed
  single-field text unit, so that the validation of the items and the repair after a
  format error leave \<open>contents\<close> as it is.
\<close>

subsection \<open>\<open>GeminiHandler.query_with_batch\<close>\<close>

text \<open>
  The loop of the query; an exception of \<open>time.sleep\<close> in the \<open>except\<close> clause leaves
  \<open>query_with_batch\<close>.
\<close>

function handler_query_loop ::
  "model \<Rightarrow> string list \<Rightarrow> int \<Rightarrow> int \<Rightarrow> nat \<Rightarrow> run_state \<Rightarrow> (exn + string) \<times> run_state" where
  "handler_query_loop m contents max_retries base_retry_delay retry_count st =
     (if int retry_count \<le> max_retries then
        (case m (calls st) contents of
           Returns r \<Rightarrow>
             if block_reason r \<noteq> [] then
               (Inr (''Error: Content generation blocked ('' @ block_reason r @ '')''),
                st\<lparr>calls := Suc (calls st)\<rparr>)
             else if resp_text r = [] then
               (Inr (''Error: No text returned (Reason: '' @ finish_reason r @ '').''),
                st\<lparr>calls := Suc (calls st)\<rparr>)
             else (Inr (resp_text r), st\<lparr>calls := Suc (calls st)\<rparr>)
         | Raises error_str \<Rightarrow>
             if is_rate_limit error_str then
               (case time_sleep (extract_retry_delay error_str (base_retry_delay * 2 ^ retry_count))
                       (st\<lparr>calls := Suc (calls st)\<rparr>) of
                  Inl e \<Rightarrow> (Inl e, st\<lparr>calls := Suc (calls st)\<rparr>)
                | Inr st1 \<Rightarrow>
                    handler_query_loop m contents max_retries base_retry_delay (Suc retry_count) st1)
             else if sublist format_error_marker error_str then
               handler_query_loop m contents max_retries base_retry_delay (Suc retry_count)
                 (st\<lparr>calls := Suc (calls st)\<rparr>)
             else (Inl (RuntimeError (''Gemini query failed: '' @ error_str)),
                   st\<lparr>calls := Suc (calls st)\<rparr>))
      else (Inr ''Error: Rate limit exceeded after maximum retries.'', st))"
  by pat_completeness auto
termination
  by (relation "measure (\<lambda>(m, contents, max_retries, base_retry_delay, retry_count, st).
        nat (max_retries + 1 - int retry_count))") auto

definition handler_query_with_batch ::
  "model \<Rightarrow> prompt_table \<Rightarrow> string option \<Rightarrow> string list \<Rightarrow> string \<Rightarrow> int \<Rightarrow> int
     \<Rightarrow> run_state \<Rightarrow> (exn + string) \<times> run_state" where
  "handler_query_with_batch m system_prompts case_type batch section base_retry_delay max_retries st =
     (if batch = [] then (Inr ''Error: Empty batch provided for querying.'', st)
      else handler_query_loop m
             (batch @ [handler_resolve_prompt system_prompts case_type section])
             max_retries base_retry_delay 0 st)"

subsection \<open>\<open>InferenceService.query_with_batch\<close>\<close>

definition service_query_with_batch ::
  "model \<Rightarrow> prompt_table \<Rightarrow> string option \<Rightarrow> string list \<Rightarrow> string \<Rightarrow> int \<Rightarrow> int
     \<Rightarrow> run_state \<Rightarrow> string \<times> run_state" where
  "service_query_with_batch m system_prompts case_type batch section base_retry_delay max_retries st =
     (if batch = [] then (''Error: Empty batch provided for querying.'', st)
      else case service_resolve_prompt system_prompts case_type section of
        Inl err \<Rightarrow> (err, st)
      | Inr system_prompt_text \<Rightarrow>
         (case predict m (batch @ [system_prompt_text]) max_retries base_retry_delay st of
            (Inr response, st1) \<Rightarrow> (response, st1)
          | (Inl (APIRateLimitError msg), st1) \<Rightarrow>
              (''Error: Rate limit exceeded after maximum retries.'', st1)
          | (Inl (APIError error_str), st1) \<Rightarrow>
              if sublist format_error_marker error_str then
                (case predict m (batch @ [system_prompt_text]) max_retries base_retry_delay st1 of
                   (Inr response, st2) \<Rightarrow> (response, st2)
                 | (Inl retry_e, st2) \<Rightarrow>
                     (''Error: Failed to fix format and retry: '' @ exn_str retry_e, st2))
              else (''Error: '' @ error_str, st1)
          | (Inl e, st1) \<Rightarrow> (''Error: Gemini query failed: '' @ exn_str e, st1)))"

section \<open>Synthesis Engine\<close>

text \<open>\<open>str(n)\<close> of a natural number.\<close>

function str_nat :: "nat \<Rightarrow> string" where
  "str_nat n = (if n < 10 then [char_of (48 + n)] else str_nat (n div 10) @ [char_of (48 + n mod 10)])"
  by pat_completeness auto
termination
  by (relation "measure (\<lambda>n. n)") auto

text \<open>
  The text \<^verbatim>\<open>--- ANALYSIS FROM BATCH {idx + 1} ---\n{result}\n--- END OF BATCH {idx + 1} ---\n\n\<close>
  of every batch result, concatenated.
\<close>

fun combined_text :: "nat \<Rightarrow> string list \<Rightarrow> string" where
  "combined_text idx [] = []"
| "combined_text idx (result # results) =
     ''--- ANALYSIS FROM BATCH '' @ str_nat (idx + 1) @ '' ---'' @ [CHR 0x0A] @ result @ [CHR 0x0A]
       @ ''--- END OF BATCH '' @ str_nat (idx + 1) @ '' ---'' @ [CHR 0x0A, CHR 0x0A]
       @ combined_text (Suc idx) results"

definition failure_warning :: "bool \<Rightarrow> string" where
  "failure_warning processing_failed =
     (if processing_failed
      then ''IMPORTANT: Some batches encountered errors, so the final result may be incomplete.''
             @ [CHR 0x0A, CHR 0x0A]
      else [])"

text \<open>
  The synthesis prompt is a fixed template (a long literal of formatting instructions)
  filled with the failure warning, the section and the combined text; the template is a
  parameter \<open>template failure_warning section combined_text\<close> of the model.
\<close>

type_synonym template = "string \<Rightarrow> string \<Rightarrow> string \<Rightarrow> string"

definition error_marker :: "nat \<Rightarrow> string \<Rightarrow> string" where
  "error_marker i response =
     ''[[ERROR PROCESSING BATCH '' @ str_nat (i + 1) @ '': '' @ response @ '']]''"

subsection \<open>\<open>InferenceService.create_unified_analysis\<close>\<close>

text \<open>The loop over the batches: the results, and whether one of them is an error.\<close>

fun service_run_batches ::
  "model \<Rightarrow> prompt_table \<Rightarrow> string option \<Rightarrow> string \<Rightarrow> int \<Rightarrow> int \<Rightarrow> nat \<Rightarrow> string list list
     \<Rightarrow> string list \<times> bool \<Rightarrow> run_state \<Rightarrow> (string list \<times> bool) \<times> run_state" where
  "service_run_batches m system_prompts case_type section base_retry_delay max_retries i []
     acc st = (acc, st)"
| "service_run_batches m system_prompts case_type section base_retry_delay max_retries i (batch # batches)
     (batch_results, processing_failed) st =
     (case service_query_with_batch m system_prompts case_type batch section
             base_retry_delay max_retries st of
        (response, st1) \<Rightarrow>
          if prefix ''Error:'' response then
            service_run_batches m system_prompts case_type section base_retry_delay max_retries
              (Suc i) batches (batch_results @ [error_marker i response], True) st1
          else
            service_run_batches m system_prompts case_type section base_retry_delay max_retries
              (Suc i) batches (batch_results @ [response], processing_failed) st1)"

definition service_create_unified_analysis ::
  "model \<Rightarrow> template \<Rightarrow> prompt_table \<Rightarrow> string option \<Rightarrow> string list \<Rightarrow> string \<Rightarrow> int \<Rightarrow> int
     \<Rightarrow> int \<Rightarrow> run_state \<Rightarrow> (exn + string) \<times> run_state" where
  "service_create_unified_analysis m template system_prompts case_type all_content section
     batch_size base_retry_delay max_retries st =
     (case process_documents_in_batches all_content batch_size of
        Inl e \<Rightarrow> (Inl e, st)
      | Inr batches \<Rightarrow>
          if batches = [] then
            (Inr ''Error: No documents found or processed successfully for this case.'', st)
          else
            (case service_run_batches m system_prompts case_type section base_retry_delay
                    max_retries 0 batches ([], False) st of
               ((batch_results, processing_failed), st1) \<Rightarrow>
                 if length batch_results = 1 \<and> \<not> processing_failed then (Inr (hd batch_results), st1)
                 else
                   (case predict m
                           [template (failure_warning processing_failed) section
                              (combined_text 0 batch_results)]
                           max_retries base_retry_delay st1 of
                      (Inr unified_response, st2) \<Rightarrow> (Inr unified_response, st2)
                    | (Inl (APIRateLimitError msg), st2) \<Rightarrow>
                        (Inr ''Error: Could not create unified analysis due to persistent API rate limits.'', st2)
                    | (Inl (APIError msg), st2) \<Rightarrow> (Inr (''Error: '' @ msg), st2)
                    | (Inl e, st2) \<Rightarrow>
                        (Inr (''Error: An unexpected error occurred during analysis: '' @ exn_str e), st2))))"

subsection \<open>\<open>GeminiHandler.create_unified_analysis\<close>\<close>

text \<open>An exception of a batch query ends the loop and the whole analysis.\<close>

fun handler_run_batches ::
  "model \<Rightarrow> prompt_table \<Rightarrow> string option \<Rightarrow> string \<Rightarrow> int \<Rightarrow> int \<Rightarrow> nat \<Rightarrow> string list list
     \<Rightarrow> string list \<times> bool \<Rightarrow> run_state \<Rightarrow> (exn + string list \<times> bool) \<times> run_state" where
  "handler_run_batches m system_prompts case_type section base_retry_delay max_retries i []
     acc st = (Inr acc, st)"
| "handler_run_batches m system_prompts case_type section base_retry_delay max_retries i (batch # batches)
     (batch_results, processing_failed) st =
     (case handler_query_with_batch m system_prompts case_type batch section
             base_retry_delay max_retries st of
        (Inl e, st1) \<Rightarrow> (Inl e, st1)
      | (Inr response, st1) \<Rightarrow>
          if prefix ''Error:'' response then
            handler_run_batches m system_prompts case_type section base_retry_delay max_retries
              (Suc i) batches (batch_results @ [error_marker i response], True) st1
          else
            handler_run_batches m system_prompts case_type section base_retry_delay max_retries
              (Suc i) batches (batch_results @ [response], processing_failed) st1)"

text \<open>
  The retry loop of the final synthesis: only \<open>429\<close> and \<open>rate limit\<close> are retried here,
  and any other exception is raised again as it is; so is an exception of \<open>time.sleep\<close>.
\<close>

function handler_synthesis_loop ::
  "model \<Rightarrow> string list \<Rightarrow> int \<Rightarrow> int \<Rightarrow> nat \<Rightarrow> run_state \<Rightarrow> (exn + string) \<times> run_state" where
  "handler_synthesis_loop m contents max_retries base_retry_delay retry_count st =
     (if int retry_count \<le> max_retries then
        (case m (calls st) contents of
           Returns r \<Rightarrow>
             if block_reason r \<noteq> [] then
               (Inr (''Error: Content generation blocked ('' @ block_reason r @ '')''),
                st\<lparr>calls := Suc (calls st)\<rparr>)
             else if resp_text r = [] then
               (Inr (''Error: No text returned from final synthesis (Reason: '' @ finish_reason r @ '').''),
                st\<lparr>calls := Suc (calls st)\<rparr>)
             else (Inr (resp_text r), st\<lparr>calls := Suc (calls st)\<rparr>)
         | Raises error_str \<Rightarrow>
             if sublist ''429'' error_str \<or> sublist ''rate limit'' (py_lower error_str) then
               (case time_sleep (extract_retry_delay error_str (base_retry_delay * 2 ^ retry_count))
                       (st\<lparr>calls := Suc (calls st)\<rparr>) of
                  Inl e \<Rightarrow> (Inl e, st\<lparr>calls := Suc (calls st)\<rparr>)
                | Inr st1 \<Rightarrow>
                    handler_synthesis_loop m contents max_retries base_retry_delay (Suc retry_count) st1)
             else (Inl (ModelException error_str), st\<lparr>calls := Suc (calls st)\<rparr>))
      else (Inr ''Error: Could not create unified analysis due to repeated rate limit or other errors.'', st))"
  by pat_completeness auto
termination
  by (relation "measure (\<lambda>(m, contents, max_retries, base_retry_delay, retry_count, st).
        nat (max_retries + 1 - int retry_count))") auto

definition handler_create_unified_analysis ::
  "model \<Rightarrow> template \<Rightarrow> prompt_table \<Rightarrow> string option \<Rightarrow> string list \<Rightarrow> string \<Rightarrow> int \<Rightarrow> int
     \<Rightarrow> int \<Rightarrow> run_state \<Rightarrow> (exn + string) \<times> run_state" where
  "handler_create_unified_analysis m template system_prompts case_type all_content section
     batch_size base_retry_delay max_retries st =
     (case process_documents_in_batches all_content batch_size of
        Inl e \<Rightarrow> (Inl e, st)
      | Inr batches \<Rightarrow>
          if batches = [] then
            (Inr ''Error: No documents found or processed successfully for this case.'', st)
          else
            (case handler_run_batches m system_prompts case_type section base_retry_delay
                    max_retries 0 batches ([], False) st of
               (Inl e, st1) \<Rightarrow> (Inl e, st1)
             | (Inr (batch_results, processing_failed), st1) \<Rightarrow>
                 if length batch_results = 1 \<and> \<not> processing_failed then (Inr (hd batch_results), st1)
                 else handler_synthesis_loop m
                        [template (failure_warning processing_failed) section
                           (combined_text 0 batch_results)]
                        max_retries base_retry_delay 0 st1))"

section \<open>Section Splitter\<close>

subsection \<open>\<open>extract_findings_and_background\<close> and \<open>parse_background_response\<close> (inference/postprocessing.py)\<close>

definition canonical_findings :: string where
  "canonical_findings = ''**1.4 Findings**''"

definition findings_headers :: "string list" where
  "findings_headers =
     [''**1.4 Findings**'', ''**Findings**'', ''**1.4. Findings**'', ''**1.4 FINDINGS**'',
      ''**FINDINGS**'']"

definition background_headers :: "string list" where
  "background_headers =
     [''**2. Background Information**'', ''**2.0 Background Information**'',
      ''**Background Information**'', ''**BACKGROUND INFORMATION**'',
      ''**2. BACKGROUND INFORMATION**'', ''**2.0 BACKGROUND INFORMATION**'']"

text \<open>
  The loop that finds the earliest occurrence of any header; its state is the start
  position together with the header found (\<open>None\<close> for \<open>-1\<close> and \<open>None\<close>).
\<close>

fun earliest_header :: "string \<Rightarrow> string list \<Rightarrow> (nat \<times> string) option \<Rightarrow> (nat \<times> string) option" where
  "earliest_header response_text [] found = found"
| "earliest_header response_text (header # headers) found =
     (case py_find header response_text of
        None \<Rightarrow> earliest_header response_text headers found
      | Some pos \<Rightarrow>
          (case found of
             None \<Rightarrow> earliest_header response_text headers (Some (pos, header))
           | Some (start, h) \<Rightarrow>
               if pos < start then earliest_header response_text headers (Some (pos, header))
               else earliest_header response_text headers found))"

text \<open>
  The first block after the search (\<open>if start_findings != -1: ... elif start_background != -1: ...\<close>):
  the findings part and the background part, from the defaults \<open>""\<close> and \<open>response_text\<close>.
\<close>

definition initial_parts ::
  "string \<Rightarrow> (nat \<times> string) option \<Rightarrow> (nat \<times> string) option \<Rightarrow> string \<times> string" where
  "initial_parts response_text findings background =
     (case findings of
        Some (start_findings, found_findings_header) \<Rightarrow>
          (let (fp, bp) =
                 (case background of
                    Some (start_background, hb) \<Rightarrow>
                      (py_strip (py_slice response_text start_findings start_background),
                       py_strip (drop start_background response_text))
                  | None \<Rightarrow> (py_strip (drop start_findings response_text), []))
           in (if found_findings_header \<noteq> [] \<and> found_findings_header \<noteq> canonical_findings
               then py_replace_first fp found_findings_header canonical_findings
               else fp, bp))
      | None \<Rightarrow>
          (case background of
             Some (start_background, hb) \<Rightarrow>
               (let pre_background = py_strip (take start_background response_text)
                in (if pre_background \<noteq> []
                    then canonical_findings @ [CHR 0x0A] @ pre_background else [],
                    py_strip (drop start_background response_text)))
           | None \<Rightarrow> ([], response_text)))"

text \<open>
  The second block (\<open>if not findings_part and background_part: ...\<close>): the findings part
  after the look at the text before the background header.
\<close>

definition findings_before_background ::
  "string \<Rightarrow> (nat \<times> string) option \<Rightarrow> string \<Rightarrow> string \<Rightarrow> string" where
  "findings_before_background response_text background findings_part background_part =
     (if findings_part = [] \<and> background_part \<noteq> [] then
        (case background of
           Some (start_background, hb) \<Rightarrow>
             if sublist ''finding'' (py_lower background_part)
                \<and> py_strip (take start_background response_text) \<noteq> []
             then canonical_findings @ [CHR 0x0A] @ py_strip (take start_background response_text)
             else findings_part
         | None \<Rightarrow> findings_part)
      else findings_part)"

definition extract_findings_and_background :: "string \<Rightarrow> string \<times> string" where
  "extract_findings_and_background response_text =
     (let findings = earliest_header response_text findings_headers None;
          background = earliest_header response_text background_headers None;
          (findings_part, background_part) = initial_parts response_text findings background;
          findings_part2 =
            findings_before_background response_text background findings_part background_part;
          background_part2 =
            (if background_part = [] \<and> response_text \<noteq> [] \<and> findings_part2 = []
             then response_text else background_part)
      in (findings_part2, background_part2))"

definition background_marker :: string where
  "background_marker = ''**Background Information**''"

definition parse_background_response :: "string \<Rightarrow> string \<times> string" where
  "parse_background_response response_text =
     (case py_find background_marker response_text of
        Some background_index \<Rightarrow>
          (py_strip (take background_index response_text),
           py_strip (drop background_index response_text))
      | None \<Rightarrow> extract_findings_and_background response_text)"

subsection \<open>\<open>parse_text_to_json\<close> (utils/text_parser.py)\<close>

text \<open>
  The regular expressions of the parser, matched as \<open>re\<close> does with \<open>re.IGNORECASE\<close>: a
  literal matches whatever the case of the letters, an optional group is tried before
  its absence, the alternatives are tried from left to right. \<open>rx_match r s\<close> lists, in
  the order of the backtracking search, what is left of \<open>s\<close> after a match of \<open>r\<close> at
  its start.
\<close>

datatype rx = Lit string | Seq rx rx | Alt rx rx | Opt rx | Eps

fun rx_match :: "rx \<Rightarrow> string \<Rightarrow> string list" where
  "rx_match Eps s = [s]"
| "rx_match (Lit l) s =
     (if length l \<le> length s \<and> py_lower (take (length l) s) = py_lower l
      then [drop (length l) s] else [])"
| "rx_match (Seq a b) s = concat (map (rx_match b) (rx_match a s))"
| "rx_match (Alt a b) s = rx_match a s @ rx_match b s"
| "rx_match (Opt a) s = rx_match a s @ [s]"

text \<open>\<open>re.search\<close>: the span of the match at the least position that has one.\<close>

fun rx_search_from :: "rx \<Rightarrow> nat \<Rightarrow> string \<Rightarrow> (nat \<times> nat) option" where
  "rx_search_from r i [] =
     (case rx_match r [] of [] \<Rightarrow> None | rest # others \<Rightarrow> Some (i, i))"
| "rx_search_from r i (c # cs) =
     (case rx_match r (c # cs) of
        [] \<Rightarrow> rx_search_from r (Suc i) cs
      | rest # others \<Rightarrow> Some (i, i + (length (c # cs) - length rest)))"

definition rx_search :: "rx \<Rightarrow> string \<Rightarrow> (nat \<times> nat) option" where
  "rx_search r s = rx_search_from r 0 s"

text \<open>\<open>re.match\<close>: is there a match at the start.\<close>

definition rx_matches_start :: "rx \<Rightarrow> string \<Rightarrow> bool" where
  "rx_matches_start r s = (rx_match r s \<noteq> [])"

text \<open>\<open>re.sub(pattern, repl, s, count=1)\<close> for a pattern that matches no empty string.\<close>

definition rx_sub_first :: "rx \<Rightarrow> string \<Rightarrow> string \<Rightarrow> string" where
  "rx_sub_first r repl s =
     (case rx_search r s of None \<Rightarrow> s | Some (a, b) \<Rightarrow> take a s @ repl @ drop b s)"

text \<open>
  \<^verbatim>\<open>(?:(?:\*\*)?(?:1\.4\.?|1\.4 |)(?:FINDINGS|Findings)(?:\*\*)?)\<close> and
  \<^verbatim>\<open>(?:(?:\*\*)?(?:2\.0?\.?|2\.0 |2\. |)(?:BACKGROUND INFORMATION|Background Information)(?:\*\*)?)\<close>
\<close>

definition findings_pattern :: rx where
  "findings_pattern =
     Seq (Opt (Lit ''**''))
      (Seq (Alt (Seq (Lit ''1.4'') (Opt (Lit ''.''))) (Alt (Lit ''1.4 '') Eps))
        (Seq (Alt (Lit ''FINDINGS'') (Lit ''Findings'')) (Opt (Lit ''**''))))"

definition background_pattern :: rx where
  "background_pattern =
     Seq (Opt (Lit ''**''))
      (Seq (Alt (Seq (Lit ''2.'') (Seq (Opt (Lit ''0'')) (Opt (Lit ''.''))))
             (Alt (Lit ''2.0 '') (Alt (Lit ''2. '') Eps)))
        (Seq (Alt (Lit ''BACKGROUND INFORMATION'') (Lit ''Background Information''))
          (Opt (Lit ''**''))))"

text \<open>The slice \<open>text[:i]\<close> where \<open>i\<close> is the result of \<open>find\<close> (\<open>text[:-1]\<close> for \<open>None\<close>).\<close>

definition slice_to_find :: "string \<Rightarrow> nat option \<Rightarrow> string" where
  "slice_to_find s i = (case i of None \<Rightarrow> butlast s | Some k \<Rightarrow> take k s)"

text \<open>
  The decision on the two matches (\<open>if findings_match and background_match: ... else: ...\<close>):
  the findings section and the background section.
\<close>

definition decide_sections :: "string \<Rightarrow> string \<times> string" where
  "decide_sections txt =
     (case (rx_search findings_pattern txt, rx_search background_pattern txt) of
        (Some (findings_start, fe), Some (background_start, be)) \<Rightarrow>
          if findings_start < background_start then
            (py_strip (py_slice txt findings_start background_start),
             py_strip (drop background_start txt))
          else
            (py_strip (drop findings_start txt),
             py_strip (py_slice txt background_start findings_start))
      | (Some (findings_start, fe), None) \<Rightarrow> (py_strip (drop findings_start txt), [])
      | (None, Some (background_start, be)) \<Rightarrow>
          (if 0 < background_start \<and> py_strip (take background_start txt) \<noteq> []
           then canonical_findings @ [CHR 0x0A] @ py_strip (take background_start txt)
           else [],
           py_strip (drop background_start txt))
      | (None, None) \<Rightarrow>
          if sublist ''finding'' (py_lower txt)
          then (canonical_findings @ [CHR 0x0A] @ py_strip txt, [])
          else ([], py_strip txt))"

text \<open>The two special cases ("Special case handling for test cases").\<close>

definition special_cases :: "string \<Rightarrow> string \<Rightarrow> string" where
  "special_cases txt findings_section =
     (let findings_section1 =
            (if sublist ''This is some initial content without a header'' txt
             then canonical_findings @ [CHR 0x0A]
                    @ py_strip (slice_to_find txt (py_find ''**2. Background Information**'' txt))
             else findings_section)
      in if sublist ''The investigation found several findings related to the incident'' txt
         then canonical_findings @ [CHR 0x0A] @ py_strip txt
         else findings_section1)"

text \<open>The standardization of the two headers.\<close>

definition standardize_findings :: "string \<Rightarrow> string" where
  "standardize_findings findings_section =
     (if findings_section \<noteq> [] \<and> \<not> prefix canonical_findings findings_section then
        (let replaced = rx_sub_first findings_pattern canonical_findings findings_section
         in if \<not> prefix canonical_findings replaced
            then canonical_findings @ [CHR 0x0A] @ replaced else replaced)
      else findings_section)"

definition standardize_background :: "string \<Rightarrow> string" where
  "standardize_background background_section =
     (if background_section \<noteq> [] \<and> \<not> rx_matches_start background_pattern background_section
      then ''**Background Information**'' @ [CHR 0x0A] @ background_section
      else background_section)"

text \<open>The pair \<open>(response_of_findings, response)\<close> of the dictionary returned.\<close>

definition parse_text_to_json :: "string \<Rightarrow> string \<times> string" where
  "parse_text_to_json txt =
     (if txt = [] \<or> py_strip txt = [] then ([], [])
      else
       (let (findings_section, background_section) = decide_sections txt
        in (standardize_findings (special_cases txt findings_section),
            standardize_background background_section)))"

section \<open>Scripted models and inputs of the concrete runs\<close>

definition fresh :: run_state where
  "fresh = \<lparr>calls = 0, sleeps = []\<rparr>"

definition analysis_response :: response where
  "analysis_response = \<lparr>block_reason = [], resp_text = ''analysis'', finish_reason = ''STOP''\<rparr>"

text \<open>A model that answers every call with a rate-limit error.\<close>

definition always_429 :: model where
  "always_429 k contents = Raises ''429 Too Many Requests''"

text \<open>A model whose first call fails on the format of the request and whose next calls answer.\<close>

definition format_error_then_text :: model where
  "format_error_then_text k contents =
     (if k = 0 then Raises ''Unable to determine the intended type of the `dict`''
      else Returns analysis_response)"

text \<open>A model whose every call fails on the format of the request.\<close>

definition format_error_always :: model where
  "format_error_always k contents = Raises ''Unable to determine the intended type of the `dict`''"


definition findings_table :: prompt_table where
  "findings_table = [(''Findings'', ''Summarise the findings.'')]"

text \<open>A model that answers every call.\<close>

definition always_text :: model where
  "always_text k contents = Returns analysis_response"

definition slip_table :: prompt_table where
  "slip_table = [(''Findings_slip'', ''Findings of a slip and fall.''),
                 (''Findings'', ''Summarise the findings.'')]"

definition exhibits_table :: prompt_table where
  "exhibits_table = [(''Exhibits'', ''List the exhibits.'')]"

text \<open>A table whose findings key carries the number of the section.\<close>

definition numbered_table :: prompt_table where
  "numbered_table = [(''Exhibits'', ''List the exhibits.''),
                     (''1.4 Findings'', ''Summarise the findings.'')]"

text \<open>A model that fails every call with a server error.\<close>

definition always_500 :: model where
  "always_500 k contents = Raises ''500 Internal Server Error''"

text \<open>A model that refuses every request.\<close>

definition always_blocked :: model where
  "always_blocked k contents =
     Returns \<lparr>block_reason = ''SAFETY'', resp_text = [], finish_reason = ''UNKNOWN''\<rparr>"


text \<open>Models that answer the first two calls and fail every later call.\<close>

definition text_then_429 :: model where
  "text_then_429 k contents =
     (if k < 2 then Returns analysis_response else Raises ''429 Too Many Requests'')"

definition text_then_500 :: model where
  "text_then_500 k contents =
     (if k < 2 then Returns analysis_response else Raises ''500 Internal Server Error'')"

text \<open>A short template in the place of the literal synthesis prompt.\<close>

definition plain_template :: template where
  "plain_template warning s combined = warning @ s @ [CHR 0x0A] @ combined"

section \<open>Notions used in the statements\<close>

text \<open>
  The test of the fuzzy match,
  \<^verbatim>\<open>section.lower() in key.lower() or key.lower() in section.lower()\<close>.
\<close>

definition similar_key :: "string \<Rightarrow> string \<Rightarrow> bool" where
  "similar_key s key = (sublist (py_lower s) (py_lower key) \<or> sublist (py_lower key) (py_lower s))"

text \<open>\<open>s.rstrip()\<close>.\<close>

definition py_rstrip :: "string \<Rightarrow> string" where
  "py_rstrip s = rev (dropWhile py_isspace (rev s))"




section \<open>Properties of the Document Batcher\<close>

declare range_from.simps [simp del]

lemma range_from_stop [simp]: "stop \<le> i \<Longrightarrow> range_from i stop step = []"
  by (simp add: range_from.simps)

lemma range_from_step:
  "0 < step \<Longrightarrow> i < stop \<Longrightarrow> range_from i stop step = i # range_from (i + step) stop step"
  by (subst range_from.simps) simp

lemma range_from_bounds:
  "j \<in> set (range_from i stop step) \<Longrightarrow> i \<le> j \<and> j < stop"
proof (induction i stop step rule: range_from.induct)
  case (1 i stop step)
  then show ?case
    by (cases "step = 0 \<or> stop \<le> i") (auto simp: range_from.simps [of i stop step])
qed

lemma range_from_nth:
  "0 < step \<Longrightarrow> k < length (range_from i stop step) \<Longrightarrow> range_from i stop step ! k = i + k * step"
proof (induction i stop step arbitrary: k rule: range_from.induct)
  case (1 i stop step)
  show ?case
  proof (cases "stop \<le> i")
    case True
    with 1(3) show ?thesis by simp
  next
    case False
    then have unf: "range_from i stop step = i # range_from (i + step) stop step"
      using 1(2) by (simp add: range_from_step)
    show ?thesis
    proof (cases k)
      case 0
      then show ?thesis by (simp add: unf)
    next
      case (Suc k')
      with 1(3) unf have "k' < length (range_from (i + step) stop step)" by simp
      with 1(1) [of k'] False 1(2) have "range_from (i + step) stop step ! k' = i + step + k' * step"
        by simp
      with Suc show ?thesis by (simp add: unf)
    qed
  qed
qed

lemma range_from_not_last:
  assumes "0 < step" and "Suc k < length (range_from i stop step)"
  shows "range_from i stop step ! k + step < stop"
proof -
  from assms have "range_from i stop step ! Suc k \<in> set (range_from i stop step)" by simp
  then have "range_from i stop step ! Suc k < stop" using range_from_bounds by blast
  moreover have "range_from i stop step ! Suc k = i + Suc k * step"
    using assms by (rule range_from_nth)
  moreover have "range_from i stop step ! k = i + k * step"
    using assms by (simp add: range_from_nth)
  ultimately show ?thesis by simp
qed

lemma concat_batches:
  "0 < n \<Longrightarrow> concat (map (\<lambda>i. py_slice D i (i + n)) (range_from i (length D) n)) = drop i D"
proof (induction i "length D" n rule: range_from.induct)
  case (1 i step)
  show ?case
  proof (cases "length D \<le> i")
    case True
    then show ?thesis by simp
  next
    case False
    have ih: "concat (map (\<lambda>i. py_slice D i (i + step)) (range_from (i + step) (length D) step)) = drop (i + step) D"
      using 1 False by simp
    have "take step (drop i D) @ drop (i + step) D = drop i D"
      by (metis add.commute append_take_drop_id drop_drop)
    with ih False 1(2) show ?thesis
      by (simp add: range_from_step py_slice_def)
  qed
qed

text \<open>
  C3: for every list \<open>D\<close> of document contents and every \<open>max_batch_size \<ge> 1\<close>, batching
  returns contiguous slices of \<open>D\<close> (the \<open>k\<close>-th batch is \<open>D[k*size : k*size + size]\<close>) whose
  concatenation is \<open>D\<close>; every batch has between 1 and \<open>max_batch_size\<close> elements, every
  batch but the last has exactly \<open>max_batch_size\<close>, and the empty list gives no batch.
\<close>

theorem batching_partitions:
  assumes "1 \<le> max_batch_size"
  shows "\<exists>batches. process_documents_in_batches D max_batch_size = Inr batches
           \<and> concat batches = D
           \<and> (\<forall>k < length batches. batches ! k = py_slice D (k * nat max_batch_size) (k * nat max_batch_size + nat max_batch_size))
           \<and> (\<forall>b \<in> set batches. 1 \<le> length b \<and> int (length b) \<le> max_batch_size)
           \<and> (\<forall>k. Suc k < length batches \<longrightarrow> int (length (batches ! k)) = max_batch_size)
           \<and> (D = [] \<longrightarrow> batches = [])"
proof (cases "D = []")
  case True
  then show ?thesis by (simp add: process_documents_in_batches_def)
next
  case False
  define n where "n = nat max_batch_size"
  have n: "0 < n" "int n = max_batch_size" using assms by (simp_all add: n_def)
  define idx where "idx = range_from 0 (length D) n"
  define batches where "batches = map (\<lambda>i. py_slice D i (i + n)) idx"
  have run: "process_documents_in_batches D max_batch_size = Inr batches"
    using False assms
    by (simp add: process_documents_in_batches_def py_range_def batches_def idx_def n_def)
  have cat: "concat batches = D"
    using concat_batches [OF n(1), of D 0] by (simp add: batches_def idx_def)
  have nth: "batches ! k = py_slice D (k * n) (k * n + n)" if "k < length batches" for k
    using that n(1) by (simp add: batches_def idx_def range_from_nth)
  have len: "1 \<le> length b \<and> length b \<le> n" if "b \<in> set batches" for b
  proof -
    from that obtain i where i: "i \<in> set idx" and b: "b = py_slice D i (i + n)"
      by (auto simp: batches_def)
    from i have "i < length D" using range_from_bounds unfolding idx_def by blast
    with b n(1) show ?thesis by (simp add: py_slice_def)
  qed
  have full: "length (batches ! k) = n" if "Suc k < length batches" for k
  proof -
    from that have k: "Suc k < length idx" by (simp add: batches_def)
    then have "idx ! k + n < length D"
      unfolding idx_def using n(1) by (simp add: range_from_not_last)
    with k show ?thesis by (simp add: batches_def py_slice_def)
  qed
  have c3: "\<forall>k < length batches. batches ! k = py_slice D (k * nat max_batch_size) (k * nat max_batch_size + nat max_batch_size)"
    using nth by (simp add: n_def)
  have c4: "\<forall>b \<in> set batches. 1 \<le> length b \<and> int (length b) \<le> max_batch_size"
    using len n(2) by fastforce
  have c5: "\<forall>k. Suc k < length batches \<longrightarrow> int (length (batches ! k)) = max_batch_size"
    using full n(2) by simp
  have c6: "D = [] \<longrightarrow> batches = []"
    using False by simp
  from run cat c3 c4 c5 c6 show ?thesis by blast
qed

theorem batching_partitions_witness:
  "(1::int) \<le> 3
   \<and> process_documents_in_batches [1, 2, 3, 4, 5, 6, 7 :: nat] 3 = Inr [[1, 2, 3], [4, 5, 6], [7]]
   \<and> concat [[1, 2, 3], [4, 5, 6], [7 :: nat]] = [1, 2, 3, 4, 5, 6, 7]
   \<and> process_documents_in_batches ([] :: nat list) 3 = Inr []"
proof -
  have h: "(1::int) \<le> 3" by simp
  have run: "process_documents_in_batches [1, 2, 3, 4, 5, 6, 7 :: nat] 3 = Inr [[1, 2, 3], [4, 5, 6], [7]]"
    by code_simp
  from batching_partitions [OF h, of "[1, 2, 3, 4, 5, 6, 7 :: nat]"] run
  have "concat [[1, 2, 3], [4, 5, 6], [7 :: nat]] = [1, 2, 3, 4, 5, 6, 7]" by simp
  moreover have "process_documents_in_batches ([] :: nat list) 3 = Inr []"
    using batching_partitions [OF h, of "[] :: nat list"] by auto
  ultimately show ?thesis using run by simp
qed

section \<open>Properties of the retry engines\<close>

declare predict_loop.simps [simp del]
declare handler_query_loop.simps [simp del]
declare handler_synthesis_loop.simps [simp del]
declare py_split.simps [simp del]
declare str_nat.simps [simp del]

lemma time_sleep_ok:
  "sleep_error d = None \<Longrightarrow> time_sleep d st = Inr (st\<lparr>sleeps := sleeps st @ [d]\<rparr>)"
  by (simp add: time_sleep_def)

lemma time_sleep_fails: "sleep_error d = Some x \<Longrightarrow> time_sleep d st = Inl x"
  by (simp add: time_sleep_def)

lemma sleep_error_None_iff: "sleep_error d = None \<longleftrightarrow> 0 \<le> d \<and> d \<le> 9223372036"
  by (auto simp: sleep_error_def)

lemma sleep_error_kinds:
  "sleep_error d = Some x \<Longrightarrow>
   x = OverflowError ''timestamp too large to convert to C _PyTime_t''
   \<or> x = ValueError ''sleep length must be non-negative''"
  by (auto simp: sleep_error_def split: if_splits)

lemma predict_loop_stop:
  "\<not> int rc \<le> mr \<Longrightarrow>
   predict_loop m inputs mr b rc st =
     (Inl (APIRateLimitError ''Rate limit exceeded after maximum retries.''), st)"
  by (subst predict_loop.simps) simp

lemma predict_loop_ok:
  "int rc \<le> mr \<Longrightarrow> predict_attempt (m (calls st) inputs) = Inr res \<Longrightarrow>
   predict_loop m inputs mr b rc st = (Inr res, st\<lparr>calls := Suc (calls st)\<rparr>)"
  by (subst predict_loop.simps) simp

lemma predict_loop_fail:
  "int rc \<le> mr \<Longrightarrow> predict_attempt (m (calls st) inputs) = Inl e \<Longrightarrow> \<not> is_rate_limit e \<Longrightarrow>
   predict_loop m inputs mr b rc st =
     (Inl (APIError (''Gemini API error: '' @ e)), st\<lparr>calls := Suc (calls st)\<rparr>)"
  by (subst predict_loop.simps) simp

lemma predict_loop_retry:
  "int rc \<le> mr \<Longrightarrow> predict_attempt (m (calls st) inputs) = Inl e \<Longrightarrow> is_rate_limit e \<Longrightarrow>
   sleep_error (extract_retry_delay e (b * 2 ^ rc)) = None \<Longrightarrow>
   predict_loop m inputs mr b rc st =
     predict_loop m inputs mr b (Suc rc)
       (st\<lparr>calls := Suc (calls st),
           sleeps := sleeps st @ [extract_retry_delay e (b * 2 ^ rc)]\<rparr>)"
  by (subst predict_loop.simps) (simp add: time_sleep_def)

lemma predict_loop_sleep_fails:
  "int rc \<le> mr \<Longrightarrow> predict_attempt (m (calls st) inputs) = Inl e \<Longrightarrow> is_rate_limit e \<Longrightarrow>
   sleep_error (extract_retry_delay e (b * 2 ^ rc)) = Some x \<Longrightarrow>
   predict_loop m inputs mr b rc st = (Inl x, st\<lparr>calls := Suc (calls st)\<rparr>)"
  by (subst predict_loop.simps) (simp add: time_sleep_def)

lemma budget_step: "int rc \<le> mr \<Longrightarrow> nat (mr + 1) - rc = Suc (nat (mr + 1) - Suc rc)"
  by arith

text \<open>The induction over the iterations of the loop of \<open>predict\<close>.\<close>

lemma predict_loop_cases_induct [consumes 0, case_names stop ok fail sleep_fails retry]:
  assumes stop: "\<And>rc st. \<not> int rc \<le> mr \<Longrightarrow> Q rc st"
    and ok: "\<And>rc st res. int rc \<le> mr \<Longrightarrow> predict_attempt (m (calls st) c) = Inr res \<Longrightarrow> Q rc st"
    and fail: "\<And>rc st e. int rc \<le> mr \<Longrightarrow> predict_attempt (m (calls st) c) = Inl e \<Longrightarrow>
                 \<not> is_rate_limit e \<Longrightarrow> Q rc st"
    and sleep_fails: "\<And>rc st e x. int rc \<le> mr \<Longrightarrow> predict_attempt (m (calls st) c) = Inl e \<Longrightarrow>
                 is_rate_limit e \<Longrightarrow> sleep_error (extract_retry_delay e (b * 2 ^ rc)) = Some x \<Longrightarrow> Q rc st"
    and retry: "\<And>rc st e. int rc \<le> mr \<Longrightarrow> predict_attempt (m (calls st) c) = Inl e \<Longrightarrow>
                 is_rate_limit e \<Longrightarrow> sleep_error (extract_retry_delay e (b * 2 ^ rc)) = None \<Longrightarrow>
                 Q (Suc rc) (st\<lparr>calls := Suc (calls st),
                                sleeps := sleeps st @ [extract_retry_delay e (b * 2 ^ rc)]\<rparr>) \<Longrightarrow>
                 Q rc st"
  shows "Q rc st"
proof (induction "nat (mr + 1 - int rc)" arbitrary: rc st rule: less_induct)
  case (less rc st)
  show ?case
  proof (cases "int rc \<le> mr")
    case False
    then show ?thesis by (rule stop)
  next
    case True
    show ?thesis
    proof (cases "predict_attempt (m (calls st) c)")
      case (Inr res)
      with True show ?thesis by (rule ok)
    next
      case (Inl e)
      show ?thesis
      proof (cases "is_rate_limit e")
        case False
        with True Inl show ?thesis by (rule fail)
      next
        case rl: True
        show ?thesis
        proof (cases "sleep_error (extract_retry_delay e (b * 2 ^ rc))")
          case (Some x)
          with True Inl rl show ?thesis by (rule sleep_fails)
        next
          case None
          from True have "nat (mr + 1 - int (Suc rc)) < nat (mr + 1 - int rc)" by simp
          then have "Q (Suc rc) (st\<lparr>calls := Suc (calls st),
                                sleeps := sleeps st @ [extract_retry_delay e (b * 2 ^ rc)]\<rparr>)"
            by (rule less)
          with True Inl rl None show ?thesis by (rule retry)
        qed
      qed
    qed
  qed
qed

lemma predict_loop_calls_le:
  "calls (snd (predict_loop m c mr b rc st)) \<le> calls st + (nat (mr + 1) - rc)"
proof (induction rc st rule: predict_loop_cases_induct [where m = m and c = c and mr = mr and b = b])
  case (stop rc st)
  then show ?case by (simp add: predict_loop_stop)
next
  case (ok rc st res)
  then show ?case by (simp add: predict_loop_ok budget_step)
next
  case (fail rc st e)
  then show ?case by (simp add: predict_loop_fail budget_step)
next
  case (sleep_fails rc st e x)
  then show ?case by (simp add: predict_loop_sleep_fails budget_step)
next
  case (retry rc st e)
  then show ?case by (simp add: predict_loop_retry budget_step)
qed

lemma predict_loop_calls_ge:
  "calls st \<le> calls (snd (predict_loop m c mr b rc st))"
proof (induction rc st rule: predict_loop_cases_induct [where m = m and c = c and mr = mr and b = b])
  case (stop rc st)
  then show ?case by (simp add: predict_loop_stop)
next
  case (ok rc st res)
  then show ?case by (simp add: predict_loop_ok)
next
  case (fail rc st e)
  then show ?case by (simp add: predict_loop_fail)
next
  case (sleep_fails rc st e x)
  then show ?case by (simp add: predict_loop_sleep_fails)
next
  case (retry rc st e)
  then show ?case by (simp add: predict_loop_retry)
qed

lemma predict_loop_exhausted_from:
  assumes "\<forall>k\<ge>calls st. \<forall>c. \<exists>e. m k c = Raises e \<and> is_rate_limit e
              \<and> (\<forall>n. int n \<le> mr \<longrightarrow> sleep_error (extract_retry_delay e (b * 2 ^ n)) = None)"
  shows "fst (predict_loop m c mr b rc st) = Inl (APIRateLimitError ''Rate limit exceeded after maximum retries.'')
         \<and> calls (snd (predict_loop m c mr b rc st)) = calls st + (nat (mr + 1) - rc)"
  using assms
proof (induction rc st rule: predict_loop_cases_induct [where m = m and c = c and mr = mr and b = b])
  case (stop rc st)
  then show ?case by (simp add: predict_loop_stop)
next
  case (ok rc st res)
  from ok(3) obtain e where "m (calls st) c = Raises e" by blast
  with ok(2) show ?case by (simp add: predict_attempt_def)
next
  case (fail rc st e)
  from fail(4) obtain e' where "m (calls st) c = Raises e'" "is_rate_limit e'" by blast
  with fail(2,3) show ?case by (simp add: predict_attempt_def)
next
  case (sleep_fails rc st e x)
  from sleep_fails(5) obtain e' where "m (calls st) c = Raises e'"
    "\<forall>n. int n \<le> mr \<longrightarrow> sleep_error (extract_retry_delay e' (b * 2 ^ n)) = None" by blast
  with sleep_fails(1,2,4) show ?case by (simp add: predict_attempt_def)
next
  case (retry rc st e)
  from retry(6) have "\<forall>k\<ge>Suc (calls st). \<forall>c. \<exists>e. m k c = Raises e \<and> is_rate_limit e
              \<and> (\<forall>n. int n \<le> mr \<longrightarrow> sleep_error (extract_retry_delay e (b * 2 ^ n)) = None)"
    by simp
  with retry(5) retry(1-4) show ?case by (simp add: predict_loop_retry budget_step)
qed

lemma predict_loop_exhausted:
  assumes "\<forall>k c. \<exists>e. m k c = Raises e \<and> is_rate_limit e
              \<and> (\<forall>n. int n \<le> mr \<longrightarrow> sleep_error (extract_retry_delay e (b * 2 ^ n)) = None)"
  shows "fst (predict_loop m c mr b rc st) = Inl (APIRateLimitError ''Rate limit exceeded after maximum retries.'')
         \<and> calls (snd (predict_loop m c mr b rc st)) = calls st + (nat (mr + 1) - rc)"
  using assms by (intro predict_loop_exhausted_from) simp

lemma handler_query_loop_stop:
  "\<not> int rc \<le> mr \<Longrightarrow>
   handler_query_loop m contents mr b rc st =
     (Inr ''Error: Rate limit exceeded after maximum retries.'', st)"
  by (subst handler_query_loop.simps) simp

lemma handler_query_loop_returns:
  "int rc \<le> mr \<Longrightarrow> m (calls st) contents = Returns r \<Longrightarrow>
   handler_query_loop m contents mr b rc st =
     (if block_reason r \<noteq> [] then
        (Inr (''Error: Content generation blocked ('' @ block_reason r @ '')''),
         st\<lparr>calls := Suc (calls st)\<rparr>)
      else if resp_text r = [] then
        (Inr (''Error: No text returned (Reason: '' @ finish_reason r @ '').''),
         st\<lparr>calls := Suc (calls st)\<rparr>)
      else (Inr (resp_text r), st\<lparr>calls := Suc (calls st)\<rparr>))"
  by (subst handler_query_loop.simps) simp

lemma handler_query_loop_rate_limit:
  "int rc \<le> mr \<Longrightarrow> m (calls st) contents = Raises e \<Longrightarrow> is_rate_limit e \<Longrightarrow>
   sleep_error (extract_retry_delay e (b * 2 ^ rc)) = None \<Longrightarrow>
   handler_query_loop m contents mr b rc st =
     handler_query_loop m contents mr b (Suc rc)
       (st\<lparr>calls := Suc (calls st),
           sleeps := sleeps st @ [extract_retry_delay e (b * 2 ^ rc)]\<rparr>)"
  by (subst handler_query_loop.simps) (simp add: time_sleep_def)

lemma handler_query_loop_sleep_fails:
  "int rc \<le> mr \<Longrightarrow> m (calls st) contents = Raises e \<Longrightarrow> is_rate_limit e \<Longrightarrow>
   sleep_error (extract_retry_delay e (b * 2 ^ rc)) = Some x \<Longrightarrow>
   handler_query_loop m contents mr b rc st = (Inl x, st\<lparr>calls := Suc (calls st)\<rparr>)"
  by (subst handler_query_loop.simps) (simp add: time_sleep_def)

lemma handler_query_loop_format:
  "int rc \<le> mr \<Longrightarrow> m (calls st) contents = Raises e \<Longrightarrow> \<not> is_rate_limit e \<Longrightarrow>
   sublist format_error_marker e \<Longrightarrow>
   handler_query_loop m contents mr b rc st =
     handler_query_loop m contents mr b (Suc rc) (st\<lparr>calls := Suc (calls st)\<rparr>)"
  by (subst handler_query_loop.simps) simp

lemma handler_query_loop_fail:
  "int rc \<le> mr \<Longrightarrow> m (calls st) contents = Raises e \<Longrightarrow> \<not> is_rate_limit e \<Longrightarrow>
   \<not> sublist format_error_marker e \<Longrightarrow>
   handler_query_loop m contents mr b rc st =
     (Inl (RuntimeError (''Gemini query failed: '' @ e)), st\<lparr>calls := Suc (calls st)\<rparr>)"
  by (subst handler_query_loop.simps) simp

text \<open>The induction over the iterations of the loop of the handler's query.\<close>

lemma handler_query_loop_cases_induct
  [consumes 0, case_names stop returns fail sleep_fails rate_limit format_error]:
  assumes stop: "\<And>rc st. \<not> int rc \<le> mr \<Longrightarrow> Q rc st"
    and returns: "\<And>rc st r. int rc \<le> mr \<Longrightarrow> m (calls st) c = Returns r \<Longrightarrow> Q rc st"
    and fail: "\<And>rc st e. int rc \<le> mr \<Longrightarrow> m (calls st) c = Raises e \<Longrightarrow>
                 \<not> is_rate_limit e \<Longrightarrow> \<not> sublist format_error_marker e \<Longrightarrow> Q rc st"
    and sleep_fails: "\<And>rc st e x. int rc \<le> mr \<Longrightarrow> m (calls st) c = Raises e \<Longrightarrow>
                 is_rate_limit e \<Longrightarrow> sleep_error (extract_retry_delay e (b * 2 ^ rc)) = Some x \<Longrightarrow> Q rc st"
    and rate_limit: "\<And>rc st e. int rc \<le> mr \<Longrightarrow> m (calls st) c = Raises e \<Longrightarrow>
                 is_rate_limit e \<Longrightarrow> sleep_error (extract_retry_delay e (b * 2 ^ rc)) = None \<Longrightarrow>
                 Q (Suc rc) (st\<lparr>calls := Suc (calls st),
                                sleeps := sleeps st @ [extract_retry_delay e (b * 2 ^ rc)]\<rparr>) \<Longrightarrow>
                 Q rc st"
    and format_error: "\<And>rc st e. int rc \<le> mr \<Longrightarrow> m (calls st) c = Raises e \<Longrightarrow>
                 \<not> is_rate_limit e \<Longrightarrow> sublist format_error_marker e \<Longrightarrow>
                 Q (Suc rc) (st\<lparr>calls := Suc (calls st)\<rparr>) \<Longrightarrow> Q rc st"
  shows "Q rc st"
proof (induction "nat (mr + 1 - int rc)" arbitrary: rc st rule: less_induct)
  case (less rc st)
  show ?case
  proof (cases "int rc \<le> mr")
    case False
    then show ?thesis by (rule stop)
  next
    case True
    then have dec: "nat (mr + 1 - int (Suc rc)) < nat (mr + 1 - int rc)" by simp
    show ?thesis
    proof (cases "m (calls st) c")
      case (Returns r)
      with True show ?thesis by (rule returns)
    next
      case (Raises e)
      show ?thesis
      proof (cases "is_rate_limit e")
        case rl: True
        show ?thesis
        proof (cases "sleep_error (extract_retry_delay e (b * 2 ^ rc))")
          case (Some x)
          with True Raises rl show ?thesis by (rule sleep_fails)
        next
          case None
          from dec have "Q (Suc rc) (st\<lparr>calls := Suc (calls st),
                                sleeps := sleeps st @ [extract_retry_delay e (b * 2 ^ rc)]\<rparr>)"
            by (rule less)
          with True Raises rl None show ?thesis by (rule rate_limit)
        qed
      next
        case nrl: False
        show ?thesis
        proof (cases "sublist format_error_marker e")
          case False
          with True Raises nrl show ?thesis by (rule fail)
        next
          case fe: True
          from dec have "Q (Suc rc) (st\<lparr>calls := Suc (calls st)\<rparr>)" by (rule less)
          with True Raises nrl fe show ?thesis by (rule format_error)
        qed
      qed
    qed
  qed
qed

lemma handler_query_loop_calls_le:
  "calls (snd (handler_query_loop m c mr b rc st)) \<le> calls st + (nat (mr + 1) - rc)"
proof (induction rc st rule: handler_query_loop_cases_induct [where m = m and c = c and mr = mr and b = b])
  case (stop rc st)
  then show ?case by (simp add: handler_query_loop_stop)
next
  case (returns rc st r)
  from returns(1) have "Suc (calls st) \<le> calls st + (nat (mr + 1) - rc)" by arith
  with returns show ?case by (simp add: handler_query_loop_returns)
next
  case (fail rc st e)
  then show ?case by (simp add: handler_query_loop_fail budget_step)
next
  case (sleep_fails rc st e x)
  then show ?case by (simp add: handler_query_loop_sleep_fails budget_step)
next
  case (rate_limit rc st e)
  then show ?case by (simp add: handler_query_loop_rate_limit budget_step)
next
  case (format_error rc st e)
  then show ?case by (simp add: handler_query_loop_format budget_step)
qed

lemma handler_query_loop_calls_ge:
  "calls st \<le> calls (snd (handler_query_loop m c mr b rc st))"
proof (induction rc st rule: handler_query_loop_cases_induct [where m = m and c = c and mr = mr and b = b])
  case (stop rc st)
  then show ?case by (simp add: handler_query_loop_stop)
next
  case (returns rc st r)
  then show ?case by (simp add: handler_query_loop_returns)
next
  case (fail rc st e)
  then show ?case by (simp add: handler_query_loop_fail)
next
  case (sleep_fails rc st e x)
  then show ?case by (simp add: handler_query_loop_sleep_fails)
next
  case (rate_limit rc st e)
  then show ?case by (simp add: handler_query_loop_rate_limit)
next
  case (format_error rc st e)
  then show ?case by (simp add: handler_query_loop_format)
qed

lemma handler_query_loop_exhausted:
  assumes "\<forall>k c. \<exists>e. m k c = Raises e \<and> is_rate_limit e
              \<and> (\<forall>n. int n \<le> mr \<longrightarrow> sleep_error (extract_retry_delay e (b * 2 ^ n)) = None)"
  shows "fst (handler_query_loop m c mr b rc st) = Inr ''Error: Rate limit exceeded after maximum retries.''
         \<and> calls (snd (handler_query_loop m c mr b rc st)) = calls st + (nat (mr + 1) - rc)"
proof (induction rc st rule: handler_query_loop_cases_induct [where m = m and c = c and mr = mr and b = b])
  case (stop rc st)
  then show ?case by (simp add: handler_query_loop_stop)
next
  case (returns rc st r)
  with assms show ?case by (metis outcome.distinct(1))
next
  case (fail rc st e)
  with assms show ?case by (metis outcome.inject(1))
next
  case (sleep_fails rc st e x)
  with assms show ?case by (metis outcome.inject(1) option.distinct(1))
next
  case (rate_limit rc st e)
  then show ?case by (simp add: handler_query_loop_rate_limit budget_step)
next
  case (format_error rc st e)
  with assms show ?case by (metis outcome.inject(1))
qed

lemma predict_calls_le:
  "calls (snd (predict m inputs mr b st)) \<le> calls st + nat (mr + 1)"
  using predict_loop_calls_le [of m inputs mr b 0 st] by (simp add: predict_def)

lemma predict_calls_ge: "calls st \<le> calls (snd (predict m c mr b st))"
  using predict_loop_calls_ge [of st m c mr b 0] by (simp add: predict_def)

lemma service_query_calls_le:
  "calls (snd (service_query_with_batch m P ct batch section b mr st)) \<le> calls st + 2 * nat (mr + 1)"
proof (cases "batch = []")
  case True
  then show ?thesis by (simp add: service_query_with_batch_def)
next
  case ne: False
  show ?thesis
  proof (cases "service_resolve_prompt P ct section")
    case (Inl err)
    with ne show ?thesis by (simp add: service_query_with_batch_def)
  next
    case (Inr p)
    obtain r1 st1 where p1: "predict m (batch @ [p]) mr b st = (r1, st1)" by (cases "predict m (batch @ [p]) mr b st")
    obtain r2 st2 where p2: "predict m (batch @ [p]) mr b st1 = (r2, st2)" by (cases "predict m (batch @ [p]) mr b st1")
    have b1: "calls st1 \<le> calls st + nat (mr + 1)"
      using predict_calls_le [of m "batch @ [p]" mr b st] p1 by simp
    have b2: "calls st2 \<le> calls st1 + nat (mr + 1)"
      using predict_calls_le [of m "batch @ [p]" mr b st1] p2 by simp
    from ne Inr p1 p2 b1 b2 show ?thesis
      by (auto simp: service_query_with_batch_def split: sum.splits exn.splits)
  qed
qed

lemma predict_loop_error_form:
  "fst (predict_loop m c mr b rc st) = Inl (APIError msg) \<Longrightarrow>
   \<exists>k e. predict_attempt (m k c) = Inl e \<and> msg = ''Gemini API error: '' @ e"
proof (induction rc st rule: predict_loop_cases_induct [where m = m and c = c and mr = mr and b = b])
  case (stop rc st)
  then show ?case by (simp add: predict_loop_stop)
next
  case (ok rc st res)
  then show ?case by (simp add: predict_loop_ok)
next
  case (fail rc st e)
  then have "msg = ''Gemini API error: '' @ e" by (simp add: predict_loop_fail)
  with fail(2) show ?case by blast
next
  case (sleep_fails rc st e x)
  then have "x = APIError msg" by (simp add: predict_loop_sleep_fails)
  with sleep_fails(4) show ?case by (auto simp: sleep_error_def split: if_splits)
next
  case (retry rc st e)
  then show ?case by (simp add: predict_loop_retry)
qed

lemma service_query_calls_le_no_format:
  assumes "\<forall>k c e. predict_attempt (m k c) = Inl e \<longrightarrow> \<not> sublist format_error_marker (''Gemini API error: '' @ e)"
  shows "calls (snd (service_query_with_batch m P ct batch section b mr st)) \<le> calls st + nat (mr + 1)"
proof (cases "batch = []")
  case True
  then show ?thesis by (simp add: service_query_with_batch_def)
next
  case ne: False
  show ?thesis
  proof (cases "service_resolve_prompt P ct section")
    case (Inl err)
    with ne show ?thesis by (simp add: service_query_with_batch_def)
  next
    case (Inr p)
    obtain r1 st1 where p1: "predict m (batch @ [p]) mr b st = (r1, st1)" by (cases "predict m (batch @ [p]) mr b st")
    have b1: "calls st1 \<le> calls st + nat (mr + 1)"
      using predict_calls_le [of m "batch @ [p]" mr b st] p1 by simp
    have nf: "\<not> sublist format_error_marker msg" if "r1 = Inl (APIError msg)" for msg
    proof -
      from that p1 have "fst (predict_loop m (batch @ [p]) mr b 0 st) = Inl (APIError msg)"
        by (simp add: predict_def)
      then obtain k e where "predict_attempt (m k (batch @ [p])) = Inl e" "msg = ''Gemini API error: '' @ e"
        using predict_loop_error_form by blast
      with assms show ?thesis by blast
    qed
    from ne Inr p1 b1 nf show ?thesis
      by (auto simp: service_query_with_batch_def split: sum.splits exn.splits)
  qed
qed

lemma service_query_exhausted:
  assumes "\<forall>k c. \<exists>e. m k c = Raises e \<and> is_rate_limit e
              \<and> (\<forall>n. int n \<le> mr \<longrightarrow> sleep_error (extract_retry_delay e (b * 2 ^ n)) = None)"
    and "batch \<noteq> []" and "service_resolve_prompt P ct section = Inr p"
  shows "fst (service_query_with_batch m P ct batch section b mr st) = ''Error: Rate limit exceeded after maximum retries.''
       \<and> calls (snd (service_query_with_batch m P ct batch section b mr st)) = calls st + nat (mr + 1)"
proof -
  obtain r1 st1 where p1: "predict m (batch @ [p]) mr b st = (r1, st1)" by (cases "predict m (batch @ [p]) mr b st")
  from predict_loop_exhausted [OF assms(1), of "batch @ [p]" 0 st] p1
  have "r1 = Inl (APIRateLimitError ''Rate limit exceeded after maximum retries.'')"
    and "calls st1 = calls st + nat (mr + 1)"
    by (simp_all add: predict_def)
  with assms(2,3) p1 show ?thesis
    by (simp add: service_query_with_batch_def)
qed

lemma handler_query_exhausted:
  assumes "\<forall>k c. \<exists>e. m k c = Raises e \<and> is_rate_limit e
              \<and> (\<forall>n. int n \<le> mr \<longrightarrow> sleep_error (extract_retry_delay e (b * 2 ^ n)) = None)"
    and "batch \<noteq> []"
  shows "fst (handler_query_with_batch m P ct batch section b mr st) = Inr ''Error: Rate limit exceeded after maximum retries.''
       \<and> calls (snd (handler_query_with_batch m P ct batch section b mr st)) = calls st + nat (mr + 1)"
  using handler_query_loop_exhausted [OF assms(1), of "batch @ [handler_resolve_prompt P ct section]" 0 st] assms(2)
  by (simp add: handler_query_with_batch_def)

lemma handler_query_calls_le:
  "calls (snd (handler_query_with_batch m P ct batch section b mr st)) \<le> calls st + nat (mr + 1)"
  using handler_query_loop_calls_le [of m "batch @ [handler_resolve_prompt P ct section]" mr b 0 st]
  by (simp add: handler_query_with_batch_def)

section \<open>Properties of the Prompt Resolver\<close>

lemma truthy_str_of: "truthy v \<Longrightarrow> str_of v \<noteq> []"
  by (auto simp: truthy_def str_of_def split: option.splits)

lemma default_prompt_nonempty: "default_prompt s \<noteq> []"
  by (simp add: default_prompt_def)

lemma handler_resolve_prompt_nonempty: "handler_resolve_prompt P ct s \<noteq> []"
  by (simp add: handler_resolve_prompt_def Let_def truthy_str_of default_prompt_nonempty)

lemma service_resolve_prompt_nonempty:
  "service_resolve_prompt P ct s = Inr p \<Longrightarrow> p \<noteq> []"
  by (auto simp: service_resolve_prompt_def Let_def truthy_str_of split: if_splits)

lemma handler_similar_key_miss:
  "\<forall>key \<in> set keys. \<not> similar_key s key \<Longrightarrow> handler_similar_key P s keys cur = cur"
  by (induction keys arbitrary: cur) (auto simp: similar_key_def)

lemma map_of_miss: "k \<notin> set (map fst P) \<Longrightarrow> map_of P k = None"
  by (simp add: map_of_eq_None_iff)

lemma handler_all_miss:
  assumes "\<forall>key \<in> set (map fst P). \<not> similar_key s key"
    and "py_replace_char s CHR '' '' CHR ''_'' \<notin> set (map fst P)"
    and "py_replace_char s CHR ''_'' CHR '' '' \<notin> set (map fst P)"
  shows "handler_resolve_prompt P ct s = default_prompt s"
proof -
  have "similar_key s s" by (simp add: similar_key_def)
  with assms(1) have "s \<notin> set (map fst P)" by blast
  then have g: "map_of P s = None" by (rule map_of_miss)
  have "similar_key s (s @ ''_'' @ str_of ct)" by (simp add: similar_key_def py_lower_def)
  with assms(1) have "s @ ''_'' @ str_of ct \<notin> set (map fst P)" by blast
  then have c: "map_of P (s @ ''_'' @ str_of ct) = None" by (rule map_of_miss)
  have f: "handler_similar_key P s (map fst P) None = None"
    using assms(1) by (rule handler_similar_key_miss)
  show ?thesis
    using g c f assms(2,3)
    by (simp add: handler_resolve_prompt_def Let_def truthy_def)
qed

lemma handler_case_specific_hit:
  "c \<noteq> [] \<Longrightarrow> map_of P (s @ ''_'' @ c) = Some p \<Longrightarrow> p \<noteq> [] \<Longrightarrow>
   handler_resolve_prompt P (Some c) s = p"
  by (simp add: handler_resolve_prompt_def Let_def truthy_def str_of_def)

lemma handler_generic_hit:
  "\<not> truthy ct \<or> \<not> truthy (map_of P (s @ ''_'' @ str_of ct)) \<Longrightarrow> map_of P s = Some p \<Longrightarrow> p \<noteq> [] \<Longrightarrow>
   handler_resolve_prompt P ct s = p"
  by (auto simp: handler_resolve_prompt_def Let_def truthy_def str_of_def)

lemma service_flexible_key_miss:
  "\<forall>key \<in> set keys. \<not> similar_key s key \<and> \<not> similar_key sn key \<Longrightarrow> service_flexible_key P s sn keys cur = cur"
  by (induction keys arbitrary: cur) (auto simp: similar_key_def)


lemma service_flexible_key_from_table:
  "service_flexible_key P s sn keys cur = Some q \<Longrightarrow> cur = Some q \<or> (\<exists>k. map_of P k = Some q)"
  by (induction keys arbitrary: cur) (auto split: if_splits)

lemma truthy_SomeD: "truthy v \<Longrightarrow> \<exists>q. v = Some q \<and> q \<noteq> [] \<and> str_of v = q"
  by (auto simp: truthy_def str_of_def split: option.splits)

lemma service_resolve_prompt_from_table:
  assumes "service_resolve_prompt P ct s = Inr q"
  shows "\<exists>k. map_of P k = Some q"
proof -
  define sn where "sn = py_replace_char s CHR '' '' CHR ''_''"
  define sw where "sw = py_replace_char sn CHR ''_'' CHR '' ''"
  define t1 where "t1 = (if truthy ct then
                  (if truthy (map_of P (sn @ ''_'' @ str_of ct))
                   then map_of P (sn @ ''_'' @ str_of ct)
                   else map_of P (sw @ ''_'' @ str_of ct))
                else None)"
  define t2 where "t2 = (if \<not> truthy t1 then
                  (if truthy (map_of P sn) then map_of P sn else map_of P sw)
                else t1)"
  define t3 where "t3 = service_flexible_key P s sn (map fst P) t2"
  have unf: "service_resolve_prompt P ct s =
      (if truthy t2 then Inr (str_of t2)
       else if P = [] then Inl ''Error: Not enough information is provided. No system prompts found in MongoDB.''
       else if \<not> truthy t3 then
                Inl (''Error: Not enough information is provided. No system prompt found for section ''
                      @ [CHR 0x27] @ s @ [CHR 0x27] @ ''.'')
            else Inr (str_of t3))"
    unfolding t3_def t2_def t1_def sw_def sn_def service_resolve_prompt_def Let_def by (rule refl)
  have t1: "\<exists>k. map_of P k = Some x" if "t1 = Some x" for x
    using that by (auto simp: t1_def split: if_splits)
  have t2: "\<exists>k. map_of P k = Some x" if "t2 = Some x" for x
    using that t1 by (auto simp: t2_def split: if_splits)
  have t3: "\<exists>k. map_of P k = Some x" if "t3 = Some x" for x
    using service_flexible_key_from_table [of P s sn "map fst P" t2 x] that t2
    by (auto simp: t3_def)
  show ?thesis
  proof (cases "truthy t2")
    case True
    then obtain x where "t2 = Some x" "str_of t2 = x" using truthy_SomeD by blast
    with assms unf True t2 show ?thesis by auto
  next
    case False
    with assms unf have tr: "truthy t3" and q: "q = str_of t3" by (auto split: if_splits)
    then obtain x where "t3 = Some x" "str_of t3 = x" using truthy_SomeD by blast
    with q t3 show ?thesis by auto
  qed
qed

lemma service_all_miss:
  assumes "\<forall>key \<in> set (map fst P). \<not> similar_key s key \<and> \<not> similar_key (py_replace_char s CHR '' '' CHR ''_'') key"
    and "py_replace_char (py_replace_char s CHR '' '' CHR ''_'') CHR ''_'' CHR '' '' \<notin> set (map fst P)"
    and "py_replace_char (py_replace_char s CHR '' '' CHR ''_'') CHR ''_'' CHR '' '' @ ''_'' @ str_of ct \<notin> set (map fst P)"
  shows "service_resolve_prompt P ct s =
           Inl (if P = [] then ''Error: Not enough information is provided. No system prompts found in MongoDB.''
                else ''Error: Not enough information is provided. No system prompt found for section ''
                      @ [CHR 0x27] @ s @ [CHR 0x27] @ ''.'')"
proof -
  define sn where "sn = py_replace_char s CHR '' '' CHR ''_''"
  define sw where "sw = py_replace_char sn CHR ''_'' CHR '' ''"
  have "similar_key sn sn" by (simp add: similar_key_def)
  with assms(1) have "sn \<notin> set (map fst P)" unfolding sn_def by blast
  then have g1: "map_of P sn = None" by (rule map_of_miss)
  have "similar_key sn (sn @ ''_'' @ str_of ct)" by (simp add: similar_key_def py_lower_def)
  with assms(1) have "sn @ ''_'' @ str_of ct \<notin> set (map fst P)" unfolding sn_def by blast
  then have c1: "map_of P (sn @ ''_'' @ str_of ct) = None" by (rule map_of_miss)
  have g2: "map_of P sw = None" using assms(2) unfolding sw_def sn_def by (rule map_of_miss)
  have c2: "map_of P (sw @ ''_'' @ str_of ct) = None" using assms(3) unfolding sw_def sn_def by (rule map_of_miss)
  have f: "service_flexible_key P s sn (map fst P) None = None"
    using assms(1) unfolding sn_def by (rule service_flexible_key_miss)
  show ?thesis
    using g1 g2 c1 c2 f
    by (simp add: service_resolve_prompt_def Let_def truthy_def flip: sn_def sw_def)
qed

text \<open>The search of a similar key in the handler: a miss, and the first truthy hit.\<close>

lemma handler_similar_key_no_hit:
  "\<forall>key \<in> set keys. similar_key s key \<longrightarrow> \<not> truthy (map_of P key) \<Longrightarrow> \<not> truthy cur \<Longrightarrow>
   \<not> truthy (handler_similar_key P s keys cur)"
  by (induction keys arbitrary: cur) (auto simp: similar_key_def)

lemma handler_similar_key_first_hit:
  "\<forall>key \<in> set ks1. similar_key s key \<longrightarrow> \<not> truthy (map_of P key) \<Longrightarrow>
   similar_key s key \<Longrightarrow> truthy (map_of P key) \<Longrightarrow>
   handler_similar_key P s (ks1 @ key # ks2) cur = map_of P key"
  by (induction ks1 arbitrary: cur) (auto simp: similar_key_def)

lemma table_lookup:
  assumes "distinct (map fst P)" and "P = P1 @ (key, v) # P2"
  shows "map_of P key = Some v" and "\<forall>kv \<in> set P1. map_of P (fst kv) = Some (snd kv)"
proof -
  from assms(2) have "(key, v) \<in> set P" by simp
  with assms(1) show "map_of P key = Some v" by (simp add: map_of_eq_Some_iff)
  show "\<forall>kv \<in> set P1. map_of P (fst kv) = Some (snd kv)"
  proof
    fix kv
    assume "kv \<in> set P1"
    with assms(2) have "(fst kv, snd kv) \<in> set P" by simp
    with assms(1) show "map_of P (fst kv) = Some (snd kv)" by (simp add: map_of_eq_Some_iff)
  qed
qed

lemma falsy_iff: "\<not> truthy v \<longleftrightarrow> v = None \<or> v = Some []"
  by (auto simp: truthy_def split: option.splits)

lemma handler_resolve_tail:
  assumes "\<not> (truthy ct \<and> truthy (map_of P (s @ ''_'' @ str_of ct)))" and "\<not> truthy (map_of P s)"
  shows "handler_resolve_prompt P ct s =
           (if truthy (handler_similar_key P s (map fst P) (map_of P s))
            then str_of (handler_similar_key P s (map fst P) (map_of P s))
            else if truthy (map_of P (py_replace_char s CHR '' '' CHR ''_''))
            then str_of (map_of P (py_replace_char s CHR '' '' CHR ''_''))
            else if truthy (map_of P (py_replace_char s CHR ''_'' CHR '' ''))
            then str_of (map_of P (py_replace_char s CHR ''_'' CHR '' ''))
            else default_prompt s)"
proof -
  define t1 where "t1 = (if truthy ct then map_of P (s @ ''_'' @ str_of ct) else None)"
  define t3 where "t3 = handler_similar_key P s (map fst P) (map_of P s)"
  define su where "su = py_replace_char s CHR '' '' CHR ''_''"
  define sp where "sp = py_replace_char s CHR ''_'' CHR '' ''"
  have f1: "\<not> truthy t1" using assms(1) by (auto simp: t1_def truthy_def)
  have absent: "map_of P k = None" if "k \<notin> fst ` set P" for k
    using that by (simp add: map_of_eq_None_iff)
  have unf: "handler_resolve_prompt P ct s =
      (let t4 = (if \<not> truthy t3 \<and> su \<in> set (map fst P) then map_of P su else t3);
           t5 = (if \<not> truthy t4 \<and> sp \<in> set (map fst P) then map_of P sp else t4)
       in if \<not> truthy t5 then default_prompt s else str_of t5)"
    using f1 assms(2)
    unfolding handler_resolve_prompt_def Let_def t1_def [symmetric] t3_def su_def sp_def
    by simp
  show ?thesis
    unfolding unf t3_def [symmetric] su_def [symmetric] sp_def [symmetric]
    using absent [of su] absent [of sp]
    by (auto simp: Let_def truthy_def)
qed

lemma handler_fuzzy_hit:
  assumes "\<not> (truthy ct \<and> truthy (map_of P (s @ ''_'' @ str_of ct)))" and "\<not> truthy (map_of P s)"
    and "distinct (map fst P)" and "P = P1 @ (key, v) # P2"
    and "similar_key s key" and "v \<noteq> []"
    and "\<forall>kv \<in> set P1. similar_key s (fst kv) \<longrightarrow> snd kv = []"
  shows "handler_resolve_prompt P ct s = v"
proof -
  note look = table_lookup [OF assms(3,4)]
  have miss: "\<forall>k \<in> set (map fst P1). similar_key s k \<longrightarrow> \<not> truthy (map_of P k)"
    using look(2) assms(7) by (auto simp: truthy_def)
  have hit: "truthy (map_of P key)" using look(1) assms(6) by (simp add: truthy_def)
  have "map fst P = map fst P1 @ key # map fst P2" using assms(4) by simp
  then have "handler_similar_key P s (map fst P) (map_of P s) = map_of P key"
    using handler_similar_key_first_hit [OF miss assms(5) hit] by simp
  with hit look(1) show ?thesis
    by (simp add: handler_resolve_tail [OF assms(1,2)] str_of_def)
qed

lemma handler_after_fuzzy:
  assumes "\<not> (truthy ct \<and> truthy (map_of P (s @ ''_'' @ str_of ct)))" and "\<not> truthy (map_of P s)"
    and "\<forall>kv \<in> set P. similar_key s (fst kv) \<longrightarrow> snd kv = []"
  shows "handler_resolve_prompt P ct s =
           (if truthy (map_of P (py_replace_char s CHR '' '' CHR ''_''))
            then str_of (map_of P (py_replace_char s CHR '' '' CHR ''_''))
            else if truthy (map_of P (py_replace_char s CHR ''_'' CHR '' ''))
            then str_of (map_of P (py_replace_char s CHR ''_'' CHR '' ''))
            else default_prompt s)"
proof -
  have "\<not> truthy (map_of P k)" if "k \<in> set (map fst P)" "similar_key s k" for k
  proof (cases "map_of P k")
    case None
    then show ?thesis by (simp add: truthy_def)
  next
    case (Some v)
    then have "(k, v) \<in> set P" by (rule map_of_SomeD)
    with assms(3) that(2) have "v = []" by auto
    with Some show ?thesis by (simp add: truthy_def)
  qed
  then have "\<not> truthy (handler_similar_key P s (map fst P) (map_of P s))"
    using assms(2) by (intro handler_similar_key_no_hit) blast+
  then show ?thesis by (simp add: handler_resolve_tail [OF assms(1,2)])
qed

text \<open>The flexible matching of the service: a miss, and the first matching key.\<close>

lemma service_flexible_key_first_hit:
  "\<forall>key \<in> set ks1. \<not> similar_key s key \<and> \<not> similar_key sn key \<Longrightarrow>
   similar_key s key \<or> similar_key sn key \<Longrightarrow>
   service_flexible_key P s sn (ks1 @ key # ks2) cur = map_of P key"
  by (induction ks1 arbitrary: cur) (auto simp: similar_key_def)

lemma service_resolve_tail:
  assumes "\<not> (truthy ct \<and> (truthy (map_of P (py_replace_char s CHR '' '' CHR ''_'' @ ''_'' @ str_of ct))
              \<or> truthy (map_of P (py_replace_char (py_replace_char s CHR '' '' CHR ''_'') CHR ''_'' CHR '' ''
                                      @ ''_'' @ str_of ct))))"
    and "\<not> truthy (map_of P (py_replace_char s CHR '' '' CHR ''_''))"
    and "\<not> truthy (map_of P (py_replace_char (py_replace_char s CHR '' '' CHR ''_'') CHR ''_'' CHR '' ''))"
  shows "service_resolve_prompt P ct s =
           (if P = [] then
              Inl ''Error: Not enough information is provided. No system prompts found in MongoDB.''
            else if truthy (service_flexible_key P s (py_replace_char s CHR '' '' CHR ''_'') (map fst P)
                              (map_of P (py_replace_char (py_replace_char s CHR '' '' CHR ''_'') CHR ''_'' CHR '' '')))
            then Inr (str_of (service_flexible_key P s (py_replace_char s CHR '' '' CHR ''_'') (map fst P)
                              (map_of P (py_replace_char (py_replace_char s CHR '' '' CHR ''_'') CHR ''_'' CHR '' ''))))
            else Inl (''Error: Not enough information is provided. No system prompt found for section ''
                      @ [CHR 0x27] @ s @ [CHR 0x27] @ ''.''))"
proof -
  define sn where "sn = py_replace_char s CHR '' '' CHR ''_''"
  define sw where "sw = py_replace_char sn CHR ''_'' CHR '' ''"
  define t1 where "t1 = (if truthy ct then
                  (if truthy (map_of P (sn @ ''_'' @ str_of ct))
                   then map_of P (sn @ ''_'' @ str_of ct)
                   else map_of P (sw @ ''_'' @ str_of ct))
                else None)"
  have f1: "\<not> truthy t1"
    using assms(1) unfolding t1_def sw_def sn_def by (auto simp: truthy_def)
  have unf: "service_resolve_prompt P ct s =
      (let t2 = (if \<not> truthy t1 then
                  (if truthy (map_of P sn) then map_of P sn else map_of P sw)
                else t1)
       in if truthy t2 then Inr (str_of t2)
       else if P = [] then Inl ''Error: Not enough information is provided. No system prompts found in MongoDB.''
       else (let t3 = service_flexible_key P s sn (map fst P) t2
             in if \<not> truthy t3 then
                Inl (''Error: Not enough information is provided. No system prompt found for section ''
                      @ [CHR 0x27] @ s @ [CHR 0x27] @ ''.'')
            else Inr (str_of t3)))"
    unfolding t1_def sw_def sn_def service_resolve_prompt_def Let_def by (rule refl)
  show ?thesis
    unfolding unf using f1 assms(2,3)
    unfolding sn_def [symmetric] sw_def [symmetric]
    by (simp add: Let_def)
qed

lemma service_flexible_hit:
  assumes "\<not> (truthy ct \<and> (truthy (map_of P (py_replace_char s CHR '' '' CHR ''_'' @ ''_'' @ str_of ct))
              \<or> truthy (map_of P (py_replace_char (py_replace_char s CHR '' '' CHR ''_'') CHR ''_'' CHR '' ''
                                      @ ''_'' @ str_of ct))))"
    and "\<not> truthy (map_of P (py_replace_char s CHR '' '' CHR ''_''))"
    and "\<not> truthy (map_of P (py_replace_char (py_replace_char s CHR '' '' CHR ''_'') CHR ''_'' CHR '' ''))"
    and "distinct (map fst P)" and "P = P1 @ (key, v) # P2"
    and "similar_key s key \<or> similar_key (py_replace_char s CHR '' '' CHR ''_'') key"
    and "\<forall>kv \<in> set P1. \<not> similar_key s (fst kv) \<and> \<not> similar_key (py_replace_char s CHR '' '' CHR ''_'') (fst kv)"
  shows "service_resolve_prompt P ct s =
           (if v \<noteq> [] then Inr v
            else Inl (''Error: Not enough information is provided. No system prompt found for section ''
                      @ [CHR 0x27] @ s @ [CHR 0x27] @ ''.''))"
proof -
  note look = table_lookup [OF assms(4,5)]
  have miss: "\<forall>k \<in> set (map fst P1). \<not> similar_key s k \<and> \<not> similar_key (py_replace_char s CHR '' '' CHR ''_'') k"
    using assms(7) by auto
  have "map fst P = map fst P1 @ key # map fst P2" using assms(5) by simp
  then have "service_flexible_key P s (py_replace_char s CHR '' '' CHR ''_'') (map fst P)
               (map_of P (py_replace_char (py_replace_char s CHR '' '' CHR ''_'') CHR ''_'' CHR '' ''))
             = Some v"
    using service_flexible_key_first_hit [OF miss assms(6)] look(1) by simp
  moreover have "P \<noteq> []" using assms(5) by simp
  ultimately show ?thesis
    by (simp add: service_resolve_tail [OF assms(1,2,3)] truthy_def str_of_def)
qed

lemma service_no_match:
  assumes "\<not> (truthy ct \<and> (truthy (map_of P (py_replace_char s CHR '' '' CHR ''_'' @ ''_'' @ str_of ct))
              \<or> truthy (map_of P (py_replace_char (py_replace_char s CHR '' '' CHR ''_'') CHR ''_'' CHR '' ''
                                      @ ''_'' @ str_of ct))))"
    and "\<not> truthy (map_of P (py_replace_char s CHR '' '' CHR ''_''))"
    and "\<not> truthy (map_of P (py_replace_char (py_replace_char s CHR '' '' CHR ''_'') CHR ''_'' CHR '' ''))"
    and "\<forall>key \<in> set (map fst P). \<not> similar_key s key \<and> \<not> similar_key (py_replace_char s CHR '' '' CHR ''_'') key"
  shows "service_resolve_prompt P ct s =
           Inl (if P = [] then ''Error: Not enough information is provided. No system prompts found in MongoDB.''
                else ''Error: Not enough information is provided. No system prompt found for section ''
                      @ [CHR 0x27] @ s @ [CHR 0x27] @ ''.'')"
proof -
  have "service_flexible_key P s (py_replace_char s CHR '' '' CHR ''_'') (map fst P)
               (map_of P (py_replace_char (py_replace_char s CHR '' '' CHR ''_'') CHR ''_'' CHR '' ''))
          = map_of P (py_replace_char (py_replace_char s CHR '' '' CHR ''_'') CHR ''_'' CHR '' '')"
    using assms(4) by (rule service_flexible_key_miss)
  with assms(3) show ?thesis
    by (simp add: service_resolve_tail [OF assms(1,2,3)])
qed

lemma service_exact_hits:
  "truthy ct \<Longrightarrow> map_of P (py_replace_char s CHR '' '' CHR ''_'' @ ''_'' @ str_of ct) = Some v \<Longrightarrow> v \<noteq> [] \<Longrightarrow>
     service_resolve_prompt P ct s = Inr v"
  "truthy ct \<Longrightarrow> \<not> truthy (map_of P (py_replace_char s CHR '' '' CHR ''_'' @ ''_'' @ str_of ct)) \<Longrightarrow>
     map_of P (py_replace_char (py_replace_char s CHR '' '' CHR ''_'') CHR ''_'' CHR '' '' @ ''_'' @ str_of ct) = Some v \<Longrightarrow>
     v \<noteq> [] \<Longrightarrow> service_resolve_prompt P ct s = Inr v"
  "\<not> (truthy ct \<and> (truthy (map_of P (py_replace_char s CHR '' '' CHR ''_'' @ ''_'' @ str_of ct))
              \<or> truthy (map_of P (py_replace_char (py_replace_char s CHR '' '' CHR ''_'') CHR ''_'' CHR '' ''
                                      @ ''_'' @ str_of ct)))) \<Longrightarrow>
     map_of P (py_replace_char s CHR '' '' CHR ''_'') = Some v \<Longrightarrow> v \<noteq> [] \<Longrightarrow>
     service_resolve_prompt P ct s = Inr v"
  "\<not> (truthy ct \<and> (truthy (map_of P (py_replace_char s CHR '' '' CHR ''_'' @ ''_'' @ str_of ct))
              \<or> truthy (map_of P (py_replace_char (py_replace_char s CHR '' '' CHR ''_'') CHR ''_'' CHR '' ''
                                      @ ''_'' @ str_of ct)))) \<Longrightarrow>
     \<not> truthy (map_of P (py_replace_char s CHR '' '' CHR ''_'')) \<Longrightarrow>
     map_of P (py_replace_char (py_replace_char s CHR '' '' CHR ''_'') CHR ''_'' CHR '' '') = Some v \<Longrightarrow> v \<noteq> [] \<Longrightarrow>
     service_resolve_prompt P ct s = Inr v"
  by (auto simp: service_resolve_prompt_def Let_def truthy_def str_of_def)

section \<open>The call that ends a query\<close>

lemma predict_loop_calls_gt:
  "int rc \<le> mr \<Longrightarrow> calls st < calls (snd (predict_loop m c mr b rc st))"
proof (induction rc st rule: predict_loop_cases_induct [where m = m and c = c and mr = mr and b = b])
  case (stop rc st)
  then show ?case by simp
next
  case (ok rc st res)
  then show ?case by (simp add: predict_loop_ok)
next
  case (fail rc st e)
  then show ?case by (simp add: predict_loop_fail)
next
  case (sleep_fails rc st e x)
  then show ?case by (simp add: predict_loop_sleep_fails)
next
  case (retry rc st e)
  let ?st = "st\<lparr>calls := Suc (calls st), sleeps := sleeps st @ [extract_retry_delay e (b * 2 ^ rc)]\<rparr>"
  have "calls ?st \<le> calls (snd (predict_loop m c mr b (Suc rc) ?st))"
    by (rule predict_loop_calls_ge)
  with retry(1-4) show ?case by (simp add: predict_loop_retry)
qed

lemma handler_query_loop_calls_gt:
  "int rc \<le> mr \<Longrightarrow> calls st < calls (snd (handler_query_loop m c mr b rc st))"
proof (induction rc st rule: handler_query_loop_cases_induct [where m = m and c = c and mr = mr and b = b])
  case (stop rc st)
  then show ?case by simp
next
  case (returns rc st r)
  then show ?case by (simp add: handler_query_loop_returns)
next
  case (fail rc st e)
  then show ?case by (simp add: handler_query_loop_fail)
next
  case (sleep_fails rc st e x)
  then show ?case by (simp add: handler_query_loop_sleep_fails)
next
  case (rate_limit rc st e)
  let ?st = "st\<lparr>calls := Suc (calls st), sleeps := sleeps st @ [extract_retry_delay e (b * 2 ^ rc)]\<rparr>"
  have "calls ?st \<le> calls (snd (handler_query_loop m c mr b (Suc rc) ?st))"
    by (rule handler_query_loop_calls_ge)
  with rate_limit(1-4) show ?case by (simp add: handler_query_loop_rate_limit)
next
  case (format_error rc st e)
  let ?st = "st\<lparr>calls := Suc (calls st)\<rparr>"
  have "calls ?st \<le> calls (snd (handler_query_loop m c mr b (Suc rc) ?st))"
    by (rule handler_query_loop_calls_ge)
  with format_error(1-4) show ?case by (simp add: handler_query_loop_format)
qed

lemma predict_loop_fatal_is_last:
  assumes "calls st \<le> k" and "k < calls (snd (predict_loop m c mr b rc st))"
    and att: "predict_attempt (m k c) = Inl e" and nrl: "\<not> is_rate_limit e"
  shows "calls (snd (predict_loop m c mr b rc st)) = Suc k
         \<and> fst (predict_loop m c mr b rc st) = Inl (APIError (''Gemini API error: '' @ e))"
  using assms(1,2)
proof (induction rc st rule: predict_loop_cases_induct [where m = m and c = c and mr = mr and b = b])
  case (stop rc st)
  then show ?case by (simp add: predict_loop_stop)
next
  case (ok rc st res)
  with att show ?case by (cases "k = calls st") (auto simp: predict_loop_ok)
next
  case (fail rc st e')
  with att show ?case by (cases "k = calls st") (auto simp: predict_loop_fail)
next
  case (sleep_fails rc st e' x)
  with att nrl show ?case by (cases "k = calls st") (auto simp: predict_loop_sleep_fails)
next
  case (retry rc st e')
  from retry(2,3) att nrl have "k \<noteq> calls st" by auto
  with retry show ?case by (simp add: predict_loop_retry)
qed

lemma predict_loop_sleep_failure_is_last:
  assumes "calls st \<le> k" and "k < calls (snd (predict_loop m c mr b rc st))"
    and "sleep_error (extract_retry_delay e (b * 2 ^ (rc + (k - calls st)))) = Some x"
    and att: "predict_attempt (m k c) = Inl e" and rl: "is_rate_limit e"
  shows "calls (snd (predict_loop m c mr b rc st)) = Suc k
         \<and> fst (predict_loop m c mr b rc st) = Inl x"
  using assms(1,2,3)
proof (induction rc st rule: predict_loop_cases_induct [where m = m and c = c and mr = mr and b = b])
  case (stop rc st)
  then show ?case by (simp add: predict_loop_stop)
next
  case (ok rc st res)
  with att show ?case by (cases "k = calls st") (auto simp: predict_loop_ok)
next
  case (fail rc st e')
  with att rl show ?case by (cases "k = calls st") (auto simp: predict_loop_fail)
next
  case (sleep_fails rc st e' x')
  with att show ?case by (cases "k = calls st") (auto simp: predict_loop_sleep_fails)
next
  case (retry rc st e')
  let ?st = "st\<lparr>calls := Suc (calls st), sleeps := sleeps st @ [extract_retry_delay e' (b * 2 ^ rc)]\<rparr>"
  have step: "predict_loop m c mr b rc st = predict_loop m c mr b (Suc rc) ?st"
    using retry(1-4) by (rule predict_loop_retry)
  have ne: "k \<noteq> calls st"
  proof
    assume "k = calls st"
    with retry(2,4,8) att show False by simp
  qed
  with retry(6) have eq: "Suc rc + (k - calls ?st) = rc + (k - calls st)" by simp
  from ne retry(6) have a: "calls ?st \<le> k" by simp
  from retry(7) have b: "k < calls (snd (predict_loop m c mr b (Suc rc) ?st))" by (simp only: step)
  from retry(8) have c: "sleep_error (extract_retry_delay e (b * 2 ^ (Suc rc + (k - calls ?st)))) = Some x"
    by (simp only: eq)
  from retry(5) [OF a b c] show ?case by (simp only: step)
qed

lemma handler_loop_fatal_is_last:
  assumes "calls st \<le> k" and "k < calls (snd (handler_query_loop m c mr b rc st))"
    and att: "m k c = Raises e" and nrl: "\<not> is_rate_limit e" and nfe: "\<not> sublist format_error_marker e"
  shows "calls (snd (handler_query_loop m c mr b rc st)) = Suc k
         \<and> fst (handler_query_loop m c mr b rc st) = Inl (RuntimeError (''Gemini query failed: '' @ e))"
  using assms(1,2)
proof (induction rc st rule: handler_query_loop_cases_induct [where m = m and c = c and mr = mr and b = b])
  case (stop rc st)
  then show ?case by (simp add: handler_query_loop_stop)
next
  case (returns rc st r)
  with att show ?case
    by (cases "k = calls st") (auto simp: handler_query_loop_returns split: if_splits)
next
  case (fail rc st e')
  with att show ?case by (cases "k = calls st") (auto simp: handler_query_loop_fail)
next
  case (sleep_fails rc st e' x)
  with att nrl show ?case by (cases "k = calls st") (auto simp: handler_query_loop_sleep_fails)
next
  case (rate_limit rc st e')
  from rate_limit(2,3) att nrl have "k \<noteq> calls st" by auto
  with rate_limit show ?case by (simp add: handler_query_loop_rate_limit)
next
  case (format_error rc st e')
  from format_error(2,4) att nfe have "k \<noteq> calls st" by auto
  with format_error show ?case by (simp add: handler_query_loop_format)
qed

lemma handler_loop_response_is_last:
  assumes "calls st \<le> k" and "k < calls (snd (handler_query_loop m c mr b rc st))"
    and att: "m k c = Returns r"
  shows "calls (snd (handler_query_loop m c mr b rc st)) = Suc k
         \<and> fst (handler_query_loop m c mr b rc st) =
             (if block_reason r \<noteq> [] then Inr (''Error: Content generation blocked ('' @ block_reason r @ '')'')
              else if resp_text r = [] then Inr (''Error: No text returned (Reason: '' @ finish_reason r @ '').'')
              else Inr (resp_text r))"
  using assms(1,2)
proof (induction rc st rule: handler_query_loop_cases_induct [where m = m and c = c and mr = mr and b = b])
  case (stop rc st)
  then show ?case by (simp add: handler_query_loop_stop)
next
  case (returns rc st r')
  with att show ?case
    by (cases "k = calls st") (auto simp: handler_query_loop_returns split: if_splits)
next
  case (fail rc st e')
  with att show ?case by (cases "k = calls st") (auto simp: handler_query_loop_fail)
next
  case (sleep_fails rc st e' x)
  with att show ?case by (cases "k = calls st") (auto simp: handler_query_loop_sleep_fails)
next
  case (rate_limit rc st e')
  from rate_limit(2) att have "k \<noteq> calls st" by auto
  with rate_limit show ?case by (simp add: handler_query_loop_rate_limit)
next
  case (format_error rc st e')
  from format_error(2) att have "k \<noteq> calls st" by auto
  with format_error show ?case by (simp add: handler_query_loop_format)
qed

lemma handler_loop_sleep_failure_is_last:
  assumes "calls st \<le> k" and "k < calls (snd (handler_query_loop m c mr b rc st))"
    and "sleep_error (extract_retry_delay e (b * 2 ^ (rc + (k - calls st)))) = Some x"
    and att: "m k c = Raises e" and rl: "is_rate_limit e"
  shows "calls (snd (handler_query_loop m c mr b rc st)) = Suc k
         \<and> fst (handler_query_loop m c mr b rc st) = Inl x"
  using assms(1,2,3)
proof (induction rc st rule: handler_query_loop_cases_induct [where m = m and c = c and mr = mr and b = b])
  case (stop rc st)
  then show ?case by (simp add: handler_query_loop_stop)
next
  case (returns rc st r)
  with att show ?case
    by (cases "k = calls st") (auto simp: handler_query_loop_returns split: if_splits)
next
  case (fail rc st e')
  with att rl show ?case by (cases "k = calls st") (auto simp: handler_query_loop_fail)
next
  case (sleep_fails rc st e' x')
  with att show ?case by (cases "k = calls st") (auto simp: handler_query_loop_sleep_fails)
next
  case (rate_limit rc st e')
  let ?st = "st\<lparr>calls := Suc (calls st), sleeps := sleeps st @ [extract_retry_delay e' (b * 2 ^ rc)]\<rparr>"
  have step: "handler_query_loop m c mr b rc st = handler_query_loop m c mr b (Suc rc) ?st"
    using rate_limit(1-4) by (rule handler_query_loop_rate_limit)
  have ne: "k \<noteq> calls st"
  proof
    assume "k = calls st"
    with rate_limit(2,4,8) att show False by simp
  qed
  with rate_limit(6) have eq: "Suc rc + (k - calls ?st) = rc + (k - calls st)" by simp
  from ne rate_limit(6) have a: "calls ?st \<le> k" by simp
  from rate_limit(7) have b: "k < calls (snd (handler_query_loop m c mr b (Suc rc) ?st))"
    by (simp only: step)
  from rate_limit(8) have c: "sleep_error (extract_retry_delay e (b * 2 ^ (Suc rc + (k - calls ?st)))) = Some x"
    by (simp only: eq)
  from rate_limit(5) [OF a b c] show ?case by (simp only: step)
next
  case (format_error rc st e')
  let ?st = "st\<lparr>calls := Suc (calls st)\<rparr>"
  have step: "handler_query_loop m c mr b rc st = handler_query_loop m c mr b (Suc rc) ?st"
    using format_error(1-4) by (rule handler_query_loop_format)
  from format_error(2,3) att rl have ne: "k \<noteq> calls st" by auto
  with format_error(6) have eq: "Suc rc + (k - calls ?st) = rc + (k - calls st)" by simp
  from ne format_error(6) have a: "calls ?st \<le> k" by simp
  from format_error(7) have b: "k < calls (snd (handler_query_loop m c mr b (Suc rc) ?st))"
    by (simp only: step)
  from format_error(8) have c: "sleep_error (extract_retry_delay e (b * 2 ^ (Suc rc + (k - calls ?st)))) = Some x"
    by (simp only: eq)
  from format_error(5) [OF a b c] show ?case by (simp only: step)
qed

text \<open>
  A format error of the handler's loop uses one retry: another call follows while the
  budget lasts, and the loop ends on the rate-limit string otherwise.
\<close>

lemma handler_loop_format_error_retried:
  assumes "calls st \<le> k" and "k < calls (snd (handler_query_loop m c mr b rc st))"
    and att: "m k c = Raises e" and nrl: "\<not> is_rate_limit e" and fe: "sublist format_error_marker e"
  shows "(int (rc + (k - calls st)) < mr \<longrightarrow> Suc k < calls (snd (handler_query_loop m c mr b rc st)))
         \<and> (\<not> int (rc + (k - calls st)) < mr \<longrightarrow>
              calls (snd (handler_query_loop m c mr b rc st)) = Suc k
              \<and> fst (handler_query_loop m c mr b rc st)
                  = Inr ''Error: Rate limit exceeded after maximum retries.'')"
  using assms(1,2)
proof (induction rc st rule: handler_query_loop_cases_induct [where m = m and c = c and mr = mr and b = b])
  case (stop rc st)
  then show ?case by (simp add: handler_query_loop_stop)
next
  case (returns rc st r)
  with att show ?case
    by (cases "k = calls st") (auto simp: handler_query_loop_returns split: if_splits)
next
  case (fail rc st e')
  with att fe show ?case by (cases "k = calls st") (auto simp: handler_query_loop_fail)
next
  case (sleep_fails rc st e' x)
  with att nrl show ?case by (cases "k = calls st") (auto simp: handler_query_loop_sleep_fails)
next
  case (rate_limit rc st e')
  let ?st = "st\<lparr>calls := Suc (calls st), sleeps := sleeps st @ [extract_retry_delay e' (b * 2 ^ rc)]\<rparr>"
  have step: "handler_query_loop m c mr b rc st = handler_query_loop m c mr b (Suc rc) ?st"
    using rate_limit(1-4) by (rule handler_query_loop_rate_limit)
  from rate_limit(2,3) att nrl have ne: "k \<noteq> calls st" by auto
  with rate_limit(6) have eq: "Suc rc + (k - calls ?st) = rc + (k - calls st)" by simp
  from ne rate_limit(6) have a: "calls ?st \<le> k" by simp
  from rate_limit(7) have b: "k < calls (snd (handler_query_loop m c mr b (Suc rc) ?st))"
    by (simp only: step)
  from rate_limit(5) [OF a b] show ?case by (simp only: step eq)
next
  case (format_error rc st e')
  let ?st = "st\<lparr>calls := Suc (calls st)\<rparr>"
  have step: "handler_query_loop m c mr b rc st = handler_query_loop m c mr b (Suc rc) ?st"
    using format_error(1-4) by (rule handler_query_loop_format)
  show ?case
  proof (cases "k = calls st")
    case False
    with format_error(6) have eq: "Suc rc + (k - calls ?st) = rc + (k - calls st)" by simp
    from False format_error(6) have a: "calls ?st \<le> k" by simp
    from format_error(7) have b: "k < calls (snd (handler_query_loop m c mr b (Suc rc) ?st))"
      by (simp only: step)
    from format_error(5) [OF a b] show ?thesis by (simp only: step eq)
  next
    case True
    show ?thesis
    proof (cases "int (Suc rc) \<le> mr")
      case more: True
      from handler_query_loop_calls_gt [OF more, of ?st m c b] True more show ?thesis
        by (simp add: step)
    next
      case False
      with True show ?thesis by (simp add: step handler_query_loop_stop)
    qed
  qed
qed

lemma marker_after_any_prefix:
  assumes "CHR ''U'' \<notin> set pre" and "length pre < length format_error_marker"
  shows "sublist format_error_marker (pre @ e) \<longleftrightarrow> sublist format_error_marker e"
proof
  assume "sublist format_error_marker e"
  then show "sublist format_error_marker (pre @ e)"
    by (simp add: sublist_append)
next
  assume a: "sublist format_error_marker (pre @ e)"
  have short: "\<not> sublist format_error_marker pre"
    using assms(2) sublist_length_le [of format_error_marker pre] by auto
  from a short consider "sublist format_error_marker e"
    | xs1 xs2 where "format_error_marker = xs1 @ xs2" "suffix xs1 pre" "prefix xs2 e"
    by (auto simp: sublist_append)
  then show "sublist format_error_marker e"
  proof cases
    case 1
    then show ?thesis .
  next
    case 2
    show ?thesis
    proof (cases "xs1 = []")
      case True
      with 2 show ?thesis by auto
    next
      case False
      with 2(1) have "hd xs1 = CHR ''U''"
        by (cases xs1) (auto simp: format_error_marker_def)
      with False have "CHR ''U'' \<in> set xs1" by (metis hd_in_set)
      moreover from 2(2) have "set xs1 \<subseteq> set pre" by (rule set_mono_suffix)
      ultimately show ?thesis using assms(1) by blast
    qed
  qed
qed

lemma marker_after_prefix:
  "sublist format_error_marker (''Gemini API error: '' @ e) \<longleftrightarrow> sublist format_error_marker e"
  by (rule marker_after_any_prefix) (simp_all add: format_error_marker_def)


text \<open>
  The three places of a call that fails in \<open>InferenceService.query_with_batch\<close> with an
  error that is not rate-limit-class: in the first \<open>predict\<close> without the format-error
  marker, in the first \<open>predict\<close> with it, and in the second \<open>predict\<close>.
\<close>

lemma service_error_is_last:
  assumes res: "service_resolve_prompt P ct s = Inr p"
    and k0: "calls st \<le> k"
    and k1: "k < calls (snd (service_query_with_batch m P ct batch s b mr st))"
    and att: "predict_attempt (m k (batch @ [p])) = Inl e"
    and nrl: "\<not> is_rate_limit e"
  shows "(k < calls (snd (predict m (batch @ [p]) mr b st)) \<and> \<not> sublist format_error_marker e
            \<longrightarrow> calls (snd (service_query_with_batch m P ct batch s b mr st)) = Suc k
                \<and> fst (service_query_with_batch m P ct batch s b mr st) = ''Error: Gemini API error: '' @ e)
         \<and> (k < calls (snd (predict m (batch @ [p]) mr b st)) \<and> sublist format_error_marker e
            \<longrightarrow> calls (snd (predict m (batch @ [p]) mr b st)) = Suc k
                \<and> service_query_with_batch m P ct batch s b mr st
                    = (case predict m (batch @ [p]) mr b (snd (predict m (batch @ [p]) mr b st)) of
                         (Inr response, st2) \<Rightarrow> (response, st2)
                       | (Inl retry_e, st2) \<Rightarrow>
                           (''Error: Failed to fix format and retry: '' @ exn_str retry_e, st2))
                \<and> (0 \<le> mr \<longrightarrow> Suc k < calls (snd (service_query_with_batch m P ct batch s b mr st))))
         \<and> (calls (snd (predict m (batch @ [p]) mr b st)) \<le> k
            \<longrightarrow> calls (snd (service_query_with_batch m P ct batch s b mr st)) = Suc k
                \<and> fst (service_query_with_batch m P ct batch s b mr st)
                    = ''Error: Failed to fix format and retry: Gemini API error: '' @ e)"
proof -
  have ne: "batch \<noteq> []"
    using k0 k1 by (auto simp: service_query_with_batch_def)
  obtain r1 st1 where p1: "predict m (batch @ [p]) mr b st = (r1, st1)" by (cases "predict m (batch @ [p]) mr b st")
  obtain r2 st2 where p2: "predict m (batch @ [p]) mr b st1 = (r2, st2)" by (cases "predict m (batch @ [p]) mr b st1")
  have first: "calls st1 = Suc k \<and> r1 = Inl (APIError (''Gemini API error: '' @ e))" if "k < calls st1"
  proof -
    from that p1 have "k < calls (snd (predict_loop m (batch @ [p]) mr b 0 st))" by (simp add: predict_def)
    from predict_loop_fatal_is_last [OF k0 this att nrl] p1 show ?thesis
      by (simp add: predict_def)
  qed
  have a: "calls (snd (service_query_with_batch m P ct batch s b mr st)) = Suc k
                \<and> fst (service_query_with_batch m P ct batch s b mr st) = ''Error: Gemini API error: '' @ e"
    if "k < calls st1" and nm: "\<not> sublist format_error_marker e"
  proof -
    from nm have "\<not> sublist format_error_marker (''Gemini API error: '' @ e)"
      using marker_after_prefix [of e] by blast
    with ne res p1 first [OF that(1)] show ?thesis
      by (simp add: service_query_with_batch_def)
  qed
  have b: "calls st1 = Suc k
           \<and> service_query_with_batch m P ct batch s b mr st
                    = (case predict m (batch @ [p]) mr b st1 of
                         (Inr response, st2) \<Rightarrow> (response, st2)
                       | (Inl retry_e, st2) \<Rightarrow>
                           (''Error: Failed to fix format and retry: '' @ exn_str retry_e, st2))
           \<and> (0 \<le> mr \<longrightarrow> Suc k < calls (snd (service_query_with_batch m P ct batch s b mr st)))"
    if "k < calls st1" and mk: "sublist format_error_marker e"
  proof -
    from mk have mk': "sublist format_error_marker (''Gemini API error: '' @ e)"
      using marker_after_prefix [of e] by blast
    have eq: "service_query_with_batch m P ct batch s b mr st
                    = (case predict m (batch @ [p]) mr b st1 of
                         (Inr response, st2) \<Rightarrow> (response, st2)
                       | (Inl retry_e, st2) \<Rightarrow>
                           (''Error: Failed to fix format and retry: '' @ exn_str retry_e, st2))"
      using ne res p1 first [OF that(1)] mk'
      by (simp add: service_query_with_batch_def)
    have "Suc k < calls (snd (service_query_with_batch m P ct batch s b mr st))" if "0 \<le> mr"
    proof -
      from that have "calls st1 < calls (snd (predict_loop m (batch @ [p]) mr b 0 st1))"
        by (intro predict_loop_calls_gt) simp
      with p2 have "calls st1 < calls st2" by (simp add: predict_def)
      moreover have "calls (snd (service_query_with_batch m P ct batch s b mr st)) = calls st2"
        unfolding eq p2 by (cases r2) simp_all
      ultimately show ?thesis using first [OF \<open>k < calls st1\<close>] by simp
    qed
    with eq first [OF that(1)] show ?thesis by blast
  qed
  have c: "calls (snd (service_query_with_batch m P ct batch s b mr st)) = Suc k
                \<and> fst (service_query_with_batch m P ct batch s b mr st)
                    = ''Error: Failed to fix format and retry: Gemini API error: '' @ e"
    if k1': "calls st1 \<le> k"
  proof -
    have second: "service_query_with_batch m P ct batch s b mr st =
                    (case r2 of Inr response \<Rightarrow> response
                       | Inl retry_e \<Rightarrow> ''Error: Failed to fix format and retry: '' @ exn_str retry_e, st2)"
      using ne res k1 p1 p2 that
      by (auto simp: service_query_with_batch_def split: sum.splits exn.splits if_splits)
    with k1 p2 have "k < calls (snd (predict_loop m (batch @ [p]) mr b 0 st1))"
      by (simp add: predict_def)
    from predict_loop_fatal_is_last [OF k1' this att nrl] p2
    have "calls st2 = Suc k" and "r2 = Inl (APIError (''Gemini API error: '' @ e))"
      by (simp_all add: predict_def)
    with second show ?thesis by simp
  qed
  have s1: "snd (predict m (batch @ [p]) mr b st) = st1" using p1 by simp
  show ?thesis unfolding s1 using a b c by blast
qed

section \<open>Properties of the retry delay\<close>

lemma py_find_prefix: "prefix n s \<Longrightarrow> py_find n s = Some 0"
  by (cases s) auto

lemma py_find_at_start: "py_find n (n @ s) = Some 0"
  by (rule py_find_prefix) simp










lemma py_index_0: "xs \<noteq> [] \<Longrightarrow> py_index xs 0 = Some (hd xs)"
  by (cases xs) (simp_all add: py_index_def)











lemma extract_retry_delay_no_section:
  "\<not> sublist ''retry_delay'' msg \<Longrightarrow> extract_retry_delay msg d = d"
  by (simp add: extract_retry_delay_def)

section \<open>Properties of the synthesis call\<close>

lemma handler_synthesis_loop_stop:
  "\<not> int rc \<le> mr \<Longrightarrow>
   handler_synthesis_loop m contents mr b rc st =
     (Inr ''Error: Could not create unified analysis due to repeated rate limit or other errors.'', st)"
  by (subst handler_synthesis_loop.simps) simp

lemma handler_synthesis_loop_returns:
  "int rc \<le> mr \<Longrightarrow> m (calls st) contents = Returns r \<Longrightarrow>
   handler_synthesis_loop m contents mr b rc st =
     (if block_reason r \<noteq> [] then
        (Inr (''Error: Content generation blocked ('' @ block_reason r @ '')''),
         st\<lparr>calls := Suc (calls st)\<rparr>)
      else if resp_text r = [] then
        (Inr (''Error: No text returned from final synthesis (Reason: '' @ finish_reason r @ '').''),
         st\<lparr>calls := Suc (calls st)\<rparr>)
      else (Inr (resp_text r), st\<lparr>calls := Suc (calls st)\<rparr>))"
  by (subst handler_synthesis_loop.simps) simp

lemma handler_synthesis_loop_retry:
  "int rc \<le> mr \<Longrightarrow> m (calls st) contents = Raises e \<Longrightarrow>
   sublist ''429'' e \<or> sublist ''rate limit'' (py_lower e) \<Longrightarrow>
   sleep_error (extract_retry_delay e (b * 2 ^ rc)) = None \<Longrightarrow>
   handler_synthesis_loop m contents mr b rc st =
     handler_synthesis_loop m contents mr b (Suc rc)
       (st\<lparr>calls := Suc (calls st),
           sleeps := sleeps st @ [extract_retry_delay e (b * 2 ^ rc)]\<rparr>)"
  by (subst handler_synthesis_loop.simps) (simp add: time_sleep_def)

lemma handler_synthesis_loop_sleep_fails:
  "int rc \<le> mr \<Longrightarrow> m (calls st) contents = Raises e \<Longrightarrow>
   sublist ''429'' e \<or> sublist ''rate limit'' (py_lower e) \<Longrightarrow>
   sleep_error (extract_retry_delay e (b * 2 ^ rc)) = Some x \<Longrightarrow>
   handler_synthesis_loop m contents mr b rc st = (Inl x, st\<lparr>calls := Suc (calls st)\<rparr>)"
  by (subst handler_synthesis_loop.simps) (simp add: time_sleep_def)

lemma handler_synthesis_loop_fail:
  "int rc \<le> mr \<Longrightarrow> m (calls st) contents = Raises e \<Longrightarrow>
   \<not> (sublist ''429'' e \<or> sublist ''rate limit'' (py_lower e)) \<Longrightarrow>
   handler_synthesis_loop m contents mr b rc st =
     (Inl (ModelException e), st\<lparr>calls := Suc (calls st)\<rparr>)"
  by (subst handler_synthesis_loop.simps) simp

text \<open>The induction over the iterations of the synthesis loop.\<close>

lemma handler_synthesis_loop_cases_induct
  [consumes 0, case_names stop returns fail sleep_fails retry]:
  assumes stop: "\<And>rc st. \<not> int rc \<le> mr \<Longrightarrow> Q rc st"
    and returns: "\<And>rc st r. int rc \<le> mr \<Longrightarrow> m (calls st) c = Returns r \<Longrightarrow> Q rc st"
    and fail: "\<And>rc st e. int rc \<le> mr \<Longrightarrow> m (calls st) c = Raises e \<Longrightarrow>
                 \<not> (sublist ''429'' e \<or> sublist ''rate limit'' (py_lower e)) \<Longrightarrow> Q rc st"
    and sleep_fails: "\<And>rc st e x. int rc \<le> mr \<Longrightarrow> m (calls st) c = Raises e \<Longrightarrow>
                 sublist ''429'' e \<or> sublist ''rate limit'' (py_lower e) \<Longrightarrow>
                 sleep_error (extract_retry_delay e (b * 2 ^ rc)) = Some x \<Longrightarrow> Q rc st"
    and retry: "\<And>rc st e. int rc \<le> mr \<Longrightarrow> m (calls st) c = Raises e \<Longrightarrow>
                 sublist ''429'' e \<or> sublist ''rate limit'' (py_lower e) \<Longrightarrow>
                 sleep_error (extract_retry_delay e (b * 2 ^ rc)) = None \<Longrightarrow>
                 Q (Suc rc) (st\<lparr>calls := Suc (calls st),
                                sleeps := sleeps st @ [extract_retry_delay e (b * 2 ^ rc)]\<rparr>) \<Longrightarrow>
                 Q rc st"
  shows "Q rc st"
proof (induction "nat (mr + 1 - int rc)" arbitrary: rc st rule: less_induct)
  case (less rc st)
  show ?case
  proof (cases "int rc \<le> mr")
    case False
    then show ?thesis by (rule stop)
  next
    case True
    show ?thesis
    proof (cases "m (calls st) c")
      case (Returns r)
      with True show ?thesis by (rule returns)
    next
      case (Raises e)
      show ?thesis
      proof (cases "sublist ''429'' e \<or> sublist ''rate limit'' (py_lower e)")
        case False
        with True Raises show ?thesis by (rule fail)
      next
        case rl: True
        show ?thesis
        proof (cases "sleep_error (extract_retry_delay e (b * 2 ^ rc))")
          case (Some x)
          with True Raises rl show ?thesis by (rule sleep_fails)
        next
          case None
          from True have "nat (mr + 1 - int (Suc rc)) < nat (mr + 1 - int rc)" by simp
          then have "Q (Suc rc) (st\<lparr>calls := Suc (calls st),
                                sleeps := sleeps st @ [extract_retry_delay e (b * 2 ^ rc)]\<rparr>)"
            by (rule less)
          with True Raises rl None show ?thesis by (rule retry)
        qed
      qed
    qed
  qed
qed

lemma handler_synthesis_loop_exhausted_from:
  assumes "\<forall>k\<ge>calls st. \<forall>c. \<exists>e. m k c = Raises e
              \<and> (sublist ''429'' e \<or> sublist ''rate limit'' (py_lower e))
              \<and> (\<forall>n. int n \<le> mr \<longrightarrow> sleep_error (extract_retry_delay e (b * 2 ^ n)) = None)"
  shows "fst (handler_synthesis_loop m c mr b rc st)
           = Inr ''Error: Could not create unified analysis due to repeated rate limit or other errors.''"
  using assms
proof (induction rc st rule: handler_synthesis_loop_cases_induct [where m = m and c = c and mr = mr and b = b])
  case (stop rc st)
  then show ?case by (simp add: handler_synthesis_loop_stop)
next
  case (returns rc st r)
  from returns(3) obtain e where "m (calls st) c = Raises e" by blast
  with returns(2) show ?case by simp
next
  case (fail rc st e)
  from fail(4) obtain e' where "m (calls st) c = Raises e'"
    "sublist ''429'' e' \<or> sublist ''rate limit'' (py_lower e')" by blast
  with fail(2,3) show ?case by simp
next
  case (sleep_fails rc st e x)
  from sleep_fails(5) obtain e' where "m (calls st) c = Raises e'"
    "\<forall>n. int n \<le> mr \<longrightarrow> sleep_error (extract_retry_delay e' (b * 2 ^ n)) = None" by blast
  with sleep_fails(1,2,4) show ?case by simp
next
  case (retry rc st e)
  from retry(6) have "\<forall>k\<ge>Suc (calls st). \<forall>c. \<exists>e. m k c = Raises e
              \<and> (sublist ''429'' e \<or> sublist ''rate limit'' (py_lower e))
              \<and> (\<forall>n. int n \<le> mr \<longrightarrow> sleep_error (extract_retry_delay e (b * 2 ^ n)) = None)"
    by simp
  with retry(5) retry(1-4) show ?case by (simp add: handler_synthesis_loop_retry)
qed

lemma handler_synthesis_fatal_is_last:
  assumes "calls st \<le> k" and "k < calls (snd (handler_synthesis_loop m c mr b rc st))"
    and att: "m k c = Raises e" and nrl: "\<not> (sublist ''429'' e \<or> sublist ''rate limit'' (py_lower e))"
  shows "calls (snd (handler_synthesis_loop m c mr b rc st)) = Suc k
         \<and> fst (handler_synthesis_loop m c mr b rc st) = Inl (ModelException e)"
  using assms(1,2)
proof (induction rc st rule: handler_synthesis_loop_cases_induct [where m = m and c = c and mr = mr and b = b])
  case (stop rc st)
  then show ?case by (simp add: handler_synthesis_loop_stop)
next
  case (returns rc st r)
  with att show ?case
    by (cases "k = calls st") (auto simp: handler_synthesis_loop_returns split: if_splits)
next
  case (fail rc st e')
  with att show ?case by (cases "k = calls st") (auto simp: handler_synthesis_loop_fail)
next
  case (sleep_fails rc st e' x)
  with att nrl show ?case by (cases "k = calls st") (auto simp: handler_synthesis_loop_sleep_fails)
next
  case (retry rc st e')
  from retry(2,3) att nrl have "k \<noteq> calls st" by auto
  with retry show ?case by (simp add: handler_synthesis_loop_retry)
qed

lemma handler_synthesis_sleep_failure_is_last:
  assumes "calls st \<le> k" and "k < calls (snd (handler_synthesis_loop m c mr b rc st))"
    and "sleep_error (extract_retry_delay e (b * 2 ^ (rc + (k - calls st)))) = Some x"
    and att: "m k c = Raises e" and rl: "sublist ''429'' e \<or> sublist ''rate limit'' (py_lower e)"
  shows "calls (snd (handler_synthesis_loop m c mr b rc st)) = Suc k
         \<and> fst (handler_synthesis_loop m c mr b rc st) = Inl x"
  using assms(1,2,3)
proof (induction rc st rule: handler_synthesis_loop_cases_induct [where m = m and c = c and mr = mr and b = b])
  case (stop rc st)
  then show ?case by (simp add: handler_synthesis_loop_stop)
next
  case (returns rc st r)
  with att show ?case
    by (cases "k = calls st") (auto simp: handler_synthesis_loop_returns split: if_splits)
next
  case (fail rc st e')
  with att rl show ?case by (cases "k = calls st") (auto simp: handler_synthesis_loop_fail)
next
  case (sleep_fails rc st e' x')
  with att show ?case by (cases "k = calls st") (auto simp: handler_synthesis_loop_sleep_fails)
next
  case (retry rc st e')
  let ?st = "st\<lparr>calls := Suc (calls st), sleeps := sleeps st @ [extract_retry_delay e' (b * 2 ^ rc)]\<rparr>"
  have step: "handler_synthesis_loop m c mr b rc st = handler_synthesis_loop m c mr b (Suc rc) ?st"
    using retry(1-4) by (rule handler_synthesis_loop_retry)
  have ne: "k \<noteq> calls st"
  proof
    assume "k = calls st"
    with retry(2,4,8) att show False by simp
  qed
  with retry(6) have eq: "Suc rc + (k - calls ?st) = rc + (k - calls st)" by simp
  from ne retry(6) have a: "calls ?st \<le> k" by simp
  from retry(7) have b: "k < calls (snd (handler_synthesis_loop m c mr b (Suc rc) ?st))"
    by (simp only: step)
  from retry(8) have c: "sleep_error (extract_retry_delay e (b * 2 ^ (Suc rc + (k - calls ?st)))) = Some x"
    by (simp only: eq)
  from retry(5) [OF a b c] show ?case by (simp only: step)
qed

section \<open>Properties of the Section Splitter\<close>

lemma py_find_None_iff: "py_find sub s = None \<longleftrightarrow> \<not> sublist sub s"
  by (induction s) (auto simp: sublist_Cons_right)

lemma py_find_Some_prefix: "py_find sub s = Some i \<Longrightarrow> prefix sub (drop i s)"
proof (induction s arbitrary: i)
  case Nil
  then show ?case by (simp split: if_splits)
next
  case (Cons c cs)
  then show ?case by (cases "prefix sub (c # cs)") auto
qed

lemma py_find_Some_least: "py_find sub s = Some i \<Longrightarrow> j < i \<Longrightarrow> \<not> prefix sub (drop j s)"
proof (induction s arbitrary: i j)
  case Nil
  then show ?case by (simp split: if_splits)
next
  case (Cons c cs)
  show ?case
  proof (cases "prefix sub (c # cs)")
    case True
    with Cons.prems show ?thesis by simp
  next
    case False
    with Cons.prems obtain i' where i': "py_find sub cs = Some i'" "i = Suc i'" by auto
    show ?thesis
    proof (cases j)
      case 0
      with False show ?thesis by simp
    next
      case (Suc j')
      with Cons.prems(2) i'(2) have "j' < i'" by simp
      from Cons.IH [OF i'(1) this] Suc show ?thesis by simp
    qed
  qed
qed

lemma py_find_split:
  assumes "py_find sub s = Some i"
  shows "s = take i s @ sub @ drop (i + length sub) s"
proof -
  from py_find_Some_prefix [OF assms] obtain r where r: "drop i s = sub @ r"
    by (auto simp: prefix_def)
  then have "drop (i + length sub) s = r"
    by (metis add.commute append_eq_conv_conj drop_drop)
  with r show ?thesis by (metis append_take_drop_id)
qed

lemma sublist_occurrence:
  "sublist sub t \<Longrightarrow> \<exists>j. j + length sub \<le> length t \<and> prefix sub (drop j t)"
proof -
  assume "sublist sub t"
  then obtain ps ss where "t = ps @ sub @ ss" by (auto simp: sublist_def)
  then have "length ps + length sub \<le> length t \<and> prefix sub (drop (length ps) t)" by simp
  then show ?thesis by blast
qed

lemma py_find_first_occurrence:
  assumes "py_find sub s = Some i" and ne: "sub \<noteq> []"
  shows "\<not> sublist sub (take i s @ butlast sub)"
proof
  define t where "t = take i s @ butlast sub"
  assume "sublist sub (take i s @ butlast sub)"
  then have "sublist sub t" by (simp add: t_def)
  then obtain j where j: "j + length sub \<le> length t" and p: "prefix sub (drop j t)"
    using sublist_occurrence by blast
  have i: "i + length sub \<le> length s" using assms(1) by (rule py_find_bound)
  from ne have "length (butlast sub) < length sub" by (cases sub rule: rev_cases) auto
  with j i have ji: "j < i" by (simp add: t_def)
  have "prefix t (take i s @ sub @ drop (i + length sub) s)"
    by (simp add: t_def prefixeq_butlast)
  then have "prefix t s" using py_find_split [OF assms(1)] by simp
  then obtain r where r: "s = t @ r" by (auto simp: prefix_def)
  from j have "j \<le> length t" by simp
  then have "drop j (t @ r) = drop j t @ r" by simp
  with p r have "prefix sub (drop j s)" by simp
  with py_find_Some_least [OF assms(1) ji] show False by contradiction
qed


lemma earliest_header_source:
  "earliest_header t hs acc = Some (p, h) \<Longrightarrow>
   acc = Some (p, h) \<or> (h \<in> set hs \<and> py_find h t = Some p)"
proof (induction hs arbitrary: acc)
  case Nil
  then show ?case by simp
next
  case (Cons x xs)
  show ?case
  proof (cases "py_find x t")
    case None
    with Cons.prems have "earliest_header t xs acc = Some (p, h)" by simp
    from Cons.IH [OF this] show ?thesis by auto
  next
    case (Some pos)
    show ?thesis
    proof (cases acc)
      case None
      with Some Cons.prems have "earliest_header t xs (Some (pos, x)) = Some (p, h)" by simp
      from Cons.IH [OF this] Some show ?thesis by auto
    next
      case acc: (Some a)
      obtain start h0 where a: "a = (start, h0)" by (cases a)
      show ?thesis
      proof (cases "pos < start")
        case True
        with Some acc a Cons.prems have "earliest_header t xs (Some (pos, x)) = Some (p, h)" by simp
        from Cons.IH [OF this] Some show ?thesis by auto
      next
        case False
        with Some acc a Cons.prems have "earliest_header t xs acc = Some (p, h)" by simp
        from Cons.IH [OF this] show ?thesis by auto
      qed
    qed
  qed
qed

lemma earliest_header_keeps_Some:
  "earliest_header t hs (Some a) \<noteq> None"
  by (induction hs arbitrary: a) (auto split: option.splits)

lemma earliest_header_None_iff:
  "earliest_header t hs None = None \<longleftrightarrow> (\<forall>h \<in> set hs. \<not> sublist h t)"
proof (induction hs)
  case Nil
  then show ?case by simp
next
  case (Cons x xs)
  show ?case
  proof (cases "py_find x t")
    case None
    then have "\<not> sublist x t" by (simp add: py_find_None_iff)
    with None Cons show ?thesis by simp
  next
    case (Some pos)
    then have "sublist x t" using py_find_None_iff [of x t] by simp
    with Some show ?thesis by (simp add: earliest_header_keeps_Some)
  qed
qed

lemma earliest_header_found:
  assumes "earliest_header t hs None = Some (p, h)"
  shows "h \<in> set hs \<and> py_find h t = Some p"
  using earliest_header_source [OF assms] by simp

lemma py_strip_headed:
  assumes "h \<noteq> []" and "\<not> py_isspace (hd h)" and "\<not> py_isspace (last h)"
  shows "py_strip (h @ r) = h @ py_rstrip r"
proof -
  have l: "dropWhile py_isspace (h @ r) = h @ r"
    using assms(1,2) by (cases h) auto
  have "dropWhile py_isspace (rev r @ rev h) = dropWhile py_isspace (rev r) @ rev h"
  proof (cases "\<forall>x \<in> set (rev r). py_isspace x")
    case True
    then have "dropWhile py_isspace (rev r @ rev h) = dropWhile py_isspace (rev h)"
      by (intro dropWhile_append2) auto
    also have "\<dots> = rev h"
      using assms(1,3) by (cases "rev h") (auto simp: hd_rev)
    also have "dropWhile py_isspace (rev r) = []" using True by simp
    ultimately show ?thesis by simp
  next
    case False
    then obtain x where "x \<in> set (rev r)" "\<not> py_isspace x" by blast
    then show ?thesis by (rule dropWhile_append1)
  qed
  then show ?thesis by (simp add: py_strip_def py_rstrip_def l)
qed

lemma header_shape:
  "h \<in> set findings_headers \<or> h \<in> set background_headers \<Longrightarrow>
   h \<noteq> [] \<and> \<not> py_isspace (hd h) \<and> \<not> py_isspace (last h)"
  by (auto simp: findings_headers_def background_headers_def py_isspace_def)

lemma drop_at_header:
  assumes "py_find h t = Some p"
  shows "drop p t = h @ drop (p + length h) t"
proof -
  from py_find_Some_prefix [OF assms] obtain r where r: "drop p t = h @ r"
    by (auto simp: prefix_def)
  then have "drop (p + length h) t = r"
    by (metis add.commute append_eq_conv_conj drop_drop)
  with r show ?thesis by simp
qed

lemma strip_at_header:
  assumes "h \<in> set findings_headers \<or> h \<in> set background_headers" and "py_find h t = Some p"
  shows "py_strip (drop p t) = h @ py_rstrip (drop (p + length h) t)"
proof -
  from header_shape [OF assms(1)] have "h \<noteq> []" "\<not> py_isspace (hd h)" "\<not> py_isspace (last h)"
    by simp_all
  then have "py_strip (h @ drop (p + length h) t) = h @ py_rstrip (drop (p + length h) t)"
    by (rule py_strip_headed)
  with drop_at_header [OF assms(2)] show ?thesis by simp
qed

lemma py_replace_first_at_start:
  "py_replace_first (h @ r) h new = new @ r"
  by (simp add: py_replace_first_def py_find_at_start)


lemma initial_parts_findings_only:
  assumes "hf \<in> set findings_headers" and "py_find hf t = Some sf"
  shows "initial_parts t (Some (sf, hf)) None
           = (canonical_findings @ py_rstrip (drop (sf + length hf) t), [])"
proof -
  have st: "py_strip (drop sf t) = hf @ py_rstrip (drop (sf + length hf) t)"
    using assms by (intro strip_at_header) simp_all
  show ?thesis
  proof (cases "hf = canonical_findings")
    case True
    with st show ?thesis by (simp add: initial_parts_def)
  next
    case False
    moreover from header_shape [of hf] assms(1) have "hf \<noteq> []" by simp
    ultimately show ?thesis
      by (simp add: initial_parts_def st py_replace_first_at_start)
  qed
qed

lemma initial_parts_findings_then_background:
  assumes "hf \<in> set findings_headers" and "py_find hf t = Some sf" and "sf + length hf \<le> sb"
  shows "initial_parts t (Some (sf, hf)) (Some (sb, hb))
           = (canonical_findings @ py_rstrip (py_slice t (sf + length hf) sb), py_strip (drop sb t))"
proof -
  from header_shape [of hf] assms(1) have shape: "hf \<noteq> []" "\<not> py_isspace (hd hf)" "\<not> py_isspace (last hf)"
    by simp_all
  have "py_slice t sf sb = take (sb - sf) (hf @ drop (sf + length hf) t)"
    using drop_at_header [OF assms(2)] by (simp add: py_slice_def)
  also have "\<dots> = hf @ take (sb - sf - length hf) (drop (sf + length hf) t)"
    using assms(3) by simp
  also have "take (sb - sf - length hf) (drop (sf + length hf) t) = py_slice t (sf + length hf) sb"
    by (simp add: py_slice_def)
  finally have sl: "py_slice t sf sb = hf @ py_slice t (sf + length hf) sb" .
  have st: "py_strip (py_slice t sf sb) = hf @ py_rstrip (py_slice t (sf + length hf) sb)"
    unfolding sl using shape by (rule py_strip_headed)
  show ?thesis
  proof (cases "hf = canonical_findings")
    case True
    with st show ?thesis by (simp add: initial_parts_def)
  next
    case False
    with shape(1) show ?thesis
      by (simp add: initial_parts_def st py_replace_first_at_start)
  qed
qed

lemma initial_parts_background:
  "snd (initial_parts t f (Some (sb, hb))) = py_strip (drop sb t)"
  by (cases f) (auto simp: initial_parts_def Let_def)

lemma efb_no_header:
  assumes "earliest_header t findings_headers None = None"
    and "earliest_header t background_headers None = None"
  shows "extract_findings_and_background t = ([], t)"
  using assms
  by (simp add: extract_findings_and_background_def initial_parts_def findings_before_background_def)

lemma efb_background_part:
  assumes "earliest_header t background_headers None = Some (sb, hb)"
  shows "snd (extract_findings_and_background t) = py_strip (drop sb t)
         \<and> snd (extract_findings_and_background t) \<noteq> []"
proof -
  from earliest_header_found [OF assms] have hb: "hb \<in> set background_headers" "py_find hb t = Some sb"
    by simp_all
  then have st: "py_strip (drop sb t) = hb @ py_rstrip (drop (sb + length hb) t)"
    by (intro strip_at_header) simp_all
  from hb(1) header_shape [of hb] have "hb \<noteq> []" by simp
  with st have ne: "py_strip (drop sb t) \<noteq> []" by simp
  obtain fp bp where ip: "initial_parts t (earliest_header t findings_headers None) (Some (sb, hb)) = (fp, bp)"
    by (cases "initial_parts t (earliest_header t findings_headers None) (Some (sb, hb))")
  with initial_parts_background [of t "earliest_header t findings_headers None" sb hb]
  have bp: "bp = py_strip (drop sb t)" by simp
  have "snd (extract_findings_and_background t) = bp"
    using assms ip ne bp by (simp add: extract_findings_and_background_def)
  with bp ne show ?thesis by simp
qed

lemma efb_findings_only:
  assumes "earliest_header t findings_headers None = Some (sf, hf)"
    and "earliest_header t background_headers None = None"
  shows "extract_findings_and_background t
           = (canonical_findings @ py_rstrip (drop (sf + length hf) t), [])"
proof -
  from earliest_header_found [OF assms(1)] have hf: "hf \<in> set findings_headers" "py_find hf t = Some sf"
    by simp_all
  have c: "canonical_findings \<noteq> []" by (simp add: canonical_findings_def)
  show ?thesis
    using assms c initial_parts_findings_only [OF hf]
    by (simp add: extract_findings_and_background_def findings_before_background_def)
qed

lemma efb_findings_then_background:
  assumes "earliest_header t findings_headers None = Some (sf, hf)"
    and "earliest_header t background_headers None = Some (sb, hb)"
    and "sf + length hf \<le> sb"
  shows "extract_findings_and_background t
           = (canonical_findings @ py_rstrip (py_slice t (sf + length hf) sb), py_strip (drop sb t))"
proof -
  from earliest_header_found [OF assms(1)] have hf: "hf \<in> set findings_headers" "py_find hf t = Some sf"
    by simp_all
  have c: "canonical_findings \<noteq> []" by (simp add: canonical_findings_def)
  from efb_background_part [OF assms(2)] have ne: "py_strip (drop sb t) \<noteq> []" by metis
  show ?thesis
    using assms(1,2) c ne initial_parts_findings_then_background [OF hf assms(3), of hb]
    by (simp add: extract_findings_and_background_def findings_before_background_def)
qed

lemma earliest_header_least:
  "earliest_header t hs acc = Some (p, h) \<Longrightarrow>
   (\<forall>a. acc = Some a \<longrightarrow> p \<le> fst a) \<and> (\<forall>h' \<in> set hs. \<forall>p'. py_find h' t = Some p' \<longrightarrow> p \<le> p')"
proof (induction hs arbitrary: acc)
  case Nil
  then show ?case by simp
next
  case (Cons x xs)
  show ?case
  proof (cases "py_find x t")
    case None
    with Cons.prems have "earliest_header t xs acc = Some (p, h)" by simp
    from Cons.IH [OF this] None show ?thesis by auto
  next
    case (Some pos)
    show ?thesis
    proof (cases acc)
      case None
      with Some Cons.prems have "earliest_header t xs (Some (pos, x)) = Some (p, h)" by simp
      from Cons.IH [OF this] Some None show ?thesis by auto
    next
      case acc: (Some a)
      obtain start h0 where a: "a = (start, h0)" by (cases a)
      show ?thesis
      proof (cases "pos < start")
        case True
        with Some acc a Cons.prems have "earliest_header t xs (Some (pos, x)) = Some (p, h)" by simp
        from Cons.IH [OF this] Some acc a True show ?thesis by auto
      next
        case False
        with Some acc a Cons.prems have "earliest_header t xs acc = Some (p, h)" by simp
        from Cons.IH [OF this] Some acc a False show ?thesis by auto
      qed
    qed
  qed
qed

section \<open>Properties of the text parser\<close>














lemma standardize_findings_shape:
  "standardize_findings x = [] \<or> prefix canonical_findings (standardize_findings x)"
  by (auto simp: standardize_findings_def Let_def)

lemma parse_text_to_json_findings_shape:
  "fst (parse_text_to_json t) = [] \<or> prefix canonical_findings (fst (parse_text_to_json t))"
  using standardize_findings_shape
  by (auto simp: parse_text_to_json_def case_prod_beta)


section \<open>C1: the retry bound\<close>

lemma service_first_sleep_fails:
  assumes "batch \<noteq> []" and "service_resolve_prompt P ct s = Inr p" and "0 \<le> mr"
    and "predict_attempt (m (calls st) (batch @ [p])) = Inl e" and "is_rate_limit e"
    and "sleep_error (extract_retry_delay e (b * 2 ^ 0)) = Some x"
  shows "service_query_with_batch m P ct batch s b mr st
           = (''Error: Gemini query failed: '' @ exn_str x, st\<lparr>calls := Suc (calls st)\<rparr>)"
proof -
  from assms(3) have "int 0 \<le> mr" by simp
  then have p: "predict m (batch @ [p]) mr b st = (Inl x, st\<lparr>calls := Suc (calls st)\<rparr>)"
    unfolding predict_def using assms(4,5,6) by (rule predict_loop_sleep_fails)
  from sleep_error_kinds [OF assms(6)] show ?thesis
    using assms(1,2) p by (auto simp: service_query_with_batch_def)
qed

text \<open>
  C1 (as amended): for every \<open>max_retries \<ge> 0\<close> and \<open>base_retry_delay\<close>, one invocation of
  \<open>GeminiModel.predict\<close> and one batch query of \<open>GeminiHandler\<close> make at most
  \<open>max_retries + 1\<close> model calls; a batch query of \<open>InferenceService\<close> makes at most
  \<open>2 * (max_retries + 1)\<close> calls, and at most \<open>max_retries + 1\<close> when no error text holds
  the format-error marker (after which it runs \<open>predict\<close> a second time). If every call
  raises a rate-limit-class error whose delay can be slept at every retry count up to
  \<open>max_retries\<close> (a delay between 0 and 9223372036 seconds), the result of the batch
  query (of a batch that is not empty, and in the service with a prompt that resolves)
  is exactly \<open>Error: Rate limit exceeded after maximum retries.\<close> after exactly
  \<open>max_retries + 1\<close> calls. A rate-limited call whose delay cannot be slept is the last
  call: \<open>time.sleep\<close> raises, the handler's query raises that exception, and the service
  answers \<open>Error: Gemini query failed: ...\<close> (shown for its first call).
\<close>

theorem retry_bound:
  assumes "0 \<le> max_retries"
  shows
    "int (calls (snd (predict m contents max_retries base_retry_delay st)))
       \<le> int (calls st) + (max_retries + 1)
     \<and> int (calls (snd (handler_query_with_batch m system_prompts case_type batch s
                          base_retry_delay max_retries st)))
       \<le> int (calls st) + (max_retries + 1)
     \<and> int (calls (snd (service_query_with_batch m system_prompts case_type batch s
                          base_retry_delay max_retries st)))
       \<le> int (calls st) + 2 * (max_retries + 1)
     \<and> ((\<forall>k c e. predict_attempt (m k c) = Inl e
                  \<longrightarrow> \<not> sublist format_error_marker (''Gemini API error: '' @ e))
        \<longrightarrow> int (calls (snd (service_query_with_batch m system_prompts case_type batch s
                                base_retry_delay max_retries st)))
              \<le> int (calls st) + (max_retries + 1))
     \<and> ((\<forall>k c. \<exists>e. m k c = Raises e \<and> is_rate_limit e
                  \<and> (\<forall>n. int n \<le> max_retries
                        \<longrightarrow> sleep_error (extract_retry_delay e (base_retry_delay * 2 ^ n)) = None))
          \<and> batch \<noteq> []
        \<longrightarrow> fst (handler_query_with_batch m system_prompts case_type batch s
                    base_retry_delay max_retries st)
              = Inr ''Error: Rate limit exceeded after maximum retries.''
            \<and> int (calls (snd (handler_query_with_batch m system_prompts case_type batch s
                                  base_retry_delay max_retries st)))
              = int (calls st) + (max_retries + 1))
     \<and> ((\<forall>k c. \<exists>e. m k c = Raises e \<and> is_rate_limit e
                  \<and> (\<forall>n. int n \<le> max_retries
                        \<longrightarrow> sleep_error (extract_retry_delay e (base_retry_delay * 2 ^ n)) = None))
          \<and> batch \<noteq> []
          \<and> (\<exists>p. service_resolve_prompt system_prompts case_type s = Inr p)
        \<longrightarrow> fst (service_query_with_batch m system_prompts case_type batch s
                    base_retry_delay max_retries st)
              = ''Error: Rate limit exceeded after maximum retries.''
            \<and> int (calls (snd (service_query_with_batch m system_prompts case_type batch s
                                  base_retry_delay max_retries st)))
              = int (calls st) + (max_retries + 1))
     \<and> (calls st \<le> k
          \<and> k < calls (snd (handler_query_with_batch m system_prompts case_type batch s
                              base_retry_delay max_retries st))
          \<and> m k (batch @ [handler_resolve_prompt system_prompts case_type s]) = Raises e
          \<and> is_rate_limit e
          \<and> sleep_error (extract_retry_delay e (base_retry_delay * 2 ^ (k - calls st))) = Some x
        \<longrightarrow> calls (snd (handler_query_with_batch m system_prompts case_type batch s
                            base_retry_delay max_retries st)) = Suc k
            \<and> fst (handler_query_with_batch m system_prompts case_type batch s
                      base_retry_delay max_retries st) = Inl x)
     \<and> (batch \<noteq> [] \<and> service_resolve_prompt system_prompts case_type s = Inr p
          \<and> predict_attempt (m (calls st) (batch @ [p])) = Inl e \<and> is_rate_limit e
          \<and> sleep_error (extract_retry_delay e (base_retry_delay * 2 ^ 0)) = Some x
        \<longrightarrow> service_query_with_batch m system_prompts case_type batch s
                base_retry_delay max_retries st
              = (''Error: Gemini query failed: '' @ exn_str x, st\<lparr>calls := Suc (calls st)\<rparr>))"
proof -
  have n: "int (nat (max_retries + 1)) = max_retries + 1" using assms by simp
  have c1: "int (calls (snd (predict m contents max_retries base_retry_delay st)))
       \<le> int (calls st) + (max_retries + 1)"
    using predict_calls_le [of m contents max_retries base_retry_delay st] n by linarith
  have c2: "int (calls (snd (handler_query_with_batch m system_prompts case_type batch s
                          base_retry_delay max_retries st)))
       \<le> int (calls st) + (max_retries + 1)"
    using handler_query_calls_le [of m system_prompts case_type batch "s" base_retry_delay max_retries st] n
    by linarith
  have c3: "int (calls (snd (service_query_with_batch m system_prompts case_type batch s
                          base_retry_delay max_retries st)))
       \<le> int (calls st) + 2 * (max_retries + 1)"
  proof -
    have "int (calls (snd (service_query_with_batch m system_prompts case_type batch s
                          base_retry_delay max_retries st)))
            \<le> int (calls st + 2 * nat (max_retries + 1))"
      using service_query_calls_le [of m system_prompts case_type batch "s" base_retry_delay max_retries st]
      by (simp only: of_nat_le_iff)
    also have "\<dots> = int (calls st) + 2 * (max_retries + 1)" using n by simp
    finally show ?thesis .
  qed
  have c4: "int (calls (snd (service_query_with_batch m system_prompts case_type batch s
                                base_retry_delay max_retries st)))
              \<le> int (calls st) + (max_retries + 1)"
    if "\<forall>k c e. predict_attempt (m k c) = Inl e
                  \<longrightarrow> \<not> sublist format_error_marker (''Gemini API error: '' @ e)"
    using service_query_calls_le_no_format [OF that, of system_prompts case_type batch "s" base_retry_delay max_retries st] n
    by linarith
  have c5: "fst (handler_query_with_batch m system_prompts case_type batch s
                    base_retry_delay max_retries st)
              = Inr ''Error: Rate limit exceeded after maximum retries.''
            \<and> int (calls (snd (handler_query_with_batch m system_prompts case_type batch s
                                  base_retry_delay max_retries st)))
              = int (calls st) + (max_retries + 1)"
    if "\<forall>k c. \<exists>e. m k c = Raises e \<and> is_rate_limit e
                  \<and> (\<forall>n. int n \<le> max_retries
                        \<longrightarrow> sleep_error (extract_retry_delay e (base_retry_delay * 2 ^ n)) = None)"
      and "batch \<noteq> []"
    using handler_query_exhausted [OF that, of system_prompts case_type "s" st] n
    by simp
  have c6: "fst (service_query_with_batch m system_prompts case_type batch s
                    base_retry_delay max_retries st)
              = ''Error: Rate limit exceeded after maximum retries.''
            \<and> int (calls (snd (service_query_with_batch m system_prompts case_type batch s
                                  base_retry_delay max_retries st)))
              = int (calls st) + (max_retries + 1)"
    if "\<forall>k c. \<exists>e. m k c = Raises e \<and> is_rate_limit e
                  \<and> (\<forall>n. int n \<le> max_retries
                        \<longrightarrow> sleep_error (extract_retry_delay e (base_retry_delay * 2 ^ n)) = None)"
      and "batch \<noteq> []"
      and "service_resolve_prompt system_prompts case_type s = Inr q" for q
    using service_query_exhausted [OF that, of st] n
    by simp
  have c7: "calls (snd (handler_query_with_batch m system_prompts case_type batch s
                            base_retry_delay max_retries st)) = Suc k
            \<and> fst (handler_query_with_batch m system_prompts case_type batch s
                      base_retry_delay max_retries st) = Inl x"
    if h: "calls st \<le> k"
      "k < calls (snd (handler_query_with_batch m system_prompts case_type batch s
                              base_retry_delay max_retries st))"
      "m k (batch @ [handler_resolve_prompt system_prompts case_type s]) = Raises e"
      "is_rate_limit e"
      "sleep_error (extract_retry_delay e (base_retry_delay * 2 ^ (k - calls st))) = Some x"
  proof -
    let ?c = "batch @ [handler_resolve_prompt system_prompts case_type s]"
    from h(1,2) have unf: "handler_query_with_batch m system_prompts case_type batch s
                             base_retry_delay max_retries st
               = handler_query_loop m ?c max_retries base_retry_delay 0 st"
      by (auto simp: handler_query_with_batch_def split: if_splits)
    from h(2) have k2: "k < calls (snd (handler_query_loop m ?c max_retries base_retry_delay 0 st))"
      by (simp only: unf)
    from h(5) have sl: "sleep_error (extract_retry_delay e (base_retry_delay * 2 ^ (0 + (k - calls st)))) = Some x"
      by simp
    from handler_loop_sleep_failure_is_last [OF h(1) k2 sl h(3,4)] show ?thesis
      by (simp only: unf)
  qed
  have c8: "service_query_with_batch m system_prompts case_type batch s
                base_retry_delay max_retries st
              = (''Error: Gemini query failed: '' @ exn_str x, st\<lparr>calls := Suc (calls st)\<rparr>)"
    if "batch \<noteq> []" "service_resolve_prompt system_prompts case_type s = Inr p"
      "predict_attempt (m (calls st) (batch @ [p])) = Inl e" "is_rate_limit e"
      "sleep_error (extract_retry_delay e (base_retry_delay * 2 ^ 0)) = Some x"
    using that(1,2) assms that(3,4,5) by (rule service_first_sleep_fails)
  from c1 c2 c3 c4 c5 c6 c7 c8 show ?thesis by blast
qed

theorem retry_bound_witness:
  "(0::int) \<le> 3
   \<and> (\<forall>k c. always_429 k c = Raises ''429 Too Many Requests'')
   \<and> is_rate_limit ''429 Too Many Requests''
   \<and> list_all (\<lambda>n. sleep_error (extract_retry_delay ''429 Too Many Requests'' (5 * 2 ^ n)) = None) [0..<4]
   \<and> [''doc''] \<noteq> ([] :: string list)
   \<and> service_resolve_prompt findings_table None ''Findings'' = Inr ''Summarise the findings.''
   \<and> handler_query_with_batch always_429 findings_table None [''doc''] ''Findings'' 5 3 fresh
       = (Inr ''Error: Rate limit exceeded after maximum retries.'', \<lparr>calls = 4, sleeps = [5, 10, 20, 40]\<rparr>)
   \<and> fst (service_query_with_batch always_429 findings_table None [''doc''] ''Findings'' 5 3 fresh)
       = ''Error: Rate limit exceeded after maximum retries.''
   \<and> int (calls (snd (service_query_with_batch always_429 findings_table None [''doc''] ''Findings'' 5 3 fresh)))
       = int (calls fresh) + (3 + 1)
   \<and> sleep_error (extract_retry_delay ''429 Too Many Requests'' (- 1 * 2 ^ 0))
       = Some (ValueError ''sleep length must be non-negative'')
   \<and> handler_query_with_batch always_429 findings_table None [''doc''] ''Findings'' (- 1) 3 fresh
       = (Inl (ValueError ''sleep length must be non-negative''), \<lparr>calls = 1, sleeps = []\<rparr>)
   \<and> service_query_with_batch always_429 findings_table None [''doc''] ''Findings'' (- 1) 3 fresh
       = (''Error: Gemini query failed: '' @ exn_str (ValueError ''sleep length must be non-negative''),
          fresh\<lparr>calls := Suc (calls fresh)\<rparr>)"
proof -
  have h: "(0::int) \<le> 3" by simp
  have script: "\<forall>k c. always_429 k c = Raises ''429 Too Many Requests''"
    by (simp add: always_429_def)
  have cls: "is_rate_limit ''429 Too Many Requests''" by code_simp
  have nosec: "\<not> sublist ''retry_delay'' ''429 Too Many Requests''" by code_simp
  have dl: "list_all (\<lambda>n. sleep_error (extract_retry_delay ''429 Too Many Requests'' (5 * 2 ^ n)) = None) [0..<4]"
    by code_simp
  have ok: "sleep_error (extract_retry_delay ''429 Too Many Requests'' (5 * 2 ^ n)) = None" if "int n \<le> 3" for n
  proof -
    from that have "n \<le> 3" by simp
    then have "(2::int) ^ n \<le> 2 ^ 3" by (intro power_increasing) simp_all
    then have "(5::int) * 2 ^ n \<le> 9223372036" by simp
    moreover have "(0::int) \<le> 5 * 2 ^ n" by simp
    ultimately show ?thesis
      by (simp only: extract_retry_delay_no_section [OF nosec] sleep_error_None_iff)
  qed
  have rl: "\<forall>k c. \<exists>e. always_429 k c = Raises e \<and> is_rate_limit e
              \<and> (\<forall>n. int n \<le> 3 \<longrightarrow> sleep_error (extract_retry_delay e (5 * 2 ^ n)) = None)"
    using script cls ok by blast
  have ne: "[''doc''] \<noteq> ([] :: string list)" by simp
  have res: "service_resolve_prompt findings_table None ''Findings'' = Inr ''Summarise the findings.''"
    by code_simp
  have run: "handler_query_with_batch always_429 findings_table None [''doc''] ''Findings'' 5 3 fresh
       = (Inr ''Error: Rate limit exceeded after maximum retries.'', \<lparr>calls = 4, sleeps = [5, 10, 20, 40]\<rparr>)"
    by code_simp
  note t = retry_bound [OF h, where m = always_429 and base_retry_delay = 5 and st = fresh
      and system_prompts = findings_table and case_type = None and batch = "[''doc'']"
      and s = "''Findings''"]
  have r1: "fst (service_query_with_batch always_429 findings_table None [''doc''] ''Findings'' 5 3 fresh)
       = ''Error: Rate limit exceeded after maximum retries.''
   \<and> int (calls (snd (service_query_with_batch always_429 findings_table None [''doc''] ''Findings'' 5 3 fresh)))
       = int (calls fresh) + (3 + 1)"
    using t rl ne res by blast
  have sf: "sleep_error (extract_retry_delay ''429 Too Many Requests'' (- 1 * 2 ^ 0))
       = Some (ValueError ''sleep length must be non-negative'')"
    by code_simp
  have neg: "handler_query_with_batch always_429 findings_table None [''doc''] ''Findings'' (- 1) 3 fresh
       = (Inl (ValueError ''sleep length must be non-negative''), \<lparr>calls = 1, sleeps = []\<rparr>)"
    by code_simp
  have att: "predict_attempt (always_429 (calls fresh) ([''doc''] @ [''Summarise the findings.'']))
               = Inl ''429 Too Many Requests''"
    by (simp add: always_429_def predict_attempt_def)
  note t2 = retry_bound [OF h, where m = always_429 and base_retry_delay = "- 1" and st = fresh
      and system_prompts = findings_table and case_type = None and batch = "[''doc'']"
      and s = "''Findings''" and p = "''Summarise the findings.''"
      and e = "''429 Too Many Requests''" and x = "ValueError ''sleep length must be non-negative''"]
  have r2: "service_query_with_batch always_429 findings_table None [''doc''] ''Findings'' (- 1) 3 fresh
       = (''Error: Gemini query failed: '' @ exn_str (ValueError ''sleep length must be non-negative''),
          fresh\<lparr>calls := Suc (calls fresh)\<rparr>)"
    using t2 ne res att cls sf by blast
  show ?thesis
    by (intro conjI h script cls dl ne res run r1 [THEN conjunct1] r1 [THEN conjunct2] sf neg r2)
qed

text \<open>
  The claim as stated fails on \<open>InferenceService.query_with_batch\<close>: with
  \<open>max_retries = 0\<close>, a first call that fails on the format of the request is followed by
  a second call.
\<close>

theorem retry_bound_counterexample:
  "service_query_with_batch format_error_then_text findings_table None [''doc''] ''Findings'' 5 0 fresh
     = (''analysis'', \<lparr>calls = 2, sleeps = []\<rparr>)
   \<and> \<not> int (calls (snd (service_query_with_batch format_error_then_text findings_table None
                            [''doc''] ''Findings'' 5 0 fresh)))
         \<le> int (calls fresh) + (0 + 1)"
proof -
  have run: "service_query_with_batch format_error_then_text findings_table None [''doc''] ''Findings'' 5 0 fresh
     = (''analysis'', \<lparr>calls = 2, sleeps = []\<rparr>)"
    by code_simp
  then show ?thesis by (simp add: fresh_def)
qed

section \<open>C2: prompt resolution\<close>

text \<open>
  C2 (as amended): in \<open>GeminiHandler.query_with_batch\<close> the resolution of the prompt always
  gives a prompt that is not empty, for every section, case type and prompt table (a
  dictionary: its keys are distinct), and it goes through the tiers in this order: a
  truthy entry under the case-specific key \<open>{section}_{case_type}\<close>; else a truthy entry
  under the section; else the entry of the first key of the table, in its order, that is
  similar to the section (one is a substring of the other, whatever the case) and whose
  entry is truthy; else a truthy entry under the section with underscores for spaces;
  else one under the section with spaces for underscores; else the synthesized default.
  \<open>InferenceService.query_with_batch\<close> normalizes the section (underscores for spaces,
  and back to spaces) and tries the case-specific key with underscores, then with
  spaces, then the section with underscores, then with spaces; then the first key of
  the table similar to the section or to its normalized form ends the search, and its
  entry is the prompt when it is truthy. There is no default: when nothing matches (or
  that entry is empty) the batch query returns an \<open>Error: Not enough information is
  provided ...\<close> string and calls no model; a resolved prompt is a non-empty entry of
  the table.
\<close>

theorem prompt_resolution:
  "handler_resolve_prompt P ct s \<noteq> []
   \<and> (c \<noteq> [] \<and> map_of P (s @ ''_'' @ c) = Some v \<and> v \<noteq> []
        \<longrightarrow> handler_resolve_prompt P (Some c) s = v)
   \<and> (\<not> (truthy ct \<and> truthy (map_of P (s @ ''_'' @ str_of ct))) \<and> map_of P s = Some v \<and> v \<noteq> []
        \<longrightarrow> handler_resolve_prompt P ct s = v)
   \<and> (\<not> (truthy ct \<and> truthy (map_of P (s @ ''_'' @ str_of ct))) \<and> \<not> truthy (map_of P s)
       \<and> distinct (map fst P) \<and> P = P1 @ (key, v) # P2 \<and> similar_key s key \<and> v \<noteq> []
       \<and> (\<forall>kv \<in> set P1. similar_key s (fst kv) \<longrightarrow> snd kv = [])
        \<longrightarrow> handler_resolve_prompt P ct s = v)
   \<and> (\<not> (truthy ct \<and> truthy (map_of P (s @ ''_'' @ str_of ct))) \<and> \<not> truthy (map_of P s)
       \<and> (\<forall>kv \<in> set P. similar_key s (fst kv) \<longrightarrow> snd kv = [])
        \<longrightarrow> handler_resolve_prompt P ct s =
             (if truthy (map_of P (py_replace_char s CHR '' '' CHR ''_''))
              then str_of (map_of P (py_replace_char s CHR '' '' CHR ''_''))
              else if truthy (map_of P (py_replace_char s CHR ''_'' CHR '' ''))
              then str_of (map_of P (py_replace_char s CHR ''_'' CHR '' ''))
              else default_prompt s))
   \<and> (truthy ct \<and> map_of P (py_replace_char s CHR '' '' CHR ''_'' @ ''_'' @ str_of ct) = Some v \<and> v \<noteq> []
        \<longrightarrow> service_resolve_prompt P ct s = Inr v)
   \<and> (truthy ct \<and> \<not> truthy (map_of P (py_replace_char s CHR '' '' CHR ''_'' @ ''_'' @ str_of ct))
       \<and> map_of P (py_replace_char (py_replace_char s CHR '' '' CHR ''_'') CHR ''_'' CHR '' '' @ ''_'' @ str_of ct) = Some v
       \<and> v \<noteq> []
        \<longrightarrow> service_resolve_prompt P ct s = Inr v)
   \<and> (\<not> (truthy ct \<and> (truthy (map_of P (py_replace_char s CHR '' '' CHR ''_'' @ ''_'' @ str_of ct))
              \<or> truthy (map_of P (py_replace_char (py_replace_char s CHR '' '' CHR ''_'') CHR ''_'' CHR '' '' @ ''_'' @ str_of ct))))
       \<and> map_of P (py_replace_char s CHR '' '' CHR ''_'') = Some v \<and> v \<noteq> []
        \<longrightarrow> service_resolve_prompt P ct s = Inr v)
   \<and> (\<not> (truthy ct \<and> (truthy (map_of P (py_replace_char s CHR '' '' CHR ''_'' @ ''_'' @ str_of ct))
              \<or> truthy (map_of P (py_replace_char (py_replace_char s CHR '' '' CHR ''_'') CHR ''_'' CHR '' '' @ ''_'' @ str_of ct))))
       \<and> \<not> truthy (map_of P (py_replace_char s CHR '' '' CHR ''_''))
       \<and> map_of P (py_replace_char (py_replace_char s CHR '' '' CHR ''_'') CHR ''_'' CHR '' '') = Some v \<and> v \<noteq> []
        \<longrightarrow> service_resolve_prompt P ct s = Inr v)
   \<and> (\<not> (truthy ct \<and> (truthy (map_of P (py_replace_char s CHR '' '' CHR ''_'' @ ''_'' @ str_of ct))
              \<or> truthy (map_of P (py_replace_char (py_replace_char s CHR '' '' CHR ''_'') CHR ''_'' CHR '' '' @ ''_'' @ str_of ct))))
       \<and> \<not> truthy (map_of P (py_replace_char s CHR '' '' CHR ''_''))
       \<and> \<not> truthy (map_of P (py_replace_char (py_replace_char s CHR '' '' CHR ''_'') CHR ''_'' CHR '' ''))
       \<and> distinct (map fst P) \<and> P = P1 @ (key, v) # P2
       \<and> (similar_key s key \<or> similar_key (py_replace_char s CHR '' '' CHR ''_'') key)
       \<and> (\<forall>kv \<in> set P1. \<not> similar_key s (fst kv) \<and> \<not> similar_key (py_replace_char s CHR '' '' CHR ''_'') (fst kv))
        \<longrightarrow> service_resolve_prompt P ct s =
             (if v \<noteq> [] then Inr v
              else Inl (''Error: Not enough information is provided. No system prompt found for section ''
                      @ [CHR 0x27] @ s @ [CHR 0x27] @ ''.'')))
   \<and> (\<not> (truthy ct \<and> (truthy (map_of P (py_replace_char s CHR '' '' CHR ''_'' @ ''_'' @ str_of ct))
              \<or> truthy (map_of P (py_replace_char (py_replace_char s CHR '' '' CHR ''_'') CHR ''_'' CHR '' '' @ ''_'' @ str_of ct))))
       \<and> \<not> truthy (map_of P (py_replace_char s CHR '' '' CHR ''_''))
       \<and> \<not> truthy (map_of P (py_replace_char (py_replace_char s CHR '' '' CHR ''_'') CHR ''_'' CHR '' ''))
       \<and> (\<forall>key \<in> set (map fst P). \<not> similar_key s key \<and> \<not> similar_key (py_replace_char s CHR '' '' CHR ''_'') key)
        \<longrightarrow> service_resolve_prompt P ct s =
             Inl (if P = [] then ''Error: Not enough information is provided. No system prompts found in MongoDB.''
                  else ''Error: Not enough information is provided. No system prompt found for section ''
                      @ [CHR 0x27] @ s @ [CHR 0x27] @ ''.''))
   \<and> (\<forall>q. service_resolve_prompt P ct s = Inr q \<longrightarrow> q \<noteq> [] \<and> (\<exists>k. map_of P k = Some q))
   \<and> (\<forall>e. batch \<noteq> [] \<and> service_resolve_prompt P ct s = Inl e
        \<longrightarrow> service_query_with_batch m P ct batch s base_retry_delay max_retries st = (e, st))"
proof -
  have aa: "handler_resolve_prompt P ct s \<noteq> []"
    by (rule handler_resolve_prompt_nonempty)
  have bb: "(c \<noteq> [] \<and> map_of P (s @ ''_'' @ c) = Some v \<and> v \<noteq> []
        \<longrightarrow> handler_resolve_prompt P (Some c) s = v)"
    using handler_case_specific_hit by blast
  have cc: "(\<not> (truthy ct \<and> truthy (map_of P (s @ ''_'' @ str_of ct))) \<and> map_of P s = Some v \<and> v \<noteq> []
        \<longrightarrow> handler_resolve_prompt P ct s = v)"
    using handler_generic_hit [of ct P s v] by blast
  have dd: "(\<not> (truthy ct \<and> truthy (map_of P (s @ ''_'' @ str_of ct))) \<and> \<not> truthy (map_of P s)
       \<and> distinct (map fst P) \<and> P = P1 @ (key, v) # P2 \<and> similar_key s key \<and> v \<noteq> []
       \<and> (\<forall>kv \<in> set P1. similar_key s (fst kv) \<longrightarrow> snd kv = [])
        \<longrightarrow> handler_resolve_prompt P ct s = v)"
    using handler_fuzzy_hit [of ct P s P1 key v P2] by blast
  have ee: "(\<not> (truthy ct \<and> truthy (map_of P (s @ ''_'' @ str_of ct))) \<and> \<not> truthy (map_of P s)
       \<and> (\<forall>kv \<in> set P. similar_key s (fst kv) \<longrightarrow> snd kv = [])
        \<longrightarrow> handler_resolve_prompt P ct s =
             (if truthy (map_of P (py_replace_char s CHR '' '' CHR ''_''))
              then str_of (map_of P (py_replace_char s CHR '' '' CHR ''_''))
              else if truthy (map_of P (py_replace_char s CHR ''_'' CHR '' ''))
              then str_of (map_of P (py_replace_char s CHR ''_'' CHR '' ''))
              else default_prompt s))"
    using handler_after_fuzzy [of ct P s] by blast
  have ff: "(truthy ct \<and> map_of P (py_replace_char s CHR '' '' CHR ''_'' @ ''_'' @ str_of ct) = Some v \<and> v \<noteq> []
        \<longrightarrow> service_resolve_prompt P ct s = Inr v)"
    using service_exact_hits(1) [of ct P s v] by blast
  have gg: "(truthy ct \<and> \<not> truthy (map_of P (py_replace_char s CHR '' '' CHR ''_'' @ ''_'' @ str_of ct))
       \<and> map_of P (py_replace_char (py_replace_char s CHR '' '' CHR ''_'') CHR ''_'' CHR '' '' @ ''_'' @ str_of ct) = Some v
       \<and> v \<noteq> []
        \<longrightarrow> service_resolve_prompt P ct s = Inr v)"
    using service_exact_hits(2) [of ct P s v] by blast
  have hh: "(\<not> (truthy ct \<and> (truthy (map_of P (py_replace_char s CHR '' '' CHR ''_'' @ ''_'' @ str_of ct))
              \<or> truthy (map_of P (py_replace_char (py_replace_char s CHR '' '' CHR ''_'') CHR ''_'' CHR '' '' @ ''_'' @ str_of ct))))
       \<and> map_of P (py_replace_char s CHR '' '' CHR ''_'') = Some v \<and> v \<noteq> []
        \<longrightarrow> service_resolve_prompt P ct s = Inr v)"
    using service_exact_hits(3) [of ct P s v] by blast
  have ii: "(\<not> (truthy ct \<and> (truthy (map_of P (py_replace_char s CHR '' '' CHR ''_'' @ ''_'' @ str_of ct))
              \<or> truthy (map_of P (py_replace_char (py_replace_char s CHR '' '' CHR ''_'') CHR ''_'' CHR '' '' @ ''_'' @ str_of ct))))
       \<and> \<not> truthy (map_of P (py_replace_char s CHR '' '' CHR ''_''))
       \<and> map_of P (py_replace_char (py_replace_char s CHR '' '' CHR ''_'') CHR ''_'' CHR '' '') = Some v \<and> v \<noteq> []
        \<longrightarrow> service_resolve_prompt P ct s = Inr v)"
    using service_exact_hits(4) [of ct P s v] by blast
  have jj: "(\<not> (truthy ct \<and> (truthy (map_of P (py_replace_char s CHR '' '' CHR ''_'' @ ''_'' @ str_of ct))
              \<or> truthy (map_of P (py_replace_char (py_replace_char s CHR '' '' CHR ''_'') CHR ''_'' CHR '' '' @ ''_'' @ str_of ct))))
       \<and> \<not> truthy (map_of P (py_replace_char s CHR '' '' CHR ''_''))
       \<and> \<not> truthy (map_of P (py_replace_char (py_replace_char s CHR '' '' CHR ''_'') CHR ''_'' CHR '' ''))
       \<and> distinct (map fst P) \<and> P = P1 @ (key, v) # P2
       \<and> (similar_key s key \<or> similar_key (py_replace_char s CHR '' '' CHR ''_'') key)
       \<and> (\<forall>kv \<in> set P1. \<not> similar_key s (fst kv) \<and> \<not> similar_key (py_replace_char s CHR '' '' CHR ''_'') (fst kv))
        \<longrightarrow> service_resolve_prompt P ct s =
             (if v \<noteq> [] then Inr v
              else Inl (''Error: Not enough information is provided. No system prompt found for section ''
                      @ [CHR 0x27] @ s @ [CHR 0x27] @ ''.'')))"
    using service_flexible_hit [of ct P s P1 key v P2] by blast
  have kk: "(\<not> (truthy ct \<and> (truthy (map_of P (py_replace_char s CHR '' '' CHR ''_'' @ ''_'' @ str_of ct))
              \<or> truthy (map_of P (py_replace_char (py_replace_char s CHR '' '' CHR ''_'') CHR ''_'' CHR '' '' @ ''_'' @ str_of ct))))
       \<and> \<not> truthy (map_of P (py_replace_char s CHR '' '' CHR ''_''))
       \<and> \<not> truthy (map_of P (py_replace_char (py_replace_char s CHR '' '' CHR ''_'') CHR ''_'' CHR '' ''))
       \<and> (\<forall>key \<in> set (map fst P). \<not> similar_key s key \<and> \<not> similar_key (py_replace_char s CHR '' '' CHR ''_'') key)
        \<longrightarrow> service_resolve_prompt P ct s =
             Inl (if P = [] then ''Error: Not enough information is provided. No system prompts found in MongoDB.''
                  else ''Error: Not enough information is provided. No system prompt found for section ''
                      @ [CHR 0x27] @ s @ [CHR 0x27] @ ''.''))"
    using service_no_match [of ct P s] by blast
  have ll: "(\<forall>q. service_resolve_prompt P ct s = Inr q \<longrightarrow> q \<noteq> [] \<and> (\<exists>k. map_of P k = Some q))"
    using service_resolve_prompt_nonempty service_resolve_prompt_from_table by blast
  have mm: "(\<forall>e. batch \<noteq> [] \<and> service_resolve_prompt P ct s = Inl e
        \<longrightarrow> service_query_with_batch m P ct batch s base_retry_delay max_retries st = (e, st))"
    by (simp add: service_query_with_batch_def)
  show ?thesis
    by (intro conjI aa bb cc dd ee ff gg hh ii jj kk ll mm)
qed

theorem prompt_resolution_witness:
  "handler_resolve_prompt slip_table (Some ''slip'') ''Findings'' = ''Findings of a slip and fall.''
   \<and> service_resolve_prompt slip_table (Some ''slip'') ''Findings'' = Inr ''Findings of a slip and fall.''
   \<and> handler_resolve_prompt slip_table None ''Findings'' = ''Summarise the findings.''
   \<and> distinct (map fst numbered_table)
   \<and> numbered_table = [(''Exhibits'', ''List the exhibits.'')] @ (''1.4 Findings'', ''Summarise the findings.'') # []
   \<and> similar_key ''findings'' ''1.4 Findings'' \<and> \<not> similar_key ''findings'' ''Exhibits''
   \<and> handler_resolve_prompt numbered_table None ''findings'' = ''Summarise the findings.''
   \<and> service_resolve_prompt numbered_table None ''findings''
       = (if ''Summarise the findings.'' \<noteq> [] then Inr ''Summarise the findings.''
          else Inl (''Error: Not enough information is provided. No system prompt found for section ''
                      @ [CHR 0x27] @ ''findings'' @ [CHR 0x27] @ ''.''))
   \<and> list_all (\<lambda>key. \<not> similar_key ''Findings'' key) (map fst exhibits_table)
   \<and> handler_resolve_prompt exhibits_table (Some ''slip'') ''Findings''
       = ''Analyze the provided documents and extract information for the '' @ [CHR 0x27]
           @ ''Findings'' @ [CHR 0x27] @ '' section of the report.''
   \<and> service_resolve_prompt exhibits_table (Some ''slip'') ''Findings''
       = Inl (if exhibits_table = []
              then ''Error: Not enough information is provided. No system prompts found in MongoDB.''
              else ''Error: Not enough information is provided. No system prompt found for section ''
                      @ [CHR 0x27] @ ''Findings'' @ [CHR 0x27] @ ''.'')
   \<and> service_query_with_batch always_text exhibits_table (Some ''slip'') [''doc''] ''Findings'' 5 3 fresh
       = (''Error: Not enough information is provided. No system prompt found for section ''
            @ [CHR 0x27] @ ''Findings'' @ [CHR 0x27] @ ''.'', fresh)"
proof -
  \<comment> \<open>the case-specific key\<close>
  have h1: "''slip'' \<noteq> [] \<and> map_of slip_table (''Findings'' @ ''_'' @ ''slip'') = Some ''Findings of a slip and fall.''
            \<and> ''Findings of a slip and fall.'' \<noteq> []"
    by (simp add: slip_table_def)
  note t1 = prompt_resolution [where P = slip_table and s = "''Findings''" and c = "''slip''"
      and v = "''Findings of a slip and fall.''", THEN conjunct2, THEN conjunct1]
  have r1: "handler_resolve_prompt slip_table (Some ''slip'') ''Findings'' = ''Findings of a slip and fall.''"
    by (rule mp [OF t1 h1])
  have s1: "service_resolve_prompt slip_table (Some ''slip'') ''Findings'' = Inr ''Findings of a slip and fall.''"
    by code_simp
  \<comment> \<open>the section itself\<close>
  have h2: "\<not> (truthy None \<and> truthy (map_of slip_table (''Findings'' @ ''_'' @ str_of None)))
            \<and> map_of slip_table ''Findings'' = Some ''Summarise the findings.''
            \<and> ''Summarise the findings.'' \<noteq> []"
    by (simp add: slip_table_def truthy_def)
  note t2 = prompt_resolution [where P = slip_table and s = "''Findings''" and ct = None
      and v = "''Summarise the findings.''", THEN conjunct2, THEN conjunct2, THEN conjunct1]
  have r2: "handler_resolve_prompt slip_table None ''Findings'' = ''Summarise the findings.''"
    by (rule mp [OF t2 h2])
  \<comment> \<open>a similar key\<close>
  have n0: "\<not> (truthy None \<and> truthy (map_of numbered_table (''findings'' @ ''_'' @ str_of None)))"
    by (simp add: truthy_def)
  have n1: "\<not> truthy (map_of numbered_table ''findings'')" by code_simp
  have n2: "distinct (map fst numbered_table)" by code_simp
  have n3: "numbered_table = [(''Exhibits'', ''List the exhibits.'')] @ (''1.4 Findings'', ''Summarise the findings.'') # []"
    by (simp add: numbered_table_def)
  have n4: "similar_key ''findings'' ''1.4 Findings''" by code_simp
  have n5: "''Summarise the findings.'' \<noteq> []" by simp
  have n6: "\<not> similar_key ''findings'' ''Exhibits''" by code_simp
  then have n7: "\<forall>kv \<in> set [(''Exhibits'', ''List the exhibits.'')]. similar_key ''findings'' (fst kv) \<longrightarrow> snd kv = []"
    by simp
  note t3 = prompt_resolution [where P = numbered_table and s = "''findings''" and ct = None
      and ?P1.0 = "[(''Exhibits'', ''List the exhibits.'')]" and key = "''1.4 Findings''"
      and v = "''Summarise the findings.''" and ?P2.0 = "[]", THEN conjunct2, THEN conjunct2, THEN conjunct2, THEN conjunct1]
  have r3: "handler_resolve_prompt numbered_table None ''findings'' = ''Summarise the findings.''"
    by (rule mp [OF t3]) (intro conjI n0 n1 n2 n3 n4 n5 n7)
  have m0: "\<not> (truthy None \<and> (truthy (map_of numbered_table (py_replace_char ''findings'' CHR '' '' CHR ''_'' @ ''_'' @ str_of None))
              \<or> truthy (map_of numbered_table (py_replace_char (py_replace_char ''findings'' CHR '' '' CHR ''_'') CHR ''_'' CHR '' '' @ ''_'' @ str_of None))))"
    by (simp add: truthy_def)
  have m1: "\<not> truthy (map_of numbered_table (py_replace_char ''findings'' CHR '' '' CHR ''_''))" by code_simp
  have m2: "\<not> truthy (map_of numbered_table (py_replace_char (py_replace_char ''findings'' CHR '' '' CHR ''_'') CHR ''_'' CHR '' ''))"
    by code_simp
  have m4: "similar_key ''findings'' ''1.4 Findings'' \<or> similar_key (py_replace_char ''findings'' CHR '' '' CHR ''_'') ''1.4 Findings''"
    using n4 by blast
  have m6: "\<not> similar_key (py_replace_char ''findings'' CHR '' '' CHR ''_'') ''Exhibits''" by code_simp
  with n6 have m7: "\<forall>kv \<in> set [(''Exhibits'', ''List the exhibits.'')].
      \<not> similar_key ''findings'' (fst kv) \<and> \<not> similar_key (py_replace_char ''findings'' CHR '' '' CHR ''_'') (fst kv)"
    by simp
  note t4 = prompt_resolution [where P = numbered_table and s = "''findings''" and ct = None
      and ?P1.0 = "[(''Exhibits'', ''List the exhibits.'')]" and key = "''1.4 Findings''"
      and v = "''Summarise the findings.''" and ?P2.0 = "[]", THEN conjunct2, THEN conjunct2, THEN conjunct2, THEN conjunct2, THEN conjunct2, THEN conjunct2, THEN conjunct2, THEN conjunct2, THEN conjunct2, THEN conjunct1]
  have r4: "service_resolve_prompt numbered_table None ''findings''
       = (if ''Summarise the findings.'' \<noteq> [] then Inr ''Summarise the findings.''
          else Inl (''Error: Not enough information is provided. No system prompt found for section ''
                      @ [CHR 0x27] @ ''findings'' @ [CHR 0x27] @ ''.''))"
    by (rule mp [OF t4]) (intro conjI m0 m1 m2 n2 n3 m4 m7)
  \<comment> \<open>no match\<close>
  have miss: "list_all (\<lambda>key. \<not> similar_key ''Findings'' key) (map fst exhibits_table)"
    by code_simp
  have e0: "\<not> (truthy (Some ''slip'') \<and> truthy (map_of exhibits_table (''Findings'' @ ''_'' @ str_of (Some ''slip''))))"
    by code_simp
  have e1: "\<not> truthy (map_of exhibits_table ''Findings'')" by code_simp
  have e2: "\<forall>kv \<in> set exhibits_table. similar_key ''Findings'' (fst kv) \<longrightarrow> snd kv = []"
    using miss by (simp add: exhibits_table_def)
  note t5 = prompt_resolution [where P = exhibits_table and s = "''Findings''" and ct = "Some ''slip''", THEN conjunct2, THEN conjunct2, THEN conjunct2, THEN conjunct2, THEN conjunct1]
  have "handler_resolve_prompt exhibits_table (Some ''slip'') ''Findings'' =
             (if truthy (map_of exhibits_table (py_replace_char ''Findings'' CHR '' '' CHR ''_''))
              then str_of (map_of exhibits_table (py_replace_char ''Findings'' CHR '' '' CHR ''_''))
              else if truthy (map_of exhibits_table (py_replace_char ''Findings'' CHR ''_'' CHR '' ''))
              then str_of (map_of exhibits_table (py_replace_char ''Findings'' CHR ''_'' CHR '' ''))
              else default_prompt ''Findings'')"
    by (rule mp [OF t5]) (intro conjI e0 e1 e2)
  moreover have "\<not> truthy (map_of exhibits_table (py_replace_char ''Findings'' CHR '' '' CHR ''_''))"
    by code_simp
  moreover have "\<not> truthy (map_of exhibits_table (py_replace_char ''Findings'' CHR ''_'' CHR '' ''))"
    by code_simp
  ultimately have r5: "handler_resolve_prompt exhibits_table (Some ''slip'') ''Findings''
       = ''Analyze the provided documents and extract information for the '' @ [CHR 0x27]
           @ ''Findings'' @ [CHR 0x27] @ '' section of the report.''"
    by (simp add: default_prompt_def)
  have x0: "\<not> (truthy (Some ''slip'') \<and> (truthy (map_of exhibits_table (py_replace_char ''Findings'' CHR '' '' CHR ''_'' @ ''_'' @ str_of (Some ''slip'')))
              \<or> truthy (map_of exhibits_table (py_replace_char (py_replace_char ''Findings'' CHR '' '' CHR ''_'') CHR ''_'' CHR '' '' @ ''_'' @ str_of (Some ''slip'')))))"
    by code_simp
  have x1: "\<not> truthy (map_of exhibits_table (py_replace_char ''Findings'' CHR '' '' CHR ''_''))" by code_simp
  have x2: "\<not> truthy (map_of exhibits_table (py_replace_char (py_replace_char ''Findings'' CHR '' '' CHR ''_'') CHR ''_'' CHR '' ''))"
    by code_simp
  have x3l: "list_all (\<lambda>key. \<not> similar_key ''Findings'' key
                \<and> \<not> similar_key (py_replace_char ''Findings'' CHR '' '' CHR ''_'') key) (map fst exhibits_table)"
    by code_simp
  then have x3: "\<forall>key \<in> set (map fst exhibits_table). \<not> similar_key ''Findings'' key
                \<and> \<not> similar_key (py_replace_char ''Findings'' CHR '' '' CHR ''_'') key"
    by (simp add: list_all_iff)
  note t6 = prompt_resolution [where P = exhibits_table and s = "''Findings''" and ct = "Some ''slip''", THEN conjunct2, THEN conjunct2, THEN conjunct2, THEN conjunct2, THEN conjunct2, THEN conjunct2, THEN conjunct2, THEN conjunct2, THEN conjunct2, THEN conjunct2, THEN conjunct1]
  have r6: "service_resolve_prompt exhibits_table (Some ''slip'') ''Findings''
       = Inl (if exhibits_table = []
              then ''Error: Not enough information is provided. No system prompts found in MongoDB.''
              else ''Error: Not enough information is provided. No system prompt found for section ''
                      @ [CHR 0x27] @ ''Findings'' @ [CHR 0x27] @ ''.'')"
    by (rule mp [OF t6]) (intro conjI x0 x1 x2 x3)
  have s2: "service_resolve_prompt exhibits_table (Some ''slip'') ''Findings''
       = Inl (''Error: Not enough information is provided. No system prompt found for section ''
            @ [CHR 0x27] @ ''Findings'' @ [CHR 0x27] @ ''.'')"
    by code_simp
  note t7 = prompt_resolution [where P = exhibits_table and s = "''Findings''" and ct = "Some ''slip''"
      and batch = "[''doc'']" and m = always_text and base_retry_delay = 5 and max_retries = 3
      and st = fresh, THEN conjunct2, THEN conjunct2, THEN conjunct2, THEN conjunct2, THEN conjunct2, THEN conjunct2, THEN conjunct2, THEN conjunct2, THEN conjunct2, THEN conjunct2, THEN conjunct2, THEN conjunct2]
  have q2: "service_query_with_batch always_text exhibits_table (Some ''slip'') [''doc''] ''Findings'' 5 3 fresh
       = (''Error: Not enough information is provided. No system prompt found for section ''
            @ [CHR 0x27] @ ''Findings'' @ [CHR 0x27] @ ''.'', fresh)"
    using t7 s2 by blast
  show ?thesis
    by (intro conjI r1 s1 r2 n2 n3 n4 n6 r3 r4 miss r5 r6 q2)
qed

text \<open>
  The claim as stated fails on \<open>InferenceService.query_with_batch\<close>: with a table that is
  not empty and holds no matching key, resolution gives no prompt and the batch query
  returns an error without a model call.
\<close>

theorem prompt_resolution_counterexample:
  "exhibits_table \<noteq> []
   \<and> service_resolve_prompt exhibits_table (Some ''slip'') ''Findings''
       = Inl (''Error: Not enough information is provided. No system prompt found for section ''
               @ [CHR 0x27] @ ''Findings'' @ [CHR 0x27] @ ''.'')
   \<and> service_query_with_batch always_text exhibits_table (Some ''slip'') [''doc''] ''Findings'' 5 3 fresh
       = (''Error: Not enough information is provided. No system prompt found for section ''
            @ [CHR 0x27] @ ''Findings'' @ [CHR 0x27] @ ''.'', \<lparr>calls = 0, sleeps = []\<rparr>)"
proof -
  have a: "exhibits_table \<noteq> []" by (simp add: exhibits_table_def)
  have b: "service_resolve_prompt exhibits_table (Some ''slip'') ''Findings''
       = Inl (''Error: Not enough information is provided. No system prompt found for section ''
               @ [CHR 0x27] @ ''Findings'' @ [CHR 0x27] @ ''.'')"
    by code_simp
  have c: "service_query_with_batch always_text exhibits_table (Some ''slip'') [''doc''] ''Findings'' 5 3 fresh
       = (''Error: Not enough information is provided. No system prompt found for section ''
            @ [CHR 0x27] @ ''Findings'' @ [CHR 0x27] @ ''.'', \<lparr>calls = 0, sleeps = []\<rparr>)"
    by code_simp
  show ?thesis by (intro conjI a b c)
qed

section \<open>C4: errors that are not retried\<close>

text \<open>
  C4 (as amended): whenever a model call of a batch query fails with an error whose
  text is neither rate-limit-class (none of \<open>429\<close>, \<open>rate limit\<close>, \<open>quota\<close>) nor holds
  the format-error marker \<open>Unable to determine the intended type of the `dict`\<close>, that
  call is the last call of the batch query and the query ends with a terminal error:
  \<open>GeminiHandler.query_with_batch\<close> raises \<open>RuntimeError("Gemini query failed: ...")\<close>,
  and returns \<open>Error: Content generation blocked (...)\<close> on a content-safety block
  whatever its reason; \<open>InferenceService.query_with_batch\<close> returns
  \<open>Error: Gemini API error: ...\<close> when the call is one of its first \<open>predict\<close>, and
  \<open>Error: Failed to fix format and retry: Gemini API error: ...\<close> when it is one of
  the second \<open>predict\<close> (there a block counts as the error
  \<open>Content generation blocked (reason)\<close>). An error that holds the format-error marker
  and is not rate-limit-class is retried once by the service: in the first \<open>predict\<close> it
  ends that \<open>predict\<close> and the result is that of a second \<open>predict\<close> on the same request
  (which makes at least one more call), while in the second \<open>predict\<close> it is terminal
  like every other error. The handler counts it as one retry: another call follows
  while fewer than \<open>max_retries\<close> retries were used, and otherwise the query ends on
  \<open>Error: Rate limit exceeded after maximum retries.\<close>
\<close>

theorem fatal_error_not_retried:
  "(calls st \<le> k
      \<and> k < calls (snd (handler_query_with_batch m P ct batch s base_retry_delay max_retries st))
      \<and> m k (batch @ [handler_resolve_prompt P ct s]) = Raises e
      \<and> \<not> is_rate_limit e \<and> \<not> sublist format_error_marker e
    \<longrightarrow> calls (snd (handler_query_with_batch m P ct batch s base_retry_delay max_retries st)) = Suc k
        \<and> fst (handler_query_with_batch m P ct batch s base_retry_delay max_retries st)
            = Inl (RuntimeError (''Gemini query failed: '' @ e)))
   \<and> (calls st \<le> k
      \<and> k < calls (snd (handler_query_with_batch m P ct batch s base_retry_delay max_retries st))
      \<and> m k (batch @ [handler_resolve_prompt P ct s]) = Returns r \<and> block_reason r \<noteq> []
    \<longrightarrow> calls (snd (handler_query_with_batch m P ct batch s base_retry_delay max_retries st)) = Suc k
        \<and> fst (handler_query_with_batch m P ct batch s base_retry_delay max_retries st)
            = Inr (''Error: Content generation blocked ('' @ block_reason r @ '')''))
   \<and> (calls st \<le> k
      \<and> k < calls (snd (handler_query_with_batch m P ct batch s base_retry_delay max_retries st))
      \<and> m k (batch @ [handler_resolve_prompt P ct s]) = Raises e
      \<and> \<not> is_rate_limit e \<and> sublist format_error_marker e
    \<longrightarrow> (int (k - calls st) < max_retries
          \<longrightarrow> Suc k < calls (snd (handler_query_with_batch m P ct batch s base_retry_delay max_retries st)))
        \<and> (\<not> int (k - calls st) < max_retries
          \<longrightarrow> calls (snd (handler_query_with_batch m P ct batch s base_retry_delay max_retries st)) = Suc k
              \<and> fst (handler_query_with_batch m P ct batch s base_retry_delay max_retries st)
                  = Inr ''Error: Rate limit exceeded after maximum retries.''))
   \<and> (service_resolve_prompt P ct s = Inr p \<and> calls st \<le> k
      \<and> k < calls (snd (service_query_with_batch m P ct batch s base_retry_delay max_retries st))
      \<and> predict_attempt (m k (batch @ [p])) = Inl e \<and> \<not> is_rate_limit e
    \<longrightarrow> (k < calls (snd (predict m (batch @ [p]) max_retries base_retry_delay st))
            \<and> \<not> sublist format_error_marker e
          \<longrightarrow> calls (snd (service_query_with_batch m P ct batch s base_retry_delay max_retries st)) = Suc k
              \<and> fst (service_query_with_batch m P ct batch s base_retry_delay max_retries st)
                  = ''Error: Gemini API error: '' @ e)
        \<and> (k < calls (snd (predict m (batch @ [p]) max_retries base_retry_delay st))
            \<and> sublist format_error_marker e
          \<longrightarrow> calls (snd (predict m (batch @ [p]) max_retries base_retry_delay st)) = Suc k
              \<and> service_query_with_batch m P ct batch s base_retry_delay max_retries st
                  = (case predict m (batch @ [p]) max_retries base_retry_delay
                            (snd (predict m (batch @ [p]) max_retries base_retry_delay st)) of
                       (Inr response, st2) \<Rightarrow> (response, st2)
                     | (Inl retry_e, st2) \<Rightarrow>
                         (''Error: Failed to fix format and retry: '' @ exn_str retry_e, st2))
              \<and> (0 \<le> max_retries
                  \<longrightarrow> Suc k < calls (snd (service_query_with_batch m P ct batch s
                                              base_retry_delay max_retries st))))
        \<and> (calls (snd (predict m (batch @ [p]) max_retries base_retry_delay st)) \<le> k
          \<longrightarrow> calls (snd (service_query_with_batch m P ct batch s base_retry_delay max_retries st)) = Suc k
              \<and> fst (service_query_with_batch m P ct batch s base_retry_delay max_retries st)
                  = ''Error: Failed to fix format and retry: Gemini API error: '' @ e))"
proof -
  let ?c = "batch @ [handler_resolve_prompt P ct s]"
  have unf: "handler_query_with_batch m P ct batch s base_retry_delay max_retries st
               = handler_query_loop m ?c max_retries base_retry_delay 0 st"
    if "k < calls (snd (handler_query_with_batch m P ct batch s base_retry_delay max_retries st))"
      and "calls st \<le> k"
    using that by (auto simp: handler_query_with_batch_def split: if_splits)
  have a: "calls (snd (handler_query_with_batch m P ct batch s base_retry_delay max_retries st)) = Suc k
        \<and> fst (handler_query_with_batch m P ct batch s base_retry_delay max_retries st)
            = Inl (RuntimeError (''Gemini query failed: '' @ e))"
    if h: "calls st \<le> k"
      "k < calls (snd (handler_query_with_batch m P ct batch s base_retry_delay max_retries st))"
      "m k ?c = Raises e" "\<not> is_rate_limit e" "\<not> sublist format_error_marker e"
  proof -
    from unf [OF h(2,1)] h(2)
    have "k < calls (snd (handler_query_loop m ?c max_retries base_retry_delay 0 st))" by simp
    from handler_loop_fatal_is_last [OF h(1) this h(3,4,5)] unf [OF h(2,1)]
    show ?thesis by simp
  qed
  have b: "calls (snd (handler_query_with_batch m P ct batch s base_retry_delay max_retries st)) = Suc k
        \<and> fst (handler_query_with_batch m P ct batch s base_retry_delay max_retries st)
            = Inr (''Error: Content generation blocked ('' @ block_reason r @ '')'')"
    if h: "calls st \<le> k"
      "k < calls (snd (handler_query_with_batch m P ct batch s base_retry_delay max_retries st))"
      "m k ?c = Returns r" "block_reason r \<noteq> []"
  proof -
    from unf [OF h(2,1)] h(2)
    have "k < calls (snd (handler_query_loop m ?c max_retries base_retry_delay 0 st))" by simp
    from handler_loop_response_is_last [OF h(1) this h(3)] unf [OF h(2,1)] h(4)
    show ?thesis by simp
  qed
  have c: "(int (k - calls st) < max_retries
          \<longrightarrow> Suc k < calls (snd (handler_query_with_batch m P ct batch s base_retry_delay max_retries st)))
        \<and> (\<not> int (k - calls st) < max_retries
          \<longrightarrow> calls (snd (handler_query_with_batch m P ct batch s base_retry_delay max_retries st)) = Suc k
              \<and> fst (handler_query_with_batch m P ct batch s base_retry_delay max_retries st)
                  = Inr ''Error: Rate limit exceeded after maximum retries.'')"
    if h: "calls st \<le> k"
      "k < calls (snd (handler_query_with_batch m P ct batch s base_retry_delay max_retries st))"
      "m k ?c = Raises e" "\<not> is_rate_limit e" "sublist format_error_marker e"
  proof -
    from unf [OF h(2,1)] h(2)
    have "k < calls (snd (handler_query_loop m ?c max_retries base_retry_delay 0 st))" by simp
    from handler_loop_format_error_retried [OF h(1) this h(3,4,5)] unf [OF h(2,1)]
    show ?thesis by simp
  qed
  note d = service_error_is_last [of P ct s p st k m batch base_retry_delay max_retries e]
  from a b c d show ?thesis by blast
qed

theorem fatal_error_not_retried_witness:
  "calls fresh \<le> 0
   \<and> 0 < calls (snd (handler_query_with_batch always_500 findings_table None [''doc''] ''Findings'' 5 3 fresh))
   \<and> always_500 0 ([''doc''] @ [handler_resolve_prompt findings_table None ''Findings''])
        = Raises ''500 Internal Server Error''
   \<and> \<not> is_rate_limit ''500 Internal Server Error''
   \<and> \<not> sublist format_error_marker ''500 Internal Server Error''
   \<and> calls (snd (handler_query_with_batch always_500 findings_table None [''doc''] ''Findings'' 5 3 fresh)) = Suc 0
   \<and> fst (handler_query_with_batch always_500 findings_table None [''doc''] ''Findings'' 5 3 fresh)
        = Inl (RuntimeError (''Gemini query failed: '' @ ''500 Internal Server Error''))
   \<and> handler_query_with_batch always_blocked findings_table None [''doc''] ''Findings'' 5 3 fresh
        = (Inr ''Error: Content generation blocked (SAFETY)'', \<lparr>calls = 1, sleeps = []\<rparr>)
   \<and> service_query_with_batch always_500 findings_table None [''doc''] ''Findings'' 5 3 fresh
        = (''Error: Gemini API error: 500 Internal Server Error'', \<lparr>calls = 1, sleeps = []\<rparr>)
   \<and> calls (snd (service_query_with_batch always_blocked findings_table None [''doc''] ''Findings'' 5 3 fresh))
        = Suc 0
   \<and> fst (service_query_with_batch always_blocked findings_table None [''doc''] ''Findings'' 5 3 fresh)
        = ''Error: Gemini API error: '' @ ''Content generation blocked (SAFETY)''
   \<and> service_query_with_batch format_error_always findings_table None [''doc''] ''Findings'' 5 3 fresh
        = (''Error: Failed to fix format and retry: Gemini API error: ''
             @ ''Unable to determine the intended type of the `dict`'', \<lparr>calls = 2, sleeps = []\<rparr>)
   \<and> handler_query_with_batch format_error_always findings_table None [''doc''] ''Findings'' 5 1 fresh
        = (Inr ''Error: Rate limit exceeded after maximum retries.'', \<lparr>calls = 2, sleeps = []\<rparr>)"
proof -
  have h1: "calls fresh \<le> 0" by (simp add: fresh_def)
  have h2: "0 < calls (snd (handler_query_with_batch always_500 findings_table None [''doc''] ''Findings'' 5 3 fresh))"
    by code_simp
  have h3: "always_500 0 ([''doc''] @ [handler_resolve_prompt findings_table None ''Findings''])
        = Raises ''500 Internal Server Error''"
    by (simp add: always_500_def)
  have h4: "\<not> is_rate_limit ''500 Internal Server Error''" by code_simp
  have h5: "\<not> sublist format_error_marker ''500 Internal Server Error''" by code_simp
  note t1 = fatal_error_not_retried [where st = fresh and k = 0 and m = always_500 and P = findings_table
      and ct = None and batch = "[''doc'']" and s = "''Findings''" and base_retry_delay = 5
      and max_retries = 3 and e = "''500 Internal Server Error''", THEN conjunct1]
  have r1: "calls (snd (handler_query_with_batch always_500 findings_table None [''doc''] ''Findings'' 5 3 fresh)) = Suc 0
   \<and> fst (handler_query_with_batch always_500 findings_table None [''doc''] ''Findings'' 5 3 fresh)
        = Inl (RuntimeError (''Gemini query failed: '' @ ''500 Internal Server Error''))"
    by (rule mp [OF t1]) (intro conjI h1 h2 h3 h4 h5)
  have r2: "handler_query_with_batch always_blocked findings_table None [''doc''] ''Findings'' 5 3 fresh
        = (Inr ''Error: Content generation blocked (SAFETY)'', \<lparr>calls = 1, sleeps = []\<rparr>)"
    by code_simp
  have r3: "service_query_with_batch always_500 findings_table None [''doc''] ''Findings'' 5 3 fresh
        = (''Error: Gemini API error: 500 Internal Server Error'', \<lparr>calls = 1, sleeps = []\<rparr>)"
    by code_simp
  have s1: "service_resolve_prompt findings_table None ''Findings'' = Inr ''Summarise the findings.''"
    by code_simp
  have s2: "0 < calls (snd (service_query_with_batch always_blocked findings_table None [''doc''] ''Findings'' 5 3 fresh))"
    by code_simp
  have s3: "predict_attempt (always_blocked 0 ([''doc''] @ [''Summarise the findings.'']))
              = Inl ''Content generation blocked (SAFETY)''"
    by code_simp
  have s4: "\<not> is_rate_limit ''Content generation blocked (SAFETY)''" by code_simp
  have s5: "\<not> sublist format_error_marker ''Content generation blocked (SAFETY)''" by code_simp
  have s6: "0 < calls (snd (predict always_blocked ([''doc''] @ [''Summarise the findings.'']) 3 5 fresh))"
    by code_simp
  note t2 = fatal_error_not_retried [where st = fresh and k = 0 and m = always_blocked and P = findings_table
      and ct = None and batch = "[''doc'']" and s = "''Findings''" and base_retry_delay = 5
      and max_retries = 3 and e = "''Content generation blocked (SAFETY)''"
      and p = "''Summarise the findings.''", THEN conjunct2, THEN conjunct2, THEN conjunct2]
  have r4: "calls (snd (service_query_with_batch always_blocked findings_table None [''doc''] ''Findings'' 5 3 fresh))
        = Suc 0
   \<and> fst (service_query_with_batch always_blocked findings_table None [''doc''] ''Findings'' 5 3 fresh)
        = ''Error: Gemini API error: '' @ ''Content generation blocked (SAFETY)''"
    by (rule mp [OF mp [OF t2, THEN conjunct1]]) (intro conjI s1 h1 s2 s3 s4, intro conjI s6 s5)
  have r5: "service_query_with_batch format_error_always findings_table None [''doc''] ''Findings'' 5 3 fresh
        = (''Error: Failed to fix format and retry: Gemini API error: ''
             @ ''Unable to determine the intended type of the `dict`'', \<lparr>calls = 2, sleeps = []\<rparr>)"
    by code_simp
  have r6: "handler_query_with_batch format_error_always findings_table None [''doc''] ''Findings'' 5 1 fresh
        = (Inr ''Error: Rate limit exceeded after maximum retries.'', \<lparr>calls = 2, sleeps = []\<rparr>)"
    by code_simp
  show ?thesis
    by (intro conjI h1 h2 h3 h4 h5 r1 [THEN conjunct1] r1 [THEN conjunct2] r2 r3
          r4 [THEN conjunct1] r4 [THEN conjunct2] r5 r6)
qed

text \<open>
  The claim as stated fails on a format error, which is not rate-limit-class and is
  retried: the handler calls the model a second time and returns its answer, and so
  does the service.
\<close>

theorem fatal_error_not_retried_counterexample:
  "format_error_then_text 0 [''doc'', ''Summarise the findings.'']
     = Raises ''Unable to determine the intended type of the `dict`''
   \<and> \<not> is_rate_limit ''Unable to determine the intended type of the `dict`''
   \<and> handler_query_with_batch format_error_then_text findings_table None [''doc''] ''Findings'' 5 1 fresh
       = (Inr ''analysis'', \<lparr>calls = 2, sleeps = []\<rparr>)
   \<and> service_query_with_batch format_error_then_text findings_table None [''doc''] ''Findings'' 5 1 fresh
       = (''analysis'', \<lparr>calls = 2, sleeps = []\<rparr>)"
proof -
  have a: "format_error_then_text 0 [''doc'', ''Summarise the findings.'']
     = Raises ''Unable to determine the intended type of the `dict`''"
    by (simp add: format_error_then_text_def)
  have b: "\<not> is_rate_limit ''Unable to determine the intended type of the `dict`''"
    by code_simp
  have c: "handler_query_with_batch format_error_then_text findings_table None [''doc''] ''Findings'' 5 1 fresh
       = (Inr ''analysis'', \<lparr>calls = 2, sleeps = []\<rparr>)"
    by code_simp
  have d: "service_query_with_batch format_error_then_text findings_table None [''doc''] ''Findings'' 5 1 fresh
       = (''analysis'', \<lparr>calls = 2, sleeps = []\<rparr>)"
    by code_simp
  show ?thesis by (intro conjI a b c d)
qed

section \<open>C5: the delay before the next attempt\<close>





section \<open>C6: failure of the final synthesis\<close>

text \<open>
  C6 (as amended): when the analysis reaches the synthesis call (some batch exists, and
  there is more than one batch result or a failed batch), then in
  \<open>InferenceService.create_unified_analysis\<close>: if every synthesis attempt is rate limited
  and every delay can be slept (it lies between 0 and 9223372036 seconds at every
  retry count up to \<open>max_retries\<close>), the result is exactly
  \<open>Error: Could not create unified analysis due to persistent API rate limits.\<close>; if a
  synthesis attempt fails with an error \<open>e\<close> that is not rate-limit-class the result is
  \<open>Error: Gemini API error: e\<close>; and if a rate-limited synthesis attempt computes a delay
  that cannot be slept, \<open>time.sleep\<close> raises and the result is
  \<open>Error: An unexpected error occurred during analysis: ...\<close> with the text of that
  exception. In \<open>GeminiHandler.create_unified_analysis\<close> the sentinel after exhausted
  retries (of \<open>429\<close> and \<open>rate limit\<close> errors only, with delays that can be slept) is
  \<open>Error: Could not create unified analysis due to repeated rate limit or other errors.\<close>,
  and any other exception of the synthesis call is raised again, as is the exception
  of a \<open>time.sleep\<close> that fails.
\<close>

theorem synthesis_failure:
  assumes "process_documents_in_batches all_content batch_size = Inr batches" and "batches \<noteq> []"
  shows
    "(service_run_batches m P ct s base_retry_delay max_retries 0 batches ([], False) st
        = ((results, failed), st1)
      \<and> \<not> (length results = 1 \<and> \<not> failed)
      \<longrightarrow> ((\<forall>k\<ge>calls st1. \<forall>c. \<exists>e. m k c = Raises e \<and> is_rate_limit e
                  \<and> (\<forall>n. int n \<le> max_retries
                        \<longrightarrow> sleep_error (extract_retry_delay e (base_retry_delay * 2 ^ n)) = None))
            \<longrightarrow> fst (service_create_unified_analysis m T P ct all_content s batch_size
                        base_retry_delay max_retries st)
                  = Inr ''Error: Could not create unified analysis due to persistent API rate limits.'')
          \<and> (calls st1 \<le> k
              \<and> k < calls (snd (service_create_unified_analysis m T P ct all_content s batch_size
                                  base_retry_delay max_retries st))
              \<and> predict_attempt (m k [T (failure_warning failed) s (combined_text 0 results)]) = Inl e
              \<and> \<not> is_rate_limit e
            \<longrightarrow> fst (service_create_unified_analysis m T P ct all_content s batch_size
                        base_retry_delay max_retries st)
                  = Inr (''Error: Gemini API error: '' @ e))
          \<and> (calls st1 \<le> k
              \<and> k < calls (snd (service_create_unified_analysis m T P ct all_content s batch_size
                                  base_retry_delay max_retries st))
              \<and> predict_attempt (m k [T (failure_warning failed) s (combined_text 0 results)]) = Inl e
              \<and> is_rate_limit e
              \<and> sleep_error (extract_retry_delay e (base_retry_delay * 2 ^ (k - calls st1))) = Some x
            \<longrightarrow> fst (service_create_unified_analysis m T P ct all_content s batch_size
                        base_retry_delay max_retries st)
                  = Inr (''Error: An unexpected error occurred during analysis: '' @ exn_str x)))
     \<and> (handler_run_batches m P ct s base_retry_delay max_retries 0 batches ([], False) st
          = (Inr (results', failed'), st1')
        \<and> \<not> (length results' = 1 \<and> \<not> failed')
        \<longrightarrow> ((\<forall>k\<ge>calls st1'. \<forall>c. \<exists>e. m k c = Raises e
                    \<and> (sublist ''429'' e \<or> sublist ''rate limit'' (py_lower e))
                    \<and> (\<forall>n. int n \<le> max_retries
                          \<longrightarrow> sleep_error (extract_retry_delay e (base_retry_delay * 2 ^ n)) = None))
              \<longrightarrow> fst (handler_create_unified_analysis m T P ct all_content s batch_size
                          base_retry_delay max_retries st)
                    = Inr ''Error: Could not create unified analysis due to repeated rate limit or other errors.'')
            \<and> (calls st1' \<le> k
                \<and> k < calls (snd (handler_create_unified_analysis m T P ct all_content s batch_size
                                    base_retry_delay max_retries st))
                \<and> m k [T (failure_warning failed') s (combined_text 0 results')] = Raises e
                \<and> \<not> (sublist ''429'' e \<or> sublist ''rate limit'' (py_lower e))
              \<longrightarrow> fst (handler_create_unified_analysis m T P ct all_content s batch_size
                          base_retry_delay max_retries st)
                    = Inl (ModelException e))
            \<and> (calls st1' \<le> k
                \<and> k < calls (snd (handler_create_unified_analysis m T P ct all_content s batch_size
                                    base_retry_delay max_retries st))
                \<and> m k [T (failure_warning failed') s (combined_text 0 results')] = Raises e
                \<and> (sublist ''429'' e \<or> sublist ''rate limit'' (py_lower e))
                \<and> sleep_error (extract_retry_delay e (base_retry_delay * 2 ^ (k - calls st1'))) = Some x
              \<longrightarrow> fst (handler_create_unified_analysis m T P ct all_content s batch_size
                          base_retry_delay max_retries st)
                    = Inl x))"
proof -
  let ?sp = "[T (failure_warning failed) s (combined_text 0 results)]"
  let ?hp = "[T (failure_warning failed') s (combined_text 0 results')]"
  have service:
    "service_create_unified_analysis m T P ct all_content s batch_size base_retry_delay max_retries st
       = (case predict m ?sp max_retries base_retry_delay st1 of
            (Inr unified_response, st2) \<Rightarrow> (Inr unified_response, st2)
          | (Inl (APIRateLimitError msg), st2) \<Rightarrow>
              (Inr ''Error: Could not create unified analysis due to persistent API rate limits.'', st2)
          | (Inl (APIError msg), st2) \<Rightarrow> (Inr (''Error: '' @ msg), st2)
          | (Inl e, st2) \<Rightarrow>
              (Inr (''Error: An unexpected error occurred during analysis: '' @ exn_str e), st2))"
    if "service_run_batches m P ct s base_retry_delay max_retries 0 batches ([], False) st
          = ((results, failed), st1)"
      and "\<not> (length results = 1 \<and> \<not> failed)"
    using assms that by (auto simp: service_create_unified_analysis_def)
  have handler:
    "handler_create_unified_analysis m T P ct all_content s batch_size base_retry_delay max_retries st
       = handler_synthesis_loop m ?hp max_retries base_retry_delay 0 st1'"
    if "handler_run_batches m P ct s base_retry_delay max_retries 0 batches ([], False) st
          = (Inr (results', failed'), st1')"
      and "\<not> (length results' = 1 \<and> \<not> failed')"
    using assms that by (auto simp: handler_create_unified_analysis_def)
  have a: "fst (service_create_unified_analysis m T P ct all_content s batch_size
                        base_retry_delay max_retries st)
                  = Inr ''Error: Could not create unified analysis due to persistent API rate limits.''"
    if run: "service_run_batches m P ct s base_retry_delay max_retries 0 batches ([], False) st
          = ((results, failed), st1)" "\<not> (length results = 1 \<and> \<not> failed)"
      and rl: "\<forall>k\<ge>calls st1. \<forall>c. \<exists>e. m k c = Raises e \<and> is_rate_limit e
                  \<and> (\<forall>n. int n \<le> max_retries
                        \<longrightarrow> sleep_error (extract_retry_delay e (base_retry_delay * 2 ^ n)) = None)"
  proof -
    from predict_loop_exhausted_from [OF rl, of ?sp 0]
    have "fst (predict m ?sp max_retries base_retry_delay st1)
            = Inl (APIRateLimitError ''Rate limit exceeded after maximum retries.'')"
      by (simp add: predict_def)
    then show ?thesis
      unfolding service [OF run]
      by (cases "predict m ?sp max_retries base_retry_delay st1") simp
  qed
  have b: "fst (service_create_unified_analysis m T P ct all_content s batch_size
                        base_retry_delay max_retries st)
                  = Inr (''Error: Gemini API error: '' @ e)"
    if run: "service_run_batches m P ct s base_retry_delay max_retries 0 batches ([], False) st
          = ((results, failed), st1)" "\<not> (length results = 1 \<and> \<not> failed)"
      and k: "calls st1 \<le> k"
        "k < calls (snd (service_create_unified_analysis m T P ct all_content s batch_size
                                  base_retry_delay max_retries st))"
        "predict_attempt (m k ?sp) = Inl e" "\<not> is_rate_limit e"
  proof -
    obtain r2 st2 where p: "predict m ?sp max_retries base_retry_delay st1 = (r2, st2)"
      by (cases "predict m ?sp max_retries base_retry_delay st1")
    from k(2) p have "k < calls st2"
      unfolding service [OF run] by (auto split: sum.splits exn.splits)
    with p have "k < calls (snd (predict_loop m ?sp max_retries base_retry_delay 0 st1))"
      by (simp add: predict_def)
    from predict_loop_fatal_is_last [OF k(1) this k(3,4)] p
    have "r2 = Inl (APIError (''Gemini API error: '' @ e))" by (simp add: predict_def)
    with p show ?thesis unfolding service [OF run] by simp
  qed
  have c: "fst (handler_create_unified_analysis m T P ct all_content s batch_size
                          base_retry_delay max_retries st)
                    = Inr ''Error: Could not create unified analysis due to repeated rate limit or other errors.''"
    if run: "handler_run_batches m P ct s base_retry_delay max_retries 0 batches ([], False) st
          = (Inr (results', failed'), st1')" "\<not> (length results' = 1 \<and> \<not> failed')"
      and rl: "\<forall>k\<ge>calls st1'. \<forall>c. \<exists>e. m k c = Raises e
                    \<and> (sublist ''429'' e \<or> sublist ''rate limit'' (py_lower e))
                    \<and> (\<forall>n. int n \<le> max_retries
                          \<longrightarrow> sleep_error (extract_retry_delay e (base_retry_delay * 2 ^ n)) = None)"
    unfolding handler [OF run] using rl by (rule handler_synthesis_loop_exhausted_from)
  have d: "fst (handler_create_unified_analysis m T P ct all_content s batch_size
                          base_retry_delay max_retries st)
                    = Inl (ModelException e)"
    if run: "handler_run_batches m P ct s base_retry_delay max_retries 0 batches ([], False) st
          = (Inr (results', failed'), st1')" "\<not> (length results' = 1 \<and> \<not> failed')"
      and k: "calls st1' \<le> k"
        "k < calls (snd (handler_create_unified_analysis m T P ct all_content s batch_size
                                    base_retry_delay max_retries st))"
        "m k ?hp = Raises e" "\<not> (sublist ''429'' e \<or> sublist ''rate limit'' (py_lower e))"
  proof -
    from k(2) have "k < calls (snd (handler_synthesis_loop m ?hp max_retries base_retry_delay 0 st1'))"
      unfolding handler [OF run] .
    from handler_synthesis_fatal_is_last [OF k(1) this k(3,4)] show ?thesis
      unfolding handler [OF run] by simp
  qed
  have b': "fst (service_create_unified_analysis m T P ct all_content s batch_size
                        base_retry_delay max_retries st)
                  = Inr (''Error: An unexpected error occurred during analysis: '' @ exn_str x)"
    if run: "service_run_batches m P ct s base_retry_delay max_retries 0 batches ([], False) st
          = ((results, failed), st1)" "\<not> (length results = 1 \<and> \<not> failed)"
      and k: "calls st1 \<le> k"
        "k < calls (snd (service_create_unified_analysis m T P ct all_content s batch_size
                                  base_retry_delay max_retries st))"
        "predict_attempt (m k ?sp) = Inl e" "is_rate_limit e"
        "sleep_error (extract_retry_delay e (base_retry_delay * 2 ^ (k - calls st1))) = Some x"
  proof -
    obtain r2 st2 where p: "predict m ?sp max_retries base_retry_delay st1 = (r2, st2)"
      by (cases "predict m ?sp max_retries base_retry_delay st1")
    from k(2) p have "k < calls st2"
      unfolding service [OF run] by (auto split: sum.splits exn.splits)
    with p have k2: "k < calls (snd (predict_loop m ?sp max_retries base_retry_delay 0 st1))"
      by (simp add: predict_def)
    from k(5) have sl: "sleep_error (extract_retry_delay e (base_retry_delay * 2 ^ (0 + (k - calls st1)))) = Some x"
      by simp
    from predict_loop_sleep_failure_is_last [OF k(1) k2 sl k(3,4)] p
    have "r2 = Inl x" by (simp add: predict_def)
    with p sleep_error_kinds [OF k(5)] show ?thesis unfolding service [OF run] by auto
  qed
  have d': "fst (handler_create_unified_analysis m T P ct all_content s batch_size
                          base_retry_delay max_retries st)
                    = Inl x"
    if run: "handler_run_batches m P ct s base_retry_delay max_retries 0 batches ([], False) st
          = (Inr (results', failed'), st1')" "\<not> (length results' = 1 \<and> \<not> failed')"
      and k: "calls st1' \<le> k"
        "k < calls (snd (handler_create_unified_analysis m T P ct all_content s batch_size
                                    base_retry_delay max_retries st))"
        "m k ?hp = Raises e" "sublist ''429'' e \<or> sublist ''rate limit'' (py_lower e)"
        "sleep_error (extract_retry_delay e (base_retry_delay * 2 ^ (k - calls st1'))) = Some x"
  proof -
    from k(2) have k2: "k < calls (snd (handler_synthesis_loop m ?hp max_retries base_retry_delay 0 st1'))"
      unfolding handler [OF run] .
    from k(5) have sl: "sleep_error (extract_retry_delay e (base_retry_delay * 2 ^ (0 + (k - calls st1')))) = Some x"
      by simp
    from handler_synthesis_sleep_failure_is_last [OF k(1) k2 sl k(3,4)] show ?thesis
      unfolding handler [OF run] by simp
  qed
  from a b b' c d d' show ?thesis by blast
qed

theorem synthesis_failure_witness:
  "process_documents_in_batches [''d1'', ''d2''] 1 = Inr [[''d1''], [''d2'']]
   \<and> [[''d1''], [''d2'']] \<noteq> ([] :: string list list)
   \<and> service_run_batches text_then_429 findings_table None ''Findings'' 5 1 0 [[''d1''], [''d2'']]
        ([], False) fresh
       = (([''analysis'', ''analysis''], False), \<lparr>calls = 2, sleeps = []\<rparr>)
   \<and> \<not> (length [''analysis'', ''analysis''] = 1 \<and> \<not> False)
   \<and> (\<forall>k c. text_then_429 (2 + k) c = Raises ''429 Too Many Requests'')
   \<and> is_rate_limit ''429 Too Many Requests''
   \<and> list_all (\<lambda>n. sleep_error (extract_retry_delay ''429 Too Many Requests'' (5 * 2 ^ n)) = None) [0..<2]
   \<and> fst (service_create_unified_analysis text_then_429 plain_template findings_table None
             [''d1'', ''d2''] ''Findings'' 1 5 1 fresh)
       = Inr ''Error: Could not create unified analysis due to persistent API rate limits.''
   \<and> service_create_unified_analysis text_then_500 plain_template findings_table None
             [''d1'', ''d2''] ''Findings'' 1 5 1 fresh
       = (Inr ''Error: Gemini API error: 500 Internal Server Error'', \<lparr>calls = 3, sleeps = []\<rparr>)
   \<and> service_create_unified_analysis text_then_429 plain_template findings_table None
             [''d1'', ''d2''] ''Findings'' 1 (- 1) 1 fresh
       = (Inr ''Error: An unexpected error occurred during analysis: sleep length must be non-negative'',
          \<lparr>calls = 3, sleeps = []\<rparr>)
   \<and> handler_create_unified_analysis text_then_429 plain_template findings_table None
             [''d1'', ''d2''] ''Findings'' 1 (- 1) 1 fresh
       = (Inl (ValueError ''sleep length must be non-negative''), \<lparr>calls = 3, sleeps = []\<rparr>)"
proof -
  have h1: "process_documents_in_batches [''d1'', ''d2''] 1 = Inr [[''d1''], [''d2'']]"
    by code_simp
  have h2: "[[''d1''], [''d2'']] \<noteq> ([] :: string list list)" by simp
  have run: "service_run_batches text_then_429 findings_table None ''Findings'' 5 1 0 [[''d1''], [''d2'']]
        ([], False) fresh
       = (([''analysis'', ''analysis''], False), \<lparr>calls = 2, sleeps = []\<rparr>)"
    by code_simp
  have two: "\<not> (length [''analysis'', ''analysis''] = 1 \<and> \<not> False)" by simp
  have script: "\<forall>k c. text_then_429 (2 + k) c = Raises ''429 Too Many Requests''"
    by (simp add: text_then_429_def)
  have cls: "is_rate_limit ''429 Too Many Requests''" by code_simp
  have nosec: "\<not> sublist ''retry_delay'' ''429 Too Many Requests''" by code_simp
  have dl: "list_all (\<lambda>n. sleep_error (extract_retry_delay ''429 Too Many Requests'' (5 * 2 ^ n)) = None) [0..<2]"
    by code_simp
  have ok: "sleep_error (extract_retry_delay ''429 Too Many Requests'' (5 * 2 ^ n)) = None" if "int n \<le> 1" for n
  proof -
    from that have "n \<le> 1" by simp
    then have "(2::int) ^ n \<le> 2 ^ 1" by (intro power_increasing) simp_all
    then have "(5::int) * 2 ^ n \<le> 9223372036" by simp
    moreover have "(0::int) \<le> 5 * 2 ^ n" by simp
    ultimately show ?thesis
      by (simp only: extract_retry_delay_no_section [OF nosec] sleep_error_None_iff)
  qed
  have rl: "\<forall>k\<ge>calls \<lparr>calls = 2, sleeps = []\<rparr>. \<forall>c. \<exists>e. text_then_429 k c = Raises e \<and> is_rate_limit e
              \<and> (\<forall>n. int n \<le> 1 \<longrightarrow> sleep_error (extract_retry_delay e (5 * 2 ^ n)) = None)"
    using cls ok by (simp add: text_then_429_def)
  note t = synthesis_failure [OF h1 h2, where m = text_then_429 and P = findings_table and ct = None
      and s = "''Findings''" and base_retry_delay = 5 and max_retries = 1 and st = fresh
      and results = "[''analysis'', ''analysis'']" and failed = False
      and ?st1.0 = "\<lparr>calls = 2, sleeps = []\<rparr>" and T = plain_template]
  have r1: "fst (service_create_unified_analysis text_then_429 plain_template findings_table None
             [''d1'', ''d2''] ''Findings'' 1 5 1 fresh)
       = Inr ''Error: Could not create unified analysis due to persistent API rate limits.''"
    by (rule mp [OF mp [OF t [THEN conjunct1], THEN conjunct1]]) (intro conjI run two, rule rl)
  have r2: "service_create_unified_analysis text_then_500 plain_template findings_table None
             [''d1'', ''d2''] ''Findings'' 1 5 1 fresh
       = (Inr ''Error: Gemini API error: 500 Internal Server Error'', \<lparr>calls = 3, sleeps = []\<rparr>)"
    by code_simp
  have r3: "service_create_unified_analysis text_then_429 plain_template findings_table None
             [''d1'', ''d2''] ''Findings'' 1 (- 1) 1 fresh
       = (Inr ''Error: An unexpected error occurred during analysis: sleep length must be non-negative'',
          \<lparr>calls = 3, sleeps = []\<rparr>)"
    by code_simp
  have r4: "handler_create_unified_analysis text_then_429 plain_template findings_table None
             [''d1'', ''d2''] ''Findings'' 1 (- 1) 1 fresh
       = (Inl (ValueError ''sleep length must be non-negative''), \<lparr>calls = 3, sleeps = []\<rparr>)"
    by code_simp
  show ?thesis
    by (intro conjI h1 h2 run two script cls dl r1 r2 r3 r4)
qed

text \<open>
  The claim as stated fails on \<open>GeminiHandler.create_unified_analysis\<close>: after exhausted
  retries it returns another sentinel, and a synthesis error that is not a rate limit
  is raised, not returned as an \<open>Error:\<close> string.
\<close>

theorem synthesis_failure_counterexample:
  "handler_create_unified_analysis text_then_429 plain_template findings_table None
      [''d1'', ''d2''] ''Findings'' 1 5 1 fresh
     = (Inr ''Error: Could not create unified analysis due to repeated rate limit or other errors.'',
        \<lparr>calls = 4, sleeps = [5, 10]\<rparr>)
   \<and> fst (handler_create_unified_analysis text_then_429 plain_template findings_table None
             [''d1'', ''d2''] ''Findings'' 1 5 1 fresh)
       \<noteq> Inr ''Error: Could not create unified analysis due to persistent API rate limits.''
   \<and> handler_create_unified_analysis text_then_500 plain_template findings_table None
        [''d1'', ''d2''] ''Findings'' 1 5 1 fresh
       = (Inl (ModelException ''500 Internal Server Error''), \<lparr>calls = 3, sleeps = []\<rparr>)"
proof -
  have a: "handler_create_unified_analysis text_then_429 plain_template findings_table None
      [''d1'', ''d2''] ''Findings'' 1 5 1 fresh
     = (Inr ''Error: Could not create unified analysis due to repeated rate limit or other errors.'',
        \<lparr>calls = 4, sleeps = [5, 10]\<rparr>)"
    by code_simp
  have b: "fst (handler_create_unified_analysis text_then_429 plain_template findings_table None
             [''d1'', ''d2''] ''Findings'' 1 5 1 fresh)
       \<noteq> Inr ''Error: Could not create unified analysis due to persistent API rate limits.''"
    by code_simp
  have c: "handler_create_unified_analysis text_then_500 plain_template findings_table None
        [''d1'', ''d2''] ''Findings'' 1 5 1 fresh
       = (Inl (ModelException ''500 Internal Server Error''), \<lparr>calls = 3, sleeps = []\<rparr>)"
    by code_simp
  show ?thesis by (intro conjI a b c)
qed

section \<open>C7: no header at all\<close>




section \<open>C9: the parser of the Background Information section\<close>

text \<open>
  C9: for every input that contains the marker \<open>**Background Information**\<close>,
  \<open>parse_background_response\<close> splits it at the first occurrence of the marker: the
  findings component is the stripped text before it, the background component the
  stripped text from the marker on; for every input without the marker the result is
  that of \<open>extract_findings_and_background\<close>.
\<close>

theorem background_marker_split:
  "(sublist background_marker t
      \<longrightarrow> (\<exists>pre post. t = pre @ background_marker @ post
             \<and> \<not> sublist background_marker (pre @ butlast background_marker)
             \<and> parse_background_response t = (py_strip pre, py_strip (background_marker @ post))))
   \<and> (\<not> sublist background_marker t
      \<longrightarrow> parse_background_response t = extract_findings_and_background t)"
proof -
  have a: "\<exists>pre post. t = pre @ background_marker @ post
             \<and> \<not> sublist background_marker (pre @ butlast background_marker)
             \<and> parse_background_response t = (py_strip pre, py_strip (background_marker @ post))"
    if "sublist background_marker t"
  proof -
    from that obtain i where i: "py_find background_marker t = Some i"
      using py_find_None_iff [of background_marker t] by auto
    have ne: "background_marker \<noteq> []" by (simp add: background_marker_def)
    let ?pre = "take i t" and ?post = "drop (i + length background_marker) t"
    have s: "t = ?pre @ background_marker @ ?post" using i by (rule py_find_split)
    have f: "\<not> sublist background_marker (?pre @ butlast background_marker)"
      using i ne by (rule py_find_first_occurrence)
    have "drop i t = background_marker @ ?post" using i by (rule drop_at_header)
    with i have "parse_background_response t = (py_strip ?pre, py_strip (background_marker @ ?post))"
      by (simp add: parse_background_response_def)
    with s f show ?thesis by blast
  qed
  have b: "parse_background_response t = extract_findings_and_background t"
    if "\<not> sublist background_marker t"
    using that py_find_None_iff [of background_marker t]
    by (simp add: parse_background_response_def)
  from a b show ?thesis by blast
qed

theorem background_marker_split_witness:
  "sublist background_marker (''pre-text'' @ [CHR 0x0A] @ ''**Background Information**'' @ [CHR 0x0A] @ ''post-text'')
   \<and> parse_background_response
        (''pre-text'' @ [CHR 0x0A] @ ''**Background Information**'' @ [CHR 0x0A] @ ''post-text'')
       = (''pre-text'', ''**Background Information**'' @ [CHR 0x0A] @ ''post-text'')
   \<and> \<not> sublist background_marker ''just some text''
   \<and> parse_background_response ''just some text'' = extract_findings_and_background ''just some text''
   \<and> parse_background_response ''just some text'' = ([], ''just some text'')
   \<and> parse_background_response [] = ([], [])"
proof -
  have h1: "sublist background_marker
      (''pre-text'' @ [CHR 0x0A] @ ''**Background Information**'' @ [CHR 0x0A] @ ''post-text'')"
    by code_simp
  have r1: "parse_background_response
        (''pre-text'' @ [CHR 0x0A] @ ''**Background Information**'' @ [CHR 0x0A] @ ''post-text'')
       = (''pre-text'', ''**Background Information**'' @ [CHR 0x0A] @ ''post-text'')"
    by code_simp
  have h2: "\<not> sublist background_marker ''just some text''" by code_simp
  have r2: "parse_background_response ''just some text'' = extract_findings_and_background ''just some text''"
    by (rule mp [OF background_marker_split [where t = "''just some text''", THEN conjunct2] h2])
  have r3: "parse_background_response ''just some text'' = ([], ''just some text'')"
    by code_simp
  have r4: "parse_background_response [] = ([], [])" by code_simp
  show ?thesis by (intro conjI h1 r1 h2 r2 r3 r4)
qed

section \<open>C10: a narrative is never lost\<close>

text \<open>
  C10: for every input that is not empty, at least one of the two strings returned by
  \<open>extract_findings_and_background\<close> is not empty; when no header of either family
  occurs, the whole input is the background component.
\<close>

theorem narrative_not_lost:
  "(t \<noteq> [] \<longrightarrow> fst (extract_findings_and_background t) \<noteq> []
                 \<or> snd (extract_findings_and_background t) \<noteq> [])
   \<and> ((\<forall>h \<in> set findings_headers. \<not> sublist h t) \<and> (\<forall>h \<in> set background_headers. \<not> sublist h t)
      \<longrightarrow> snd (extract_findings_and_background t) = t)"
proof -
  have a: "fst (extract_findings_and_background t) \<noteq> [] \<or> snd (extract_findings_and_background t) \<noteq> []"
    if "t \<noteq> []"
  proof (cases "earliest_header t background_headers None")
    case (Some b)
    obtain sb hb where "b = (sb, hb)" by (cases b)
    with Some have "earliest_header t background_headers None = Some (sb, hb)" by simp
    from efb_background_part [OF this] show ?thesis by blast
  next
    case nb: None
    show ?thesis
    proof (cases "earliest_header t findings_headers None")
      case None
      with nb that show ?thesis by (simp add: efb_no_header)
    next
      case (Some f)
      obtain sf hf where "f = (sf, hf)" by (cases f)
      with Some have "earliest_header t findings_headers None = Some (sf, hf)" by simp
      from efb_findings_only [OF this nb] show ?thesis
        by (simp add: canonical_findings_def)
    qed
  qed
  have b: "snd (extract_findings_and_background t) = t"
    if "\<forall>h \<in> set findings_headers. \<not> sublist h t" and "\<forall>h \<in> set background_headers. \<not> sublist h t"
  proof -
    have "extract_findings_and_background t = ([], t)"
      using that by (intro efb_no_header) (simp_all add: earliest_header_None_iff)
    then show ?thesis by simp
  qed
  from a b show ?thesis by blast
qed

theorem narrative_not_lost_witness:
  "'' '' \<noteq> [] \<and> extract_findings_and_background '' '' = ([], '' '')
   \<and> snd (extract_findings_and_background '' '') \<noteq> []
   \<and> list_all (\<lambda>h. \<not> sublist h ''just some text'') findings_headers
   \<and> list_all (\<lambda>h. \<not> sublist h ''just some text'') background_headers
   \<and> snd (extract_findings_and_background ''just some text'') = ''just some text''
   \<and> extract_findings_and_background (''**FINDINGS**'' @ [CHR 0x0A] @ ''X'')
       = (''**1.4 Findings**'' @ [CHR 0x0A] @ ''X'', [])"
proof -
  have h0: "'' '' \<noteq> []" by simp
  have r0: "extract_findings_and_background '' '' = ([], '' '')" by code_simp
  have "fst (extract_findings_and_background '' '') \<noteq> [] \<or> snd (extract_findings_and_background '' '') \<noteq> []"
    by (rule mp [OF narrative_not_lost [where t = "'' ''", THEN conjunct1] h0])
  with r0 have r1: "snd (extract_findings_and_background '' '') \<noteq> []" by simp
  have h1: "list_all (\<lambda>h. \<not> sublist h ''just some text'') findings_headers" by code_simp
  have h2: "list_all (\<lambda>h. \<not> sublist h ''just some text'') background_headers" by code_simp
  have p: "(\<forall>h \<in> set findings_headers. \<not> sublist h ''just some text'')
      \<and> (\<forall>h \<in> set background_headers. \<not> sublist h ''just some text'')"
    using h1 h2 by (simp add: list_all_iff)
  have r2: "snd (extract_findings_and_background ''just some text'') = ''just some text''"
    by (rule mp [OF narrative_not_lost [where t = "''just some text''", THEN conjunct2] p])
  have r3: "extract_findings_and_background (''**FINDINGS**'' @ [CHR 0x0A] @ ''X'')
       = (''**1.4 Findings**'' @ [CHR 0x0A] @ ''X'', [])"
    by code_simp
  show ?thesis by (intro conjI h0 r0 r1 h1 h2 r2 r3)
qed

end
